(* ===== verification/Prelude.thy ===== *)
theory Prelude
  imports Complex_Main "HOL-Library.Word"
begin

text \<open>
  What the components share of the Rust language and its standard library.

  \<^item> \<open>result\<close> is \<open>std::result::Result\<close>; \<open>run\<close> is the outcome of code that may panic.
  \<^item> A Rust \<open>String\<close> is the list of its \<open>char\<close>s, each a Unicode scalar value
    (\<open>rstring\<close>); \<open>lit\<close> turns an Isabelle string literal into one. A \<open>&'static str\<close> that
    the program only compares or prints stays an Isabelle \<open>string\<close>.
  \<^item> \<open>u32\<close> values are \<open>32 word\<close>; \<open>usize\<close> and \<open>u64\<close> values are \<open>nat\<close>, \<open>i32\<close> and \<open>i64\<close>
    values are \<open>int\<close>, with every checked or converting operation writing its range out.
  \<^item> \<open>std::time::Duration\<close> is its number of nanoseconds, at most \<open>duration_max\<close>
    (\<open>u64::MAX\<close> seconds and 999999999 nanoseconds), with the checked operations of the
    library. \<open>tokio::time::Instant\<close> is a signed nanosecond count inside the range of the
    platform's \<open>i64\<close> seconds clock.
  \<^item> A finite \<open>f64\<close> is the rational it denotes. The rounding of an arithmetic operation is the
    argument \<open>rnd\<close>; \<open>rnd_laws\<close> names what the program relies on of IEEE 754.
\<close>

named_theorems rust_defs \<open>definitions of the standard library operations the model uses\<close>

section \<open>Results and panics\<close>

datatype ('a, 'e) result = Ok 'a | Err 'e

datatype 'a run = Return 'a | Panic

fun bind_result :: "('a, 'e) result \<Rightarrow> ('a \<Rightarrow> ('b, 'e) result) \<Rightarrow> ('b, 'e) result" where
  "bind_result (Ok x) f = f x"
| "bind_result (Err e) f = Err e"

fun map_err :: "('e \<Rightarrow> 'f) \<Rightarrow> ('a, 'e) result \<Rightarrow> ('a, 'f) result" where
  "map_err f (Ok x) = Ok x"
| "map_err f (Err e) = Err (f e)"

fun is_err :: "('a, 'e) result \<Rightarrow> bool" where
  "is_err (Ok x) = False"
| "is_err (Err e) = True"

fun ok_or :: "'a option \<Rightarrow> 'e \<Rightarrow> ('a, 'e) result" where
  "ok_or (Some x) e = Ok x"
| "ok_or None e = Err e"

fun bind_run :: "'a run \<Rightarrow> ('a \<Rightarrow> 'b run) \<Rightarrow> 'b run" where
  "bind_run (Return x) f = f x"
| "bind_run Panic f = Panic"

text \<open>\<open>Iterator::collect\<close> into a \<open>Result\<close>: the first error in order, or every value.\<close>

fun collect_results :: "('a, 'e) result list \<Rightarrow> ('a list, 'e) result" where
  "collect_results [] = Ok []"
| "collect_results (r # rs) =
     (case r of Err e \<Rightarrow> Err e
      | Ok x \<Rightarrow> (case collect_results rs of Err e \<Rightarrow> Err e | Ok xs \<Rightarrow> Ok (x # xs)))"

lemma bind_result_eq_Ok [simp]:
  "bind_result r f = Ok y \<longleftrightarrow> (\<exists>x. r = Ok x \<and> f x = Ok y)"
  by (cases r) auto

lemma bind_result_eq_Err:
  "bind_result r f = Err e \<longleftrightarrow> r = Err e \<or> (\<exists>x. r = Ok x \<and> f x = Err e)"
  by (cases r) auto

lemma map_err_eq_Ok [simp]: "map_err f r = Ok x \<longleftrightarrow> r = Ok x"
  by (cases r) auto

lemma map_err_eq_Err: "map_err f r = Err e \<longleftrightarrow> (\<exists>e'. r = Err e' \<and> e = f e')"
  by (cases r) auto

lemma ok_or_eq_Ok [simp]: "ok_or x e = Ok y \<longleftrightarrow> x = Some y"
  by (cases x) auto

lemma ok_or_eq_Err [simp]: "ok_or x e = Err e' \<longleftrightarrow> x = None \<and> e = e'"
  by (cases x) auto

lemma bind_run_eq_Return [simp]:
  "bind_run r f = Return y \<longleftrightarrow> (\<exists>x. r = Return x \<and> f x = Return y)"
  by (cases r) auto

lemma bind_run_assoc: "bind_run (bind_run r f) g = bind_run r (\<lambda>x. bind_run (f x) g)"
  by (cases r) auto

lemma collect_results_Ok_iff:
  "collect_results rs = Ok xs \<longleftrightarrow> rs = map Ok xs"
proof (induction rs arbitrary: xs)
  case (Cons r rs)
  show ?case
  proof (cases r)
    case (Ok x)
    show ?thesis
    proof (cases "collect_results rs")
      case (Ok ys)
      with Cons.IH have "rs = map Ok ys" by blast
      with Ok \<open>r = Ok x\<close> Cons.IH show ?thesis by (cases xs) auto
    next
      case (Err e)
      with Cons.IH have "\<And>ys. rs \<noteq> map Ok ys" by (metis result.distinct(1))
      with Err \<open>r = Ok x\<close> show ?thesis by (cases xs) auto
    qed
  next
    case (Err e)
    then show ?thesis by (cases xs) auto
  qed
qed auto

lemma collect_results_map_Ok [simp]: "collect_results (map Ok xs) = Ok xs"
  by (simp add: collect_results_Ok_iff)

lemma collect_results_length: "collect_results rs = Ok xs \<Longrightarrow> length xs = length rs"
  by (simp add: collect_results_Ok_iff)

section \<open>Strings\<close>

type_synonym uchar = nat
type_synonym rstring = "uchar list"

definition lit :: "string \<Rightarrow> rstring" where
  "lit s = map of_char s"

text \<open>\<open>char::is_whitespace\<close>: the Unicode \<open>White_Space\<close> characters.\<close>

definition is_whitespace :: "uchar \<Rightarrow> bool" where
  "is_whitespace c \<longleftrightarrow>
     (9 \<le> c \<and> c \<le> 13) \<or> c = 32 \<or> c = 133 \<or> c = 160 \<or> c = 5760 \<or>
     (8192 \<le> c \<and> c \<le> 8202) \<or> c = 8232 \<or> c = 8233 \<or> c = 8239 \<or> c = 8287 \<or> c = 12288"

text \<open>\<open>str::trim\<close>.\<close>

definition trim :: "rstring \<Rightarrow> rstring" where
  "trim s = rev (dropWhile is_whitespace (rev (dropWhile is_whitespace s)))"

text \<open>\<open>char::is_ascii_alphanumeric\<close>.\<close>

definition is_ascii_alphanumeric :: "uchar \<Rightarrow> bool" where
  "is_ascii_alphanumeric c \<longleftrightarrow>
     (48 \<le> c \<and> c \<le> 57) \<or> (65 \<le> c \<and> c \<le> 90) \<or> (97 \<le> c \<and> c \<le> 122)"

definition trimmed :: "rstring \<Rightarrow> bool" where
  "trimmed s \<longleftrightarrow> s = [] \<or> (\<not> is_whitespace (hd s) \<and> \<not> is_whitespace (last s))"

lemma trimmed_trim [simp]: "trimmed (trim s)"
proof (cases "trim s = []")
  case False
  let ?d = "dropWhile is_whitespace s"
  let ?r = "dropWhile is_whitespace (rev ?d)"
  from False have ne: "?r \<noteq> []" by (simp add: trim_def)
  then have "\<not> is_whitespace (hd ?r)" by (rule hd_dropWhile)
  moreover have "last (trim s) = hd ?r" using ne by (simp add: trim_def last_rev)
  moreover have "\<not> is_whitespace (hd (trim s))"
  proof -
    have "rev ?d = takeWhile is_whitespace (rev ?d) @ ?r" by simp
    then obtain p where p: "rev ?d = p @ ?r" by blast
    then have "?d = rev ?r @ rev p" by (metis rev_append rev_rev_ident)
    then have "hd ?d = hd (rev ?r @ rev p)" by (rule arg_cong)
    also have "\<dots> = hd (trim s)" using ne unfolding trim_def by (intro hd_append2) blast
    finally have "hd ?d = hd (trim s)" .
    moreover from ne have "?d \<noteq> []" by (metis dropWhile.simps(1) rev.simps(1))
    then have "\<not> is_whitespace (hd ?d)" by (rule hd_dropWhile)
    ultimately show ?thesis by simp
  qed
  ultimately show ?thesis by (simp add: trimmed_def)
qed (simp add: trimmed_def)

lemma trim_trimmed [simp]: "trimmed s \<Longrightarrow> trim s = s"
proof -
  assume t: "trimmed s"
  show "trim s = s"
  proof (cases s rule: rev_cases)
    case (snoc ys y)
    with t have "\<not> is_whitespace y" and "\<not> is_whitespace (hd s)"
      by (auto simp: trimmed_def)
    then have "dropWhile is_whitespace s = s"
      by (cases s) auto
    with snoc \<open>\<not> is_whitespace y\<close> show ?thesis by (simp add: trim_def)
  qed (simp add: trim_def)
qed

lemma trim_idem [simp]: "trim (trim s) = trim s"
  by simp

lemma trim_Nil [simp]: "trim [] = []"
  by (simp add: trim_def)

lemma set_trim_subset: "set (trim s) \<subseteq> set s"
proof
  fix c
  assume "c \<in> set (trim s)"
  then have "c \<in> set (dropWhile is_whitespace (rev (dropWhile is_whitespace s)))"
    by (simp only: trim_def set_rev)
  from set_dropWhileD [OF this] have "c \<in> set (dropWhile is_whitespace s)"
    by (simp only: set_rev)
  then show "c \<in> set s" by (rule set_dropWhileD)
qed

section \<open>Machine integer ranges\<close>

type_synonym u32 = "32 word"

definition i32_max :: int where "i32_max = 2 ^ 31 - 1"
definition i64_max :: int where "i64_max = 2 ^ 63 - 1"
definition u64_max :: nat where "u64_max = 2 ^ 64 - 1"
definition usize_max :: nat where "usize_max = 2 ^ 64 - 1"
definition u128_max :: nat where "u128_max = 2 ^ 128 - 1"

text \<open>\<open>i64::try_from\<close> of a \<open>usize\<close> or a \<open>u128\<close>.\<close>

definition i64_try_from :: "nat \<Rightarrow> int option" where
  "i64_try_from n = (if int n \<le> i64_max then Some (int n) else None)"

text \<open>\<open>usize::checked_mul\<close> and \<open>usize::checked_add\<close>.\<close>

definition usize_checked_mul :: "nat \<Rightarrow> nat \<Rightarrow> nat option" where
  "usize_checked_mul a b = (if a * b \<le> usize_max then Some (a * b) else None)"

definition usize_checked_add :: "nat \<Rightarrow> nat \<Rightarrow> nat option" where
  "usize_checked_add a b = (if a + b \<le> usize_max then Some (a + b) else None)"

lemmas int_range_defs [rust_defs] =
  i32_max_def i64_max_def u64_max_def usize_max_def u128_max_def i64_try_from_def
  usize_checked_mul_def usize_checked_add_def

section \<open>Durations and instants\<close>

type_synonym duration = nat

definition nanos_per_sec :: nat where "nanos_per_sec = 1000000000"
definition nanos_per_milli :: nat where "nanos_per_milli = 1000000"

definition duration_max :: duration where
  "duration_max = u64_max * nanos_per_sec + 999999999"

definition from_millis :: "nat \<Rightarrow> duration" where "from_millis n = n * nanos_per_milli"
definition from_secs :: "nat \<Rightarrow> duration" where "from_secs n = n * nanos_per_sec"
definition as_millis :: "duration \<Rightarrow> nat" where "as_millis d = d div nanos_per_milli"

definition duration_checked_add :: "duration \<Rightarrow> duration \<Rightarrow> duration option" where
  "duration_checked_add a b = (if a + b \<le> duration_max then Some (a + b) else None)"

definition duration_checked_mul :: "duration \<Rightarrow> nat \<Rightarrow> duration option" where
  "duration_checked_mul a k = (if a * k \<le> duration_max then Some (a * k) else None)"

definition duration_saturating_mul :: "duration \<Rightarrow> nat \<Rightarrow> duration" where
  "duration_saturating_mul a k = min (a * k) duration_max"

lemmas duration_defs [rust_defs] =
  nanos_per_sec_def nanos_per_milli_def duration_max_def from_millis_def from_secs_def
  as_millis_def duration_checked_add_def duration_checked_mul_def duration_saturating_mul_def

type_synonym instant = int

definition instant_min :: instant where "instant_min = - (2 ^ 63) * 1000000000"
definition instant_max :: instant where "instant_max = (2 ^ 63 - 1) * 1000000000 + 999999999"

definition instant_checked_add :: "instant \<Rightarrow> duration \<Rightarrow> instant option" where
  "instant_checked_add t d = (if t + int d \<le> instant_max then Some (t + int d) else None)"

definition instant_checked_sub :: "instant \<Rightarrow> duration \<Rightarrow> instant option" where
  "instant_checked_sub t d = (if instant_min \<le> t - int d then Some (t - int d) else None)"

text \<open>\<open>Instant + Duration\<close>, which panics when the sum is not representable.\<close>

definition instant_add :: "instant \<Rightarrow> duration \<Rightarrow> instant run" where
  "instant_add t d = (case instant_checked_add t d of Some u \<Rightarrow> Return u | None \<Rightarrow> Panic)"

lemmas instant_defs [rust_defs] =
  instant_min_def instant_max_def instant_checked_add_def instant_checked_sub_def instant_add_def

section \<open>Decimal numbers\<close>

text \<open>The digits \<open>Display\<close> writes for an integer, and \<open>u64::from_str\<close>.\<close>

fun digits :: "nat \<Rightarrow> rstring" where
  "digits n = (if n < 10 then [48 + n] else digits (n div 10) @ [48 + n mod 10])"

declare digits.simps [simp del]

definition int_to_string :: "int \<Rightarrow> rstring" where
  "int_to_string i = (if i < 0 then 45 # digits (nat (- i)) else digits (nat i))"

fun parse_digits :: "nat \<Rightarrow> rstring \<Rightarrow> nat option" where
  "parse_digits acc [] = Some acc"
| "parse_digits acc (c # cs) =
     (if 48 \<le> c \<and> c \<le> 57 \<and> acc * 10 + (c - 48) \<le> u64_max
      then parse_digits (acc * 10 + (c - 48)) cs else None)"

definition parse_u64 :: "rstring \<Rightarrow> nat option" where
  "parse_u64 s =
     (case s of
        [] \<Rightarrow> None
      | c # cs \<Rightarrow> if c = 43 then (if cs = [] then None else parse_digits 0 cs) else parse_digits 0 s)"

lemma digits_nonempty [simp]: "digits n \<noteq> []"
  by (subst digits.simps) simp

lemma digits_range: "c \<in> set (digits n) \<Longrightarrow> 48 \<le> c \<and> c \<le> 57"
proof (induction n rule: digits.induct)
  case (1 n)
  from "1.prems" show ?case
    by (subst (asm) digits.simps) (use "1.IH" in \<open>auto split: if_splits\<close>)
qed

lemma parse_digits_append:
  "parse_digits acc (s @ t) = Option.bind (parse_digits acc s) (\<lambda>n. parse_digits n t)"
  by (induction s arbitrary: acc) auto

lemma parse_digits_digits: "n \<le> u64_max \<Longrightarrow> parse_digits 0 (digits n) = Some n"
proof (induction n rule: digits.induct)
  case (1 n)
  show ?case
  proof (cases "n < 10")
    case True
    then show ?thesis using "1.prems" by (subst digits.simps) simp
  next
    case False
    then have "parse_digits 0 (digits (n div 10)) = Some (n div 10)"
      using 1 by (meson div_le_dividend le_trans)
    with False "1.prems" show ?thesis
      by (subst digits.simps) (simp add: parse_digits_append mult.commute)
  qed
qed

lemma parse_u64_digits [simp]: "n \<le> u64_max \<Longrightarrow> parse_u64 (digits n) = Some n"
  using parse_digits_digits [of n] digits_nonempty [of n] digits_range [of "hd (digits n)" n]
  by (cases "digits n") (auto simp: parse_u64_def)

section \<open>Floating point\<close>

type_synonym f64 = rat

definition rnd_laws :: "(rat \<Rightarrow> f64) \<Rightarrow> bool" where
  "rnd_laws rnd \<longleftrightarrow>
     (\<forall>x y. x \<le> y \<longrightarrow> rnd x \<le> rnd y) \<and> (\<forall>n::nat. n < 2 ^ 53 \<longrightarrow> rnd (of_nat n) = of_nat n)"

text \<open>\<open>Duration::from_secs_f64\<close> rounds to the nearest nanosecond, ties to even.\<close>

definition round_half_even :: "rat \<Rightarrow> int" where
  "round_half_even x =
     (let f = \<lfloor>x\<rfloor>; r = x - of_int f in
      if r < 1 / 2 then f else if r > 1 / 2 then f + 1 else if even f then f else f + 1)"

definition from_secs_f64 :: "f64 \<Rightarrow> duration" where
  "from_secs_f64 x = nat (round_half_even (x * 1000000000))"

lemma round_half_even_ge: "of_int k \<le> x \<Longrightarrow> k \<le> round_half_even x"
proof -
  assume "of_int k \<le> x"
  then have "k \<le> \<lfloor>x\<rfloor>" by (simp add: le_floor_iff)
  moreover have "\<lfloor>x\<rfloor> \<le> round_half_even x" by (simp add: round_half_even_def Let_def)
  ultimately show ?thesis by simp
qed

lemma round_half_even_le: "x \<le> of_int k \<Longrightarrow> round_half_even x \<le> k"
proof (cases "x = of_int k")
  case False
  moreover assume "x \<le> of_int k"
  ultimately have "\<lfloor>x\<rfloor> < k" by (simp add: floor_less_iff)
  then show ?thesis by (auto simp: round_half_even_def Let_def)
qed (simp add: round_half_even_def)

lemma from_secs_f64_bounds:
  assumes "of_nat a \<le> x" "x \<le> of_nat b"
  shows "from_secs a \<le> from_secs_f64 x" "from_secs_f64 x \<le> from_secs b"
proof -
  from assms(1) have "of_int (int a * 1000000000) \<le> x * 1000000000" by simp
  from round_half_even_ge [OF this] show "from_secs a \<le> from_secs_f64 x"
    by (simp add: from_secs_def from_secs_f64_def nanos_per_sec_def)
  from assms(2) have "x * 1000000000 \<le> of_int (int b * 1000000000)" by simp
  from round_half_even_le [OF this] show "from_secs_f64 x \<le> from_secs b"
    by (simp add: from_secs_def from_secs_f64_def nanos_per_sec_def)
qed

end
