(* ===== verification/Domain_Values.thy ===== *)
theory Domain_Values
  imports Prelude
begin

text \<open>
  The value objects of the domain: \<open>Email\<close>
  (\<open>domain/email_reservation/value_objects.rs\<close>), \<open>UserAccountId\<close>
  (\<open>domain/user_account/id.rs\<close>) and \<open>RegistrationProfile\<close> (\<open>domain/email_reservation.rs\<close>).

  \<^item> An \<open>EmailAddress\<close> of the \<open>email_address\<close> crate is the text its \<open>as_str\<close> returns. The
    crate's parser, with the options the code passes, is the argument \<open>parse_address\<close>;
    \<open>str::to_lowercase\<close>, whose Unicode tables are not part of the program, is the argument
    \<open>lower\<close>. \<open>address_laws\<close> names what the program relies on.
  \<^item> A \<open>Uuid\<close> is its 128 bits. \<open>Uuid::parse_str\<close>, \<open>Uuid::fmt\<close> and the v4 generator are
    arguments.
  \<^item> A \<open>chrono::NaiveDate\<close> is its day number and a \<open>DateTime<Utc>\<close> its nanosecond number:
    the program only compares them.
\<close>

section \<open>Email\<close>

datatype Email = Email (as_str: rstring)

datatype InvalidEmail = InvalidEmail

definition quote_char :: uchar where
  "quote_char = 34"

definition Email_parse ::
  "(rstring \<Rightarrow> rstring) \<Rightarrow> (rstring \<Rightarrow> rstring option) \<Rightarrow> rstring \<Rightarrow> (Email, InvalidEmail) result" where
  "Email_parse lower parse_address value =
     (if quote_char \<in> set value then Err InvalidEmail
      else (case parse_address (lower (trim value)) of
              Some address \<Rightarrow> Ok (Email address)
            | None \<Rightarrow> Err InvalidEmail))"

text \<open>\<open>FromStr::from_str\<close>, the \<open>visit_str\<close> of \<open>Deserialize\<close> and \<open>Display::fmt\<close>.\<close>

definition Email_from_str ::
  "(rstring \<Rightarrow> rstring) \<Rightarrow> (rstring \<Rightarrow> rstring option) \<Rightarrow> rstring \<Rightarrow> (Email, InvalidEmail) result" where
  "Email_from_str lower parse_address value = Email_parse lower parse_address value"

definition Email_visit_str ::
  "(rstring \<Rightarrow> rstring) \<Rightarrow> (rstring \<Rightarrow> rstring option) \<Rightarrow> (InvalidEmail \<Rightarrow> 'e) \<Rightarrow> rstring
     \<Rightarrow> (Email, 'e) result" where
  "Email_visit_str lower parse_address custom value =
     map_err custom (Email_parse lower parse_address value)"

definition Email_to_string :: "Email \<Rightarrow> rstring" where
  "Email_to_string email = as_str email"

text \<open>
  What the program relies on of the two libraries: lower-casing is idempotent and makes no
  quote; the address parser keeps the text it accepts, and accepts no text with white space
  at its ends.
\<close>

definition address_laws :: "(rstring \<Rightarrow> rstring) \<Rightarrow> (rstring \<Rightarrow> rstring option) \<Rightarrow> bool" where
  "address_laws lower parse_address \<longleftrightarrow>
     (\<forall>s. lower (lower s) = lower s) \<and>
     (\<forall>s. quote_char \<in> set (lower s) \<longrightarrow> quote_char \<in> set s) \<and>
     (\<forall>s a. parse_address s = Some a \<longrightarrow> a = s \<and> trimmed s)"

lemma parsed_text:
  assumes laws: "address_laws lower parse_address"
    and ok: "Email_parse lower parse_address v = Ok email"
  shows "email = Email (lower (trim v)) \<and> trimmed (lower (trim v)) \<and>
    quote_char \<notin> set (lower (trim v)) \<and> parse_address (lower (trim v)) = Some (lower (trim v))"
proof -
  from ok obtain a where a: "parse_address (lower (trim v)) = Some a" "email = Email a"
    and q: "quote_char \<notin> set v"
    by (auto simp: Email_parse_def split: if_splits option.splits)
  with laws have "a = lower (trim v)" "trimmed (lower (trim v))"
    unfolding address_laws_def by blast+
  moreover from laws q have "quote_char \<notin> set (lower (trim v))"
    using set_trim_subset [of v] unfolding address_laws_def by blast
  ultimately show ?thesis using a by simp
qed

text \<open>The text of a parsed address parses again, to the same address.\<close>

lemma email_text_parses:
  assumes laws: "address_laws lower parse_address" and ok: "Email_parse lower parse_address v = Ok email"
  shows "Email_parse lower parse_address (Email_to_string email) = Ok email"
proof -
  let ?t = "lower (trim v)"
  from parsed_text [OF laws ok] have t: "email = Email ?t" "trim ?t = ?t" "quote_char \<notin> set ?t" "parse_address ?t = Some ?t" by simp_all
  from laws have "lower ?t = ?t" unfolding address_laws_def by blast
  with t show ?thesis by (simp add: Email_parse_def Email_to_string_def)
qed

text \<open>ASCII lower-casing with a dot-and-at-sign syntax: one pair of libraries with these laws.\<close>

definition ascii_lower :: "rstring \<Rightarrow> rstring" where
  "ascii_lower = map (\<lambda>c. if 65 \<le> c \<and> c \<le> 90 then c + 32 else c)"

definition plain_address :: "rstring \<Rightarrow> rstring option" where
  "plain_address s =
     (if 64 \<in> set s \<and> list_all (\<lambda>c. \<not> is_whitespace c) s then Some s else None)"

lemma ascii_address_laws: "address_laws ascii_lower plain_address"
  unfolding address_laws_def
proof (intro conjI allI impI)
  fix s a
  show "ascii_lower (ascii_lower s) = ascii_lower s" by (auto simp: ascii_lower_def)
  show "quote_char \<in> set (ascii_lower s) \<Longrightarrow> quote_char \<in> set s"
    by (auto simp: ascii_lower_def quote_char_def split: if_splits)
  show "plain_address s = Some a \<Longrightarrow> a = s" by (auto simp: plain_address_def split: if_splits)
  show "plain_address s = Some a \<Longrightarrow> trimmed s"
    by (cases s rule: rev_cases)
      (auto simp: plain_address_def trimmed_def hd_append list_all_iff split: if_splits)
qed

section \<open>Account identifiers\<close>

type_synonym Uuid = "128 word"

datatype UserAccountId = UserAccountId (as_uuid: Uuid)

definition UserAccountId_from_uuid :: "Uuid \<Rightarrow> UserAccountId" where
  "UserAccountId_from_uuid value = UserAccountId value"

text \<open>\<open>new\<close> and \<open>default\<close> take the value the v4 generator returns.\<close>

definition UserAccountId_new :: "Uuid \<Rightarrow> UserAccountId" where
  "UserAccountId_new v4 = UserAccountId v4"

definition UserAccountId_to_string :: "(Uuid \<Rightarrow> rstring) \<Rightarrow> UserAccountId \<Rightarrow> rstring" where
  "UserAccountId_to_string uuid_fmt account_id = uuid_fmt (as_uuid account_id)"

definition UserAccountId_from_str ::
  "(rstring \<Rightarrow> (Uuid, 'e) result) \<Rightarrow> rstring \<Rightarrow> (UserAccountId, 'e) result" where
  "UserAccountId_from_str parse_str value =
     (case parse_str value of Ok v \<Rightarrow> Ok (UserAccountId v) | Err e \<Rightarrow> Err e)"

section \<open>Dates and the registration profile\<close>

type_synonym NaiveDate = int
type_synonym DateTime = int

record RegistrationProfile =
  rp_first_name :: rstring
  rp_last_name :: rstring
  rp_date_of_birth :: NaiveDate
  rp_validation_date :: NaiveDate

definition RegistrationProfile_new ::
  "rstring \<Rightarrow> rstring \<Rightarrow> NaiveDate \<Rightarrow> NaiveDate \<Rightarrow> RegistrationProfile" where
  "RegistrationProfile_new first_name last_name date_of_birth validation_date =
     \<lparr> rp_first_name = trim first_name, rp_last_name = trim last_name,
       rp_date_of_birth = date_of_birth, rp_validation_date = validation_date \<rparr>"

text \<open>A profile both aggregates accept: normalised, named, and not born after its check.\<close>

definition profile_ok :: "RegistrationProfile \<Rightarrow> bool" where
  "profile_ok p \<longleftrightarrow>
     trimmed (rp_first_name p) \<and> rp_first_name p \<noteq> [] \<and>
     trimmed (rp_last_name p) \<and> rp_last_name p \<noteq> [] \<and>
     rp_date_of_birth p \<le> rp_validation_date p"

definition normalize_profile :: "RegistrationProfile \<Rightarrow> RegistrationProfile" where
  "normalize_profile p = RegistrationProfile_new (rp_first_name p) (rp_last_name p)
     (rp_date_of_birth p) (rp_validation_date p)"

lemma normalize_profile_ok [simp]: "profile_ok p \<Longrightarrow> normalize_profile p = p"
  by (simp add: profile_ok_def normalize_profile_def RegistrationProfile_new_def)

lemma normalize_idem [simp]: "normalize_profile (normalize_profile p) = normalize_profile p"
  by (simp add: normalize_profile_def RegistrationProfile_new_def)

lemma normalize_sel [simp]:
  "rp_first_name (normalize_profile p) = trim (rp_first_name p)"
  "rp_last_name (normalize_profile p) = trim (rp_last_name p)"
  "rp_date_of_birth (normalize_profile p) = rp_date_of_birth p"
  "rp_validation_date (normalize_profile p) = rp_validation_date p"
  by (simp_all add: normalize_profile_def RegistrationProfile_new_def)

end
