(* ===== verification/Task_Data.thy ===== *)
theory Task_Data
  imports Domain_Values
begin

text \<open>
  The data of a task: \<open>task/data/format.rs\<close>, \<open>new_task.rs\<close>, \<open>attempt.rs\<close> and
  \<open>validation.rs\<close> of \<open>cqrs-runtime\<close>. A JSON document (\<open>serde_json::Value\<close>) is a value of an
  arbitrary type \<open>'v\<close>; \<open>Value::is_object\<close> is the argument \<open>is_object\<close>, the document of
  \<open>json!({})\<close> the argument \<open>empty_object\<close>, and the result of \<open>serde_json::to_value\<close> is passed
  in. A generated identifier is an argument. The theory shows that a constructor succeeds only
  with data that satisfies the checks of the outbox table.
\<close>

section \<open>Formats\<close>

datatype TaskFormatError = EmptyType | InvalidVersion

record TaskFormat =
  task_type :: rstring
  task_version :: int

definition TaskFormat_new :: "rstring \<Rightarrow> int \<Rightarrow> (TaskFormat, TaskFormatError) result" where
  "TaskFormat_new ty version =
     (if ty = [] then Err EmptyType
      else if version \<le> 0 then Err InvalidVersion
      else Ok \<lparr> task_type = ty, task_version = version \<rparr>)"

text \<open>A wire DTO has its constants and its serialised document.\<close>

record 'v TaskPayload =
  TASK_TYPE :: rstring
  TASK_VERSION :: int
  to_value :: "'v option"

definition TaskFormat_of :: "'v TaskPayload \<Rightarrow> (TaskFormat, TaskFormatError) result" where
  "TaskFormat_of payload = TaskFormat_new (TASK_TYPE payload) (TASK_VERSION payload)"

definition TaskFormat_to_string :: "TaskFormat \<Rightarrow> rstring" where
  "TaskFormat_to_string self = task_type self @ lit '' v'' @ int_to_string (task_version self)"

definition format_ok :: "TaskFormat \<Rightarrow> bool" where
  "format_ok f \<longleftrightarrow> task_type f \<noteq> [] \<and> 0 < task_version f"

section \<open>Validation\<close>

datatype TaskValidationError =
    Format TaskFormatError
  | Serialization
  | PayloadNotObject
  | MetadataNotObject
  | InvalidAttemptLimit
  | InvalidAttempt
  | InvalidSchedule

definition validate_payload :: "('v \<Rightarrow> bool) \<Rightarrow> 'v \<Rightarrow> (unit, TaskValidationError) result" where
  "validate_payload is_object payload = (if is_object payload then Ok () else Err PayloadNotObject)"

definition validate_metadata :: "('v \<Rightarrow> bool) \<Rightarrow> 'v \<Rightarrow> (unit, TaskValidationError) result" where
  "validate_metadata is_object metadata = (if is_object metadata then Ok () else Err MetadataNotObject)"

section \<open>Published tasks\<close>

datatype TaskSchedule = Now | After duration | At DateTime

fun TaskSchedule_validate :: "TaskSchedule \<Rightarrow> (unit, TaskValidationError) result" where
  "TaskSchedule_validate (After delay) =
     (if int (as_millis delay) > i64_max then Err InvalidSchedule else Ok ())"
| "TaskSchedule_validate _ = Ok ()"

record 'v NewTask =
  nt_id :: Uuid
  nt_format :: TaskFormat
  nt_payload :: 'v
  nt_metadata :: 'v
  nt_schedule :: TaskSchedule
  nt_max_attempts :: int

definition NewTask_from_payload ::
  "('v \<Rightarrow> bool) \<Rightarrow> 'v \<Rightarrow> Uuid \<Rightarrow> TaskFormat \<Rightarrow> 'v \<Rightarrow> ('v NewTask, TaskValidationError) result" where
  "NewTask_from_payload is_object empty_object v4 fmt payload =
     bind_result (validate_payload is_object payload) (\<lambda>_.
       Ok \<lparr> nt_id = v4, nt_format = fmt, nt_payload = payload, nt_metadata = empty_object,
            nt_schedule = Now, nt_max_attempts = 10 \<rparr>)"

definition NewTask_new ::
  "('v \<Rightarrow> bool) \<Rightarrow> 'v \<Rightarrow> Uuid \<Rightarrow> 'v TaskPayload \<Rightarrow> ('v NewTask, TaskValidationError) result" where
  "NewTask_new is_object empty_object v4 payload =
     bind_result (map_err Format (TaskFormat_of payload)) (\<lambda>fmt.
     bind_result (ok_or (to_value payload) Serialization) (\<lambda>value.
       NewTask_from_payload is_object empty_object v4 fmt value))"

definition NewTask_scheduled ::
  "TaskSchedule \<Rightarrow> 'v NewTask \<Rightarrow> ('v NewTask, TaskValidationError) result" where
  "NewTask_scheduled schedule self =
     bind_result (TaskSchedule_validate schedule) (\<lambda>_. Ok (self\<lparr>nt_schedule := schedule\<rparr>))"

definition NewTask_with_metadata ::
  "('v \<Rightarrow> bool) \<Rightarrow> 'v \<Rightarrow> 'v NewTask \<Rightarrow> ('v NewTask, TaskValidationError) result" where
  "NewTask_with_metadata is_object metadata self =
     bind_result (validate_metadata is_object metadata) (\<lambda>_. Ok (self\<lparr>nt_metadata := metadata\<rparr>))"

definition NewTask_with_max_attempts ::
  "int \<Rightarrow> 'v NewTask \<Rightarrow> ('v NewTask, TaskValidationError) result" where
  "NewTask_with_max_attempts max_attempts self =
     (if max_attempts \<le> 0 then Err InvalidAttemptLimit
      else Ok (self\<lparr>nt_max_attempts := max_attempts\<rparr>))"

section \<open>Attempts\<close>

record 'v TaskAttempt =
  ta_id :: Uuid
  ta_format :: TaskFormat
  ta_payload :: 'v
  ta_metadata :: 'v
  ta_number :: int

definition TaskAttempt_new ::
  "('v \<Rightarrow> bool) \<Rightarrow> Uuid \<Rightarrow> TaskFormat \<Rightarrow> 'v \<Rightarrow> 'v \<Rightarrow> int \<Rightarrow> ('v TaskAttempt, TaskValidationError) result" where
  "TaskAttempt_new is_object i fmt payload metadata number =
     bind_result (validate_payload is_object payload) (\<lambda>_.
     bind_result (validate_metadata is_object metadata) (\<lambda>_.
       if number \<le> 0 then Err InvalidAttempt
       else Ok \<lparr> ta_id = i, ta_format = fmt, ta_payload = payload, ta_metadata = metadata,
                 ta_number = number \<rparr>))"

section \<open>What the constructors guarantee\<close>

definition new_task_ok :: "('v \<Rightarrow> bool) \<Rightarrow> 'v NewTask \<Rightarrow> bool" where
  "new_task_ok is_object t \<longleftrightarrow>
     format_ok (nt_format t) \<and> is_object (nt_payload t) \<and> is_object (nt_metadata t) \<and>
     0 < nt_max_attempts t \<and> TaskSchedule_validate (nt_schedule t) = Ok ()"

lemmas task_data_defs =
  TaskFormat_new_def TaskFormat_of_def validate_payload_def validate_metadata_def
  NewTask_from_payload_def NewTask_new_def NewTask_scheduled_def NewTask_with_metadata_def
  NewTask_with_max_attempts_def TaskAttempt_new_def

lemma TaskFormat_new_Ok [simp]:
  "TaskFormat_new ty v = Ok f \<longleftrightarrow> ty \<noteq> [] \<and> 0 < v \<and> f = \<lparr>task_type = ty, task_version = v\<rparr>"
  by (auto simp: TaskFormat_new_def)

lemma TaskFormat_new_ok: "TaskFormat_new ty v = Ok f \<Longrightarrow> format_ok f"
  by (simp add: format_ok_def)

lemma new_task_ok_new:
  assumes "is_object empty_object" and "NewTask_new is_object empty_object v4 payload = Ok t"
  shows "new_task_ok is_object t" "nt_id t = v4" "nt_max_attempts t = 10" "nt_schedule t = Now"
    "to_value payload = Some (nt_payload t)"
  using assms by (auto simp: task_data_defs new_task_ok_def format_ok_def split: if_splits)

lemma new_task_ok_setters:
  assumes "new_task_ok is_object t"
  shows "NewTask_scheduled s t = Ok t' \<Longrightarrow> new_task_ok is_object t'"
    and "NewTask_with_metadata is_object m t = Ok t' \<Longrightarrow> new_task_ok is_object t'"
    and "NewTask_with_max_attempts n t = Ok t' \<Longrightarrow> new_task_ok is_object t'"
  using assms by (auto simp: task_data_defs new_task_ok_def split: if_splits)

lemma TaskAttempt_new_Ok:
  "TaskAttempt_new is_object i f p m n = Ok a \<longleftrightarrow> is_object p \<and> is_object m \<and> 0 < n \<and>
     a = \<lparr>ta_id = i, ta_format = f, ta_payload = p, ta_metadata = m, ta_number = n\<rparr>"
  by (auto simp: TaskAttempt_new_def validate_payload_def validate_metadata_def)

end
