(* ===== verification/Task_Queue.thy ===== *)
theory Task_Queue
  imports Task_Data
begin

text \<open>
  The vocabulary of the task queue (\<open>task/queue/error.rs\<close>, \<open>lease.rs\<close>, \<open>settlement.rs\<close>), the
  redelivery backoff (\<open>task/queue/retry.rs\<close>), the storage budget (\<open>task/queue/storage_config.rs\<close>)
  and the integer settings they read (\<open>env.rs\<close>). The random factor of the backoff and the
  rounding of the multiplication are arguments; the theory bounds the delay.
\<close>

section \<open>Errors, leases and settlements\<close>

datatype QueueRequestError = InvalidLimit | InvalidLeaseDuration | InvalidRetryDelay

datatype TaskProcessingError =
    InvalidRequest QueueRequestError
  | InvalidDelivery
  | InvalidExecutionBudget
  | Unavailable
  | TimedOut
  | LeaseBudgetExhausted

definition LEASE_SAFETY_MARGIN :: duration where
  "LEASE_SAFETY_MARGIN = from_secs 5"

record TaskLease =
  tl_lock_token :: Uuid
  tl_deadline :: instant

record 'v LeasedTask =
  lt_attempt :: "'v TaskAttempt"
  lt_lease :: TaskLease

datatype SettlementRequest = Completed | Retry duration rstring | Failed rstring

datatype TaskFailureCause = PermanentRejection | AttemptLimitReached | LeaseExpired

fun TaskFailureCause_as_str :: "TaskFailureCause \<Rightarrow> string" where
  "TaskFailureCause_as_str PermanentRejection = ''permanent failure''"
| "TaskFailureCause_as_str AttemptLimitReached = ''retry limit reached''"
| "TaskFailureCause_as_str LeaseExpired = ''worker lease expired''"

record TaskFailure =
  tf_id :: Uuid
  tf_format :: TaskFormat
  tf_attempt :: int
  tf_cause :: TaskFailureCause

datatype SettlementResult = OwnershipLost | Completed | RetryScheduled | Failed TaskFailure

definition is_applied :: "SettlementResult \<Rightarrow> bool" where
  "is_applied self \<longleftrightarrow> self \<noteq> OwnershipLost"

fun SettlementResult_failure :: "SettlementResult \<Rightarrow> TaskFailure option" where
  "SettlementResult_failure (SettlementResult.Failed f) = Some f"
| "SettlementResult_failure _ = None"

record LeaseRecoveryReport =
  rr_retried_count :: nat
  rr_failures :: "TaskFailure list"

definition processed_count :: "LeaseRecoveryReport \<Rightarrow> nat" where
  "processed_count self = rr_retried_count self + length (rr_failures self)"

section \<open>Redelivery backoff\<close>

text \<open>
  \<open>attempt.saturating_sub(1).clamp(0, 6)\<close>: \<open>saturating_sub\<close> differs from subtraction only at
  \<open>i32::MIN\<close>, where both clamp to 0.
\<close>

definition redelivery_base :: "int \<Rightarrow> nat" where
  "redelivery_base att =
     (let exponent = nat (max 0 (min 6 (max (- (2 ^ 31)) (att - 1)))) in
      min (5 * 2 ^ exponent) 300)"

definition redelivery_backoff :: "(rat \<Rightarrow> f64) \<Rightarrow> f64 \<Rightarrow> int \<Rightarrow> duration" where
  "redelivery_backoff rnd jitter att =
     from_secs_f64 (min (rnd (of_nat (redelivery_base att) * jitter)) 300)"

section \<open>Settings\<close>

definition read_u64 :: "(string \<Rightarrow> rstring option) \<Rightarrow> string \<Rightarrow> nat \<Rightarrow> (nat, unit) result" where
  "read_u64 lookup name default_value =
     (case lookup name of
        None \<Rightarrow> Ok default_value
      | Some v \<Rightarrow> ok_or (parse_u64 v) ())"

record TaskStorageConfig =
  sc_storage_timeout :: duration

datatype TaskStorageConfigError = InvalidEnvironmentValue | InvalidStorageTimeout

definition DEFAULT_STORAGE_TIMEOUT_MS :: nat where
  "DEFAULT_STORAGE_TIMEOUT_MS = 6000"

definition TaskStorageConfig_new :: "duration \<Rightarrow> (TaskStorageConfig, TaskStorageConfigError) result" where
  "TaskStorageConfig_new timeout =
     (if timeout = 0 \<or> int (as_millis timeout) > i64_max then Err InvalidStorageTimeout
      else Ok \<lparr> sc_storage_timeout = timeout \<rparr>)"

definition TaskStorageConfig_default :: "TaskStorageConfig run" where
  "TaskStorageConfig_default =
     (case TaskStorageConfig_new (from_millis DEFAULT_STORAGE_TIMEOUT_MS) of
        Ok c \<Rightarrow> Return c | Err _ \<Rightarrow> Panic)"

definition TaskStorageConfig_from_lookup ::
  "(string \<Rightarrow> rstring option) \<Rightarrow> (TaskStorageConfig, TaskStorageConfigError) result" where
  "TaskStorageConfig_from_lookup lookup =
     bind_result
       (map_err (\<lambda>_. InvalidEnvironmentValue)
         (read_u64 lookup ''OUTBOX_STORAGE_TIMEOUT_MS'' DEFAULT_STORAGE_TIMEOUT_MS))
       (\<lambda>millis. TaskStorageConfig_new (from_millis millis))"

section \<open>Facts\<close>

lemma redelivery_base_bounds: "5 \<le> redelivery_base att" "redelivery_base att \<le> 300"
proof -
  have "(1::nat) \<le> 2 ^ k" for k by simp
  from this [of "nat (max 0 (min 6 (max (- (2 ^ 31)) (att - 1))))"]
  show "5 \<le> redelivery_base att" by (simp add: redelivery_base_def Let_def)
  show "redelivery_base att \<le> 300" by (simp add: redelivery_base_def Let_def)
qed

lemma redelivery_base_large: "7 \<le> att \<Longrightarrow> redelivery_base att = 300"
  by (simp add: redelivery_base_def Let_def min_def max_def)

text \<open>The base is one of a few numbers, each of whose four fifths is a whole number.\<close>

lemma redelivery_base_fifth: "\<exists>k. redelivery_base att = 5 * k \<and> k \<le> 60"
proof -
  have "\<exists>m::nat. min (5 * m) 300 = 5 * min m 60" for m by (auto simp: min_def)
  then have "redelivery_base att =
      5 * min (2 ^ nat (max 0 (min 6 (max (- (2 ^ 31)) (att - 1))))) 60"
    by (simp add: redelivery_base_def Let_def min_def)
  then show ?thesis by (meson min.cobounded2)
qed

lemma redelivery_backoff_bounds:
  assumes rnd: "rnd_laws rnd" and j: "4 / 5 \<le> jitter" "jitter \<le> 6 / 5"
  shows "from_secs (redelivery_base att * 4 div 5) \<le> redelivery_backoff rnd jitter att"
    and "redelivery_backoff rnd jitter att \<le> from_secs 300"
proof -
  let ?b = "redelivery_base att"
  obtain k where k: "?b = 5 * k" "k \<le> 60" using redelivery_base_fifth by blast
  have "(of_nat (4 * k) :: rat) = of_nat ?b * (4 / 5)" using k by simp
  also have "\<dots> \<le> of_nat ?b * jitter" using j(1) by (intro mult_left_mono) auto
  finally have "rnd (of_nat (4 * k)) \<le> rnd (of_nat ?b * jitter)"
    using rnd unfolding rnd_laws_def by blast
  moreover have "rnd (of_nat (4 * k)) = of_nat (4 * k)"
  proof -
    from k(2) have "4 * k < 2 ^ 53" by simp
    with rnd show ?thesis unfolding rnd_laws_def by blast
  qed
  ultimately have low: "of_nat (4 * k) \<le> min (rnd (of_nat ?b * jitter)) 300" using k by simp
  have high: "min (rnd (of_nat ?b * jitter)) 300 \<le> of_nat 300" by simp
  from k have "?b * 4 div 5 = 4 * k" by simp
  with from_secs_f64_bounds [OF low high] show "from_secs (?b * 4 div 5) \<le> redelivery_backoff rnd jitter att"
    "redelivery_backoff rnd jitter att \<le> from_secs 300"
    by (simp_all add: redelivery_backoff_def)
qed

lemma TaskStorageConfig_default_ok:
  "TaskStorageConfig_default = Return \<lparr>sc_storage_timeout = from_millis 6000\<rparr>"
  by (simp add: TaskStorageConfig_default_def TaskStorageConfig_new_def DEFAULT_STORAGE_TIMEOUT_MS_def
      rust_defs)

section \<open>Properties\<close>

text \<open>
  Whatever the attempt number, sign and size included, the redelivery delay is between 4 and
  300 seconds, and from the seventh attempt on it is at least 240 seconds.
\<close>

theorem redelivery_backoff_is_bounded:
  assumes "rnd_laws rnd" "4 / 5 \<le> jitter" "jitter \<le> 6 / 5"
  shows "from_secs 4 \<le> redelivery_backoff rnd jitter att \<and>
    redelivery_backoff rnd jitter att \<le> from_secs 300 \<and>
    (7 \<le> att \<longrightarrow> from_secs 240 \<le> redelivery_backoff rnd jitter att)"
proof -
  have "4 \<le> redelivery_base att * 4 div 5" using redelivery_base_bounds(1) [of att] by simp
  then have "from_secs 4 \<le> from_secs (redelivery_base att * 4 div 5)" by (simp add: from_secs_def)
  with redelivery_backoff_bounds [OF assms, of att] redelivery_base_large [of att]
  show ?thesis by auto
qed

theorem redelivery_backoff_is_bounded_witness:
  "redelivery_backoff id 1 9 = 300000000000 \<and> from_secs 240 \<le> redelivery_backoff id 1 9"
  using redelivery_backoff_is_bounded [of id 1 9]
  by (simp add: rnd_laws_def redelivery_backoff_def redelivery_base_def from_secs_f64_def
      round_half_even_def Let_def)

text \<open>
  An integer setting is read back as it was printed, a missing one takes its default, and a
  storage budget is accepted exactly when it is positive and its milliseconds fit an \<open>i64\<close>.
\<close>

theorem storage_timeout_setting:
  assumes "n \<le> u64_max"
  shows "TaskStorageConfig_from_lookup (\<lambda>name. if name = ''OUTBOX_STORAGE_TIMEOUT_MS''
      then Some (digits n) else None) =
    (if n = 0 \<or> i64_max < int n then Err InvalidStorageTimeout
     else Ok \<lparr>sc_storage_timeout = n * 1000000\<rparr>)"
  using assms
  by (auto simp: TaskStorageConfig_from_lookup_def read_u64_def TaskStorageConfig_new_def
      from_millis_def as_millis_def nanos_per_milli_def)

theorem storage_timeout_setting_witness:
  "TaskStorageConfig_from_lookup (\<lambda>name. if name = ''OUTBOX_STORAGE_TIMEOUT_MS''
      then Some (digits 250) else None) = Ok \<lparr>sc_storage_timeout = 250000000\<rparr>"
  using storage_timeout_setting [of 250] by (simp add: u64_max_def i64_max_def)

end
