(* ===== verification/Task_Handling.thy ===== *)
theory Task_Handling
  imports Task_Queue
begin

text \<open>
  Routing a delivered task to its operation: \<open>task/handling/handler.rs\<close>, \<open>adapter.rs\<close>,
  \<open>dispatcher.rs\<close>, \<open>json_adapter.rs\<close>, with \<open>safe_type\<close> of \<open>diagnostics.rs\<close>. An adapter is its
  formats and its invocation, a function on a world \<open>'w\<close> that holds the mutable handlers and
  everything they change; \<open>P::deserialize\<close> is the argument \<open>deserialize\<close>. Indexing the adapters
  out of range is a panic. The theory shows that a dispatcher routes each format to the one
  adapter that advertises it, that a dispatch never panics, and that a JSON adapter calls its
  handler for exactly the documents of its format that decode.
\<close>

section \<open>Handlers and adapters\<close>

datatype TaskHandlerError = Retry rstring "duration option" | Permanent rstring

record ('v, 'w) TaskAdapter =
  ad_formats :: "TaskFormat list"
  ad_invoke :: "'v TaskAttempt \<Rightarrow> 'w \<Rightarrow> 'w \<times> (unit, TaskHandlerError) result"

definition safe_type :: "rstring \<Rightarrow> rstring" where
  "safe_type v =
     (if v \<noteq> [] \<and> list_all (\<lambda>c. is_ascii_alphanumeric c \<or> c = 95) v then v else lit ''unknown'')"

section \<open>The dispatcher\<close>

datatype TaskDispatcherError = Empty | DuplicateFormat TaskFormat | InvalidFormat TaskFormatError

text \<open>The \<open>Display\<close> text of a dispatcher error; that of a format error is its own.\<close>

fun TaskDispatcherError_to_string :: "(TaskFormatError \<Rightarrow> rstring) \<Rightarrow> TaskDispatcherError \<Rightarrow> rstring" where
  "TaskDispatcherError_to_string fmt_error Empty = lit ''task dispatcher must contain at least one adapter''"
| "TaskDispatcherError_to_string fmt_error (DuplicateFormat f) =
     lit ''duplicate task format: '' @ safe_type (task_type f) @ lit '' v'' @ int_to_string (task_version f)"
| "TaskDispatcherError_to_string fmt_error (InvalidFormat e) = fmt_error e"

text \<open>What \<open>Debug\<close> writes: the builders of \<open>fmt::Formatter\<close> with their fields.\<close>

datatype debug_out =
    DebugStruct string "(string \<times> debug_out) list"
  | DebugTuple string "debug_out list"
  | DebugText string
  | DebugString rstring
  | DebugInt int
  | DebugBool bool
  | DebugId nat

fun TaskFormatError_debug :: "TaskFormatError \<Rightarrow> debug_out" where
  "TaskFormatError_debug EmptyType = DebugText ''EmptyType''"
| "TaskFormatError_debug InvalidVersion = DebugText ''InvalidVersion''"

fun TaskDispatcherError_debug :: "TaskDispatcherError \<Rightarrow> debug_out" where
  "TaskDispatcherError_debug Empty = DebugText ''Empty''"
| "TaskDispatcherError_debug (DuplicateFormat f) = DebugStruct ''DuplicateFormat''
     [(''task_type'', DebugString (safe_type (task_type f))), (''task_version'', DebugInt (task_version f))]"
| "TaskDispatcherError_debug (InvalidFormat e) = DebugTuple ''InvalidFormat'' [TaskFormatError_debug e]"

record ('v, 'w) TaskDispatcher =
  di_adapters :: "('v, 'w) TaskAdapter list"
  di_formats :: "TaskFormat list"
  di_routes :: "TaskFormat \<Rightarrow> nat option"

text \<open>The fold of \<open>try_new\<close> over the pairs of adapter index and format.\<close>

fun add_routes ::
  "(TaskFormat \<Rightarrow> nat option) \<times> TaskFormat list \<Rightarrow> (nat \<times> TaskFormat) list
     \<Rightarrow> ((TaskFormat \<Rightarrow> nat option) \<times> TaskFormat list, TaskDispatcherError) result" where
  "add_routes acc [] = Ok acc"
| "add_routes (routes, formats) ((index, fmt) # rest) =
     (if routes fmt \<noteq> None then Err (DuplicateFormat fmt)
      else add_routes (routes(fmt \<mapsto> index), formats @ [fmt]) rest)"

definition indexed_formats :: "('v, 'w) TaskAdapter list \<Rightarrow> (nat \<times> TaskFormat) list" where
  "indexed_formats adapters =
     concat (map (\<lambda>(index, adapter). map (\<lambda>fmt. (index, fmt)) (ad_formats adapter)) (enumerate 0 adapters))"

definition TaskDispatcher_try_new ::
  "('v, 'w) TaskAdapter list \<Rightarrow> (('v, 'w) TaskDispatcher, TaskDispatcherError) result" where
  "TaskDispatcher_try_new adapters =
     (if adapters = [] then Err Empty
      else bind_result (add_routes (\<lambda>_. None, []) (indexed_formats adapters)) (\<lambda>(routes, formats).
        if formats = [] then Err Empty
        else Ok \<lparr> di_adapters = adapters, di_formats = formats, di_routes = routes \<rparr>))"

definition TaskDispatcher_dispatch ::
  "('v, 'w) TaskDispatcher \<Rightarrow> 'v TaskAttempt \<Rightarrow> 'w \<Rightarrow> ('w \<times> (unit, TaskHandlerError) result) run" where
  "TaskDispatcher_dispatch self delivery w =
     (case di_routes self (ta_format delivery) of
        Some index \<Rightarrow>
          if index < length (di_adapters self)
          then Return (ad_invoke (di_adapters self ! index) delivery w) else Panic
      | None \<Rightarrow> Return (w, Err (Permanent (lit ''unsupported task format''))))"

section \<open>JSON adapters\<close>

definition safe_format :: "TaskFormat \<Rightarrow> rstring" where
  "safe_format fmt = safe_type (task_type fmt) @ lit '' v'' @ int_to_string (task_version fmt)"

definition JsonTaskAdapter_invoke ::
  "TaskFormat \<Rightarrow> ('v \<Rightarrow> 'p option) \<Rightarrow> ('p \<Rightarrow> 'v TaskAttempt \<Rightarrow> 'w \<Rightarrow> 'w \<times> (unit, TaskHandlerError) result)
     \<Rightarrow> 'v TaskAttempt \<Rightarrow> 'w \<Rightarrow> 'w \<times> (unit, TaskHandlerError) result" where
  "JsonTaskAdapter_invoke fmt deserialize handler delivery w =
     (if ta_format delivery \<noteq> fmt
      then (w, Err (Permanent (lit ''unsupported task format for '' @ safe_format fmt)))
      else (case deserialize (ta_payload delivery) of
          None \<Rightarrow> (w, Err (Permanent (lit ''invalid '' @ safe_format fmt @ lit '' task payload'')))
        | Some payload \<Rightarrow> handler payload delivery w))"

definition task_adapter ::
  "rstring \<Rightarrow> int \<Rightarrow> ('v \<Rightarrow> 'p option) \<Rightarrow> ('p \<Rightarrow> 'v TaskAttempt \<Rightarrow> 'w \<Rightarrow> 'w \<times> (unit, TaskHandlerError) result)
     \<Rightarrow> (('v, 'w) TaskAdapter, TaskFormatError) result" where
  "task_adapter ty version deserialize handler =
     bind_result (TaskFormat_new ty version) (\<lambda>fmt.
       Ok \<lparr> ad_formats = [fmt], ad_invoke = JsonTaskAdapter_invoke fmt deserialize handler \<rparr>)"

section \<open>Facts\<close>

lemma add_routes_Ok:
  assumes "add_routes (routes, formats) ps = Ok (routes', formats')"
    and "set formats = dom routes" "distinct formats"
  shows "formats' = formats @ map snd ps \<and> distinct formats' \<and> set formats' = dom routes' \<and>
    (\<forall>f i. routes' f = Some i \<longrightarrow> routes f = Some i \<or> (i, f) \<in> set ps)"
  using assms
proof (induction ps arbitrary: routes formats)
  case (Cons p ps)
  obtain i f where p: "p = (i, f)" by fastforce
  with Cons.prems have free: "routes f = None"
    and rest: "add_routes (routes(f \<mapsto> i), formats @ [f]) ps = Ok (routes', formats')"
    by (auto split: if_splits)
  have "set (formats @ [f]) = dom (routes(f \<mapsto> i))" "distinct (formats @ [f])"
    using Cons.prems(2,3) free by (auto simp: domIff)
  from Cons.IH [OF rest this] p show ?case by (auto split: if_splits)
qed auto

lemma add_routes_Err:
  "(\<exists>e. add_routes (routes, formats) ps = Err e) \<longleftrightarrow>
     \<not> distinct (map snd ps) \<or> (\<exists>f\<in>set (map snd ps). routes f \<noteq> None)"
proof (induction ps arbitrary: routes formats)
  case (Cons p ps)
  obtain i f where p: "p = (i, f)" by fastforce
  show ?case
  proof (cases "routes f")
    case None
    with p have "(\<exists>e. add_routes (routes, formats) (p # ps) = Err e) \<longleftrightarrow>
        (\<exists>e. add_routes (routes(f \<mapsto> i), formats @ [f]) ps = Err e)" by simp
    also have "\<dots> \<longleftrightarrow> \<not> distinct (map snd ps) \<or> (\<exists>g\<in>set (map snd ps). (routes(f \<mapsto> i)) g \<noteq> None)"
      by (rule Cons.IH)
    also have "\<dots> \<longleftrightarrow> \<not> distinct (map snd (p # ps)) \<or> (\<exists>g\<in>set (map snd (p # ps)). routes g \<noteq> None)"
      using None p by (auto simp: image_iff split: if_splits)
    finally show ?thesis .
  qed (use p in auto)
qed simp

lemma indexed_formats_mem:
  "(i, f) \<in> set (indexed_formats adapters) \<longleftrightarrow> i < length adapters \<and> f \<in> set (ad_formats (adapters ! i))"
  by (force simp: indexed_formats_def in_set_enumerate_eq)

lemma map_snd_indexed_formats: "map snd (indexed_formats adapters) = concat (map ad_formats adapters)"
proof -
  have "map snd (concat (map (\<lambda>(index, adapter). map (\<lambda>fmt. (index, fmt)) (ad_formats adapter)) (enumerate n adapters)))
      = concat (map ad_formats adapters)" for n
    by (induction adapters arbitrary: n) (auto simp: comp_def)
  then show ?thesis by (simp add: indexed_formats_def)
qed

text \<open>A dispatcher that was built routes every format it lists, to the adapter that has it.\<close>

lemma try_new_Ok:
  assumes "TaskDispatcher_try_new adapters = Ok d"
  shows "di_adapters d = adapters" "di_formats d = concat (map ad_formats adapters)" "distinct (di_formats d)"
    "set (di_formats d) = dom (di_routes d)"
    "di_routes d f = Some i \<Longrightarrow> i < length adapters \<and> f \<in> set (ad_formats (adapters ! i))"
proof -
  from assms obtain routes formats where
    add: "add_routes (\<lambda>_. None, []) (indexed_formats adapters) = Ok (routes, formats)"
    and d: "d = \<lparr> di_adapters = adapters, di_formats = formats, di_routes = routes \<rparr>"
    by (auto simp: TaskDispatcher_try_new_def split: if_splits)
  from add_routes_Ok [OF add] have r: "formats = concat (map ad_formats adapters)" "distinct formats"
    "set formats = dom routes" "\<forall>f i. routes f = Some i \<longrightarrow> (i, f) \<in> set (indexed_formats adapters)"
    by (auto simp: map_snd_indexed_formats)
  then show "di_adapters d = adapters" "di_formats d = concat (map ad_formats adapters)" "distinct (di_formats d)"
    "set (di_formats d) = dom (di_routes d)"
    "di_routes d f = Some i \<Longrightarrow> i < length adapters \<and> f \<in> set (ad_formats (adapters ! i))"
    unfolding d using indexed_formats_mem [of i f adapters] by simp_all
qed

lemma adapter_unique:
  assumes "distinct (concat (map ad_formats adapters))" "i < length adapters" "j < length adapters"
    and "f \<in> set (ad_formats (adapters ! i))" "f \<in> set (ad_formats (adapters ! j))"
  shows "i = j"
  using assms
proof (induction adapters arbitrary: i j)
  case (Cons a as)
  have disj: "f \<notin> set (ad_formats a) \<or> f \<notin> set (ad_formats (as ! k))" if "k < length as" for k
    using Cons.prems(1) that nth_mem by fastforce
  show ?case
    using Cons.prems Cons.IH [of "i - 1" "j - 1"] disj [of "i - 1"] disj [of "j - 1"]
    by (cases i; cases j) auto
qed simp

section \<open>Properties\<close>

definition demo_adapter :: "rstring \<Rightarrow> (unit, nat) TaskAdapter" where
  "demo_adapter ty = \<lparr> ad_formats = [\<lparr>task_type = ty, task_version = 1\<rparr>], ad_invoke = (\<lambda>_ w. (Suc w, Ok ())) \<rparr>"

definition demo_attempt :: "rstring \<Rightarrow> unit TaskAttempt" where
  "demo_attempt ty = \<lparr> ta_id = 1, ta_format = \<lparr>task_type = ty, task_version = 1\<rparr>, ta_payload = (),
     ta_metadata = (), ta_number = 1 \<rparr>"

text \<open>
  A dispatcher can be built exactly when the adapters advertise at least one format and no
  format twice; it then lists their formats in order, and dispatches every delivery, without
  panic, to the one adapter that advertises its format, or rejects it permanently and changes
  nothing when none does.
\<close>

theorem dispatcher_routes_exactly:
  "(case TaskDispatcher_try_new adapters of
      Err e \<Rightarrow> concat (map ad_formats adapters) = [] \<or> \<not> distinct (concat (map ad_formats adapters))
    | Ok d \<Rightarrow> di_formats d = concat (map ad_formats adapters) \<and> di_formats d \<noteq> [] \<and> distinct (di_formats d) \<and>
        (if \<exists>i<length adapters. ta_format delivery \<in> set (ad_formats (adapters ! i))
         then \<exists>!i. i < length adapters \<and> ta_format delivery \<in> set (ad_formats (adapters ! i)) \<and>
           TaskDispatcher_dispatch d delivery w = Return (ad_invoke (adapters ! i) delivery w)
         else TaskDispatcher_dispatch d delivery w =
           Return (w, Err (Permanent (lit ''unsupported task format'')))))"
proof (cases "TaskDispatcher_try_new adapters")
  case (Ok d)
  note d = try_new_Ok [OF Ok]
  have ne: "di_formats d \<noteq> []" using Ok by (auto simp: TaskDispatcher_try_new_def split: if_splits)
  show ?thesis
  proof (cases "\<exists>i<length adapters. ta_format delivery \<in> set (ad_formats (adapters ! i))")
    case True
    then obtain j where j: "j < length adapters" "ta_format delivery \<in> set (ad_formats (adapters ! j))" by blast
    then have "ta_format delivery \<in> set (di_formats d)" unfolding d(2) using nth_mem [OF j(1)] by auto
    then obtain i where i: "di_routes d (ta_format delivery) = Some i" unfolding d(4) by auto
    from d(5) [OF i] i d(1) have "TaskDispatcher_dispatch d delivery w = Return (ad_invoke (adapters ! i) delivery w)"
      by (simp add: TaskDispatcher_dispatch_def)
    then have "\<exists>!i. i < length adapters \<and> ta_format delivery \<in> set (ad_formats (adapters ! i)) \<and>
        TaskDispatcher_dispatch d delivery w = Return (ad_invoke (adapters ! i) delivery w)"
      using d(5) [OF i] adapter_unique [OF d(3) [unfolded d(2)]] by blast
    with True ne d(2,3) show ?thesis unfolding Ok result.case if_P [OF True] by blast
  next
    case False
    with d(5) have "di_routes d (ta_format delivery) = None" by (metis not_None_eq)
    then have "TaskDispatcher_dispatch d delivery w = Return (w, Err (Permanent (lit ''unsupported task format'')))"
      by (simp add: TaskDispatcher_dispatch_def)
    with ne d(2,3) show ?thesis unfolding Ok result.case if_not_P [OF False] by blast
  qed
next
  case (Err e)
  then have "concat (map ad_formats adapters) = [] \<or> \<not> distinct (concat (map ad_formats adapters))"
    using add_routes_Err [of "\<lambda>_. None" "[]" "indexed_formats adapters"] add_routes_Ok [of "\<lambda>_. None" "[]" "indexed_formats adapters"]
    unfolding map_snd_indexed_formats
    by (auto simp: TaskDispatcher_try_new_def bind_result_eq_Err split: if_splits)
  with Err show ?thesis by simp
qed

theorem dispatcher_routes_exactly_witness:
  "case TaskDispatcher_try_new [demo_adapter (lit ''t'')] of
     Err e \<Rightarrow> False
   | Ok d \<Rightarrow> \<exists>i. TaskDispatcher_dispatch d (demo_attempt (lit ''t'')) 4 =
       Return (ad_invoke ([demo_adapter (lit ''t'')] ! i) (demo_attempt (lit ''t'')) 4)"
  using dispatcher_routes_exactly [of "[demo_adapter (lit ''t'')]" "demo_attempt (lit ''t'')" 4]
  by (auto simp: demo_adapter_def demo_attempt_def split: result.splits)

text \<open>
  A JSON adapter calls its handler for exactly the deliveries of its format whose payload
  decodes, and passes the handler's result on unchanged; any other delivery is rejected
  permanently without touching the world, with a reason made of fixed text, the adapter's own
  version and a type name restricted to ASCII letters, digits and underscores.
\<close>

theorem json_adapter_invokes_exactly:
  assumes "task_adapter ty version deserialize handler = Ok adapter"
  shows "ad_formats adapter = [\<lparr>task_type = ty, task_version = version\<rparr>] \<and>
    (case (if ta_format delivery \<in> set (ad_formats adapter) then deserialize (ta_payload delivery) else None) of
       Some payload \<Rightarrow> ad_invoke adapter delivery w = handler payload delivery w
     | None \<Rightarrow> \<exists>pre post name. ad_invoke adapter delivery w = (w, Err (Permanent
         (lit pre @ name @ lit '' v'' @ int_to_string version @ lit post))) \<and>
         list_all (\<lambda>c. is_ascii_alphanumeric c \<or> c = 95) name)"
proof -
  let ?f = "\<lparr>task_type = ty, task_version = version\<rparr>"
  from assms have a: "adapter = \<lparr> ad_formats = [?f], ad_invoke = JsonTaskAdapter_invoke ?f deserialize handler \<rparr>"
    by (auto simp: task_adapter_def)
  have safe: "list_all (\<lambda>c. is_ascii_alphanumeric c \<or> c = 95) (safe_type ty)"
    by (simp add: safe_type_def lit_def is_ascii_alphanumeric_def)
  show ?thesis
  proof (cases "ta_format delivery = ?f")
    case True
    show ?thesis
    proof (cases "deserialize (ta_payload delivery)")
      case None
      with True a have "ad_invoke adapter delivery w = (w, Err (Permanent (lit ''invalid '' @ safe_type ty @ lit '' v'' @
          int_to_string version @ lit '' task payload'')))"
        by (simp add: JsonTaskAdapter_invoke_def safe_format_def)
      with True None a safe show ?thesis by auto
    qed (use True a in \<open>simp add: JsonTaskAdapter_invoke_def\<close>)
  next
    case False
    with a have "ad_invoke adapter delivery w = (w, Err (Permanent (lit ''unsupported task format for '' @ safe_type ty @
        lit '' v'' @ int_to_string version @ lit '''')))"
      by (simp add: JsonTaskAdapter_invoke_def safe_format_def lit_def)
    with False a safe show ?thesis by auto
  qed
qed

theorem json_adapter_invokes_exactly_witness:
  "ad_invoke \<lparr> ad_formats = [\<lparr>task_type = lit ''t'', task_version = 1\<rparr>],
      ad_invoke = JsonTaskAdapter_invoke \<lparr>task_type = lit ''t'', task_version = 1\<rparr> Some (\<lambda>_ _ w. (w + 1, Ok ())) \<rparr>
     (demo_attempt (lit ''t'')) (5::nat) = (6, Ok ())"
proof -
  have "task_adapter (lit ''t'') 1 Some (\<lambda>_ _ (w::nat). (w + 1, Ok ())) = Ok \<lparr> ad_formats = [\<lparr>task_type = lit ''t'', task_version = 1\<rparr>],
      ad_invoke = JsonTaskAdapter_invoke \<lparr>task_type = lit ''t'', task_version = 1\<rparr> Some (\<lambda>_ _ w. (w + 1, Ok ())) \<rparr>"
    by (simp add: task_adapter_def TaskFormat_new_def lit_def)
  from json_adapter_invokes_exactly [OF this, of "demo_attempt (lit ''t'')" 5] show ?thesis
    by (simp add: demo_attempt_def)
qed

end
