(* ===== verification/Task_Execution.thy ===== *)
theory Task_Execution
  imports Task_Handling
begin

text \<open>
  One delivery: \<open>task/executor/lease_budget.rs\<close> and \<open>task/executor/default_executor.rs\<close>.

  Time is explicit. \<open>exec_env\<close> holds the instants the code reads and those at which its two
  \<open>select!\<close> are first polled; a call raced against a timer is given with the instant it would
  finish, the world and result it would leave, and the world it leaves when it is dropped before
  that. A timer set to \<open>d\<close> fires at \<open>ex_timer d\<close>. \<open>biased\<close> polls the timer first: when it has
  fired at the first poll the call never starts, otherwise the call wins exactly when it finishes
  before the timer fires. An execution also returns what it did (\<open>exec_event\<close>): whether the
  handler was started, and which settlement was started.

  The theory shows that a handler runs only with the whole budget for itself, its settlement and
  the safety margin, that no settlement is started within the margin, and what each outcome of a
  handler is settled as.
\<close>

section \<open>The lease budget\<close>

datatype ExecutionPlan = Run instant instant | RetryOnly instant | RecoverOnly

definition execution_plan ::
  "instant \<Rightarrow> instant \<Rightarrow> duration \<Rightarrow> duration \<Rightarrow> (ExecutionPlan, TaskProcessingError) result" where
  "execution_plan now lease_deadline handler_timeout storage_timeout =
     (if handler_timeout = 0 then Err InvalidExecutionBudget
      else bind_result (ok_or (duration_checked_add handler_timeout storage_timeout) InvalidExecutionBudget) (\<lambda>required.
        case instant_checked_sub lease_deadline LEASE_SAFETY_MARGIN of
          None \<Rightarrow> Ok RecoverOnly
        | Some settlement_deadline \<Rightarrow>
            if settlement_deadline \<le> now then Ok RecoverOnly
            else if nat (settlement_deadline - now) < required then Ok (RetryOnly settlement_deadline)
            else bind_result (ok_or (instant_checked_add now handler_timeout) InvalidExecutionBudget) (\<lambda>handler_deadline.
              Ok (Run handler_deadline settlement_deadline))))"

section \<open>Calls raced against a timer\<close>

record ('w, 'a) call =
  ca_finishes :: instant
  ca_world :: 'w
  ca_result :: 'a
  ca_dropped :: 'w

record 'w exec_env =
  ex_timer :: "instant \<Rightarrow> instant"
  ex_rnd :: "rat \<Rightarrow> f64"
  ex_jitter :: f64
  ex_plan_now :: instant
  ex_handler_polled :: instant
  ex_handler_finishes :: instant
  ex_handler_dropped :: 'w
  ex_settle_now :: instant
  ex_settle_polled :: instant

definition select_before ::
  "(instant \<Rightarrow> instant) \<Rightarrow> instant \<Rightarrow> instant \<Rightarrow> 'e \<Rightarrow> ('w, 'a) call \<Rightarrow> 'a \<Rightarrow> 'w \<Rightarrow> 'w \<times> 'a \<times> 'e list" where
  "select_before timer deadline polled started call timed_out w =
     (if timer deadline \<le> polled then (w, timed_out, [])
      else if ca_finishes call < timer deadline then (ca_world call, ca_result call, [started])
      else (ca_dropped call, timed_out, [started]))"

datatype exec_event = Invoked instant | SettleStarted SettlementRequest instant instant

section \<open>The executor\<close>

fun settlement_request :: "(unit, TaskHandlerError) result \<Rightarrow> duration \<Rightarrow> SettlementRequest" where
  "settlement_request (Ok _) fallback_delay = SettlementRequest.Completed"
| "settlement_request (Err (TaskHandlerError.Permanent reason)) fallback_delay = SettlementRequest.Failed reason"
| "settlement_request (Err (TaskHandlerError.Retry reason retry_after)) fallback_delay =
     SettlementRequest.Retry (case retry_after of Some d \<Rightarrow> d | None \<Rightarrow> fallback_delay) reason"

text \<open>\<open>settle_call outcome w\<close> is the queue's \<open>settle\<close> of the task, started in world \<open>w\<close>.\<close>

definition settle_before ::
  "'w exec_env \<Rightarrow> duration
     \<Rightarrow> (SettlementRequest \<Rightarrow> 'w \<Rightarrow> ('w, (SettlementResult, TaskProcessingError) result) call)
     \<Rightarrow> SettlementRequest \<Rightarrow> instant \<Rightarrow> 'w
     \<Rightarrow> ('w \<times> (SettlementResult, TaskProcessingError) result \<times> exec_event list) run" where
  "settle_before env storage_timeout settle_call outcome settlement_deadline w =
     (let now = ex_settle_now env in
      if now \<ge> settlement_deadline then Return (w, Err LeaseBudgetExhausted, [])
      else bind_run (instant_add now storage_timeout) (\<lambda>sum.
        let deadline = min sum settlement_deadline in
        Return (select_before (ex_timer env) deadline (ex_settle_polled env)
          (SettleStarted outcome (ex_settle_polled env) deadline) (settle_call outcome w) (Err TimedOut) w)))"

definition execute_and_settle ::
  "'w exec_env \<Rightarrow> duration
     \<Rightarrow> (SettlementRequest \<Rightarrow> 'w \<Rightarrow> ('w, (SettlementResult, TaskProcessingError) result) call)
     \<Rightarrow> ('v, 'w) TaskDispatcher \<Rightarrow> 'v LeasedTask \<Rightarrow> duration \<Rightarrow> 'w
     \<Rightarrow> ('w \<times> (SettlementResult, TaskProcessingError) result \<times> exec_event list) run" where
  "execute_and_settle env storage_timeout settle_call dispatcher task handler_timeout w =
     (let backoff = redelivery_backoff (ex_rnd env) (ex_jitter env) (ta_number (lt_attempt task)) in
      case execution_plan (ex_plan_now env) (tl_deadline (lt_lease task)) handler_timeout storage_timeout of
        Err e \<Rightarrow> Return (w, Err e, [])
      | Ok RecoverOnly \<Rightarrow> Return (w, Err LeaseBudgetExhausted, [])
      | Ok (RetryOnly settlement_deadline) \<Rightarrow>
          settle_before env storage_timeout settle_call
            (SettlementRequest.Retry backoff (lit ''insufficient lease budget before handler execution''))
            settlement_deadline w
      | Ok (Run handler_deadline settlement_deadline) \<Rightarrow>
          bind_run (TaskDispatcher_dispatch dispatcher (lt_attempt task) w) (\<lambda>(w1, r).
            let (w', result, invoked) = select_before (ex_timer env) handler_deadline (ex_handler_polled env)
                  (Invoked (ex_handler_polled env))
                  \<lparr> ca_finishes = ex_handler_finishes env, ca_world = w1, ca_result = r,
                    ca_dropped = ex_handler_dropped env \<rparr>
                  (Err (TaskHandlerError.Retry (lit ''handler timed out'') None)) w;
                fallback_delay = (case result of
                    Err (TaskHandlerError.Retry _ None) \<Rightarrow> backoff
                  | _ \<Rightarrow> 0);
                outcome = settlement_request result fallback_delay in
            bind_run (settle_before env storage_timeout settle_call outcome settlement_deadline w')
              (\<lambda>(w'', res, evs). Return (w'', res, invoked @ evs))))"

section \<open>Facts\<close>

lemma execution_plan_Run:
  assumes "execution_plan now lease_deadline handler_timeout storage_timeout = Ok (Run hdl sd)"
  shows "0 < handler_timeout" "hdl = now + int handler_timeout" "sd + 5000000000 = lease_deadline"
    "hdl + int storage_timeout \<le> sd"
  using assms
  by (auto simp: execution_plan_def instant_checked_sub_def instant_checked_add_def duration_checked_add_def
      LEASE_SAFETY_MARGIN_def from_secs_def nanos_per_sec_def split: if_splits)

lemma execution_plan_RetryOnly:
  assumes "execution_plan now lease_deadline handler_timeout storage_timeout = Ok (RetryOnly sd)"
  shows "sd + 5000000000 = lease_deadline" "now < sd" "sd < now + int handler_timeout + int storage_timeout"
  using assms
  by (auto simp: execution_plan_def instant_checked_sub_def instant_checked_add_def duration_checked_add_def
      LEASE_SAFETY_MARGIN_def from_secs_def nanos_per_sec_def split: if_splits)

lemma select_before_log:
  "select_before timer deadline polled e call z w = (w', r, evs) \<Longrightarrow>
     evs = [] \<or> evs = [e] \<and> polled < timer deadline"
  by (auto simp: select_before_def split: if_splits)

lemma settle_before_log:
  assumes "settle_before env st call outcome sd w = Return (w', r, evs)"
  shows "evs = [] \<or> (\<exists>limit. evs = [SettleStarted outcome (ex_settle_polled env) limit] \<and>
    ex_settle_now env < sd \<and> limit \<le> sd \<and> limit \<le> ex_settle_now env + int st \<and>
    ex_settle_polled env < ex_timer env limit)"
  using assms
  by (auto simp: settle_before_def Let_def instant_add_def instant_checked_add_def
      split: if_splits option.splits dest!: select_before_log)

lemma execute_and_settle_Run:
  assumes exec: "execute_and_settle env S settle_call dispatcher task H w = Return (w', r, evs)"
    and plan: "execution_plan (ex_plan_now env) (tl_deadline (lt_lease task)) H S = Ok (Run hdl sd)"
  obtains x1 evs1 evs2 call outcome and x2 z :: "(unit, TaskHandlerError) result" where
    "select_before (ex_timer env) hdl (ex_handler_polled env) (Invoked (ex_handler_polled env)) call z w = (x1, x2, evs1)"
    "settle_before env S settle_call outcome sd x1 = Return (w', r, evs2)" "evs = evs1 @ evs2"
proof -
  from exec plan obtain a b where d: "TaskDispatcher_dispatch dispatcher (lt_attempt task) w = Return (a, b)"
    by (auto simp: execute_and_settle_def)
  define call where "call = \<lparr> ca_finishes = ex_handler_finishes env, ca_world = a, ca_result = b,
    ca_dropped = ex_handler_dropped env \<rparr>"
  obtain x1 x2 evs1 where sel: "select_before (ex_timer env) hdl (ex_handler_polled env)
      (Invoked (ex_handler_polled env)) call (Err (TaskHandlerError.Retry (lit ''handler timed out'') None)) w = (x1, x2, evs1)"
    by (rule prod_cases3)
  from exec obtain outcome evs2 where
    "settle_before env S settle_call outcome sd x1 = Return (w', r, evs2)" "evs = evs1 @ evs2"
    by (auto simp: execute_and_settle_def plan d sel [unfolded call_def] Let_def)
  with sel show thesis by (rule that)
qed

section \<open>Properties\<close>

text \<open>
  The plan for a delivery, from the time left: it runs exactly when the handler timeout, the
  storage timeout and the five-second margin all fit before the lease deadline; with some time
  left before the margin it only asks for redelivery; otherwise it leaves the task to recovery.
  A run always leaves the whole storage timeout between the handler's and the settlement deadline.
\<close>

theorem execution_plan_decision:
  assumes "0 < H" "H + S \<le> duration_max" "instant_min + 5000000000 \<le> lease_deadline"
    and "now + int H \<le> instant_max"
  shows "execution_plan now lease_deadline H S = Ok
    (if now + int H + int S + 5000000000 \<le> lease_deadline \<and> now < lease_deadline - 5000000000
     then Run (now + int H) (lease_deadline - 5000000000)
     else if now + 5000000000 < lease_deadline then RetryOnly (lease_deadline - 5000000000)
     else RecoverOnly)"
  using assms
  by (auto simp: execution_plan_def instant_checked_sub_def instant_checked_add_def duration_checked_add_def
      LEASE_SAFETY_MARGIN_def from_secs_def nanos_per_sec_def)

theorem execution_plan_decision_witness:
  "execution_plan 0 60000000000 15000000000 6000000000 = Ok (Run 15000000000 55000000000)"
  using execution_plan_decision [of 15000000000 6000000000 60000000000 0] by (simp add: rust_defs)

text \<open>
  C20. Lease safety of an execution. The handler is started only if the handler timeout, the storage
  timeout and the safety margin fit before the lease deadline from the moment of the check, and
  before the timer set to the end of its timeout has fired. A settlement is started only if the
  margin had not begun when it was checked, and before the timer set to its deadline has fired;
  that deadline is at most the storage timeout away and never inside the margin. At most one
  settlement is started.
\<close>

theorem execution_respects_the_lease:
  assumes "execute_and_settle env S settle_call dispatcher task H w = Return (w', r, evs)"
  shows "(\<forall>t. Invoked t \<in> set evs \<longrightarrow> t < ex_timer env (ex_plan_now env + int H) \<and>
      ex_plan_now env + int H + int S + 5000000000 \<le> tl_deadline (lt_lease task)) \<and>
    (\<forall>req t limit. SettleStarted req t limit \<in> set evs \<longrightarrow>
      ex_settle_now env + 5000000000 < tl_deadline (lt_lease task) \<and> t < ex_timer env limit \<and>
      limit \<le> ex_settle_now env + int S \<and> limit + 5000000000 \<le> tl_deadline (lt_lease task)) \<and>
    length (filter (\<lambda>e. case e of Invoked _ \<Rightarrow> False | _ \<Rightarrow> True) evs) \<le> 1"
proof (cases "execution_plan (ex_plan_now env) (tl_deadline (lt_lease task)) H S")
  case (Ok plan)
  show ?thesis
  proof (cases plan)
    case (Run hdl sd)
    obtain x1 evs1 evs2 call outcome and x2 z :: "(unit, TaskHandlerError) result" where
      sel: "select_before (ex_timer env) hdl (ex_handler_polled env) (Invoked (ex_handler_polled env)) call z w = (x1, x2, evs1)"
      and st: "settle_before env S settle_call outcome sd x1 = Return (w', r, evs2)" and evs: "evs = evs1 @ evs2"
      by (rule execute_and_settle_Run [OF assms Ok [unfolded Run]])
    from settle_before_log [OF st] execution_plan_Run [OF Ok [unfolded Run]]
      select_before_log [OF sel] evs show ?thesis by auto
  next
    case (RetryOnly sd)
    with assms Ok obtain outcome where
      st: "settle_before env S settle_call outcome sd w = Return (w', r, evs)"
      by (auto simp: execute_and_settle_def)
    from settle_before_log [OF st] execution_plan_RetryOnly [OF Ok [unfolded RetryOnly]] show ?thesis by auto
  next
    case RecoverOnly
    with assms Ok show ?thesis by (auto simp: execute_and_settle_def)
  qed
next
  case (Err e)
  with assms show ?thesis by (auto simp: execute_and_settle_def)
qed

definition demo_env :: "nat exec_env" where
  "demo_env = \<lparr> ex_timer = id, ex_rnd = id, ex_jitter = 1, ex_plan_now = 0, ex_handler_polled = 1,
     ex_handler_finishes = 2, ex_handler_dropped = 0, ex_settle_now = 3, ex_settle_polled = 4 \<rparr>"

definition demo_leased :: "unit LeasedTask" where
  "demo_leased = \<lparr> lt_attempt = demo_attempt (lit ''t''), lt_lease = \<lparr> tl_lock_token = 7, tl_deadline = 60000000000 \<rparr> \<rparr>"

definition demo_dispatcher :: "(unit, nat) TaskDispatcher" where
  "demo_dispatcher = \<lparr> di_adapters = [demo_adapter (lit ''t'')],
     di_formats = [\<lparr>task_type = lit ''t'', task_version = 1\<rparr>],
     di_routes = (\<lambda>_. None)(\<lparr>task_type = lit ''t'', task_version = 1\<rparr> \<mapsto> 0) \<rparr>"

definition demo_settle_call ::
  "SettlementRequest \<Rightarrow> nat \<Rightarrow> (nat, (SettlementResult, TaskProcessingError) result) call" where
  "demo_settle_call req w = \<lparr> ca_finishes = 5, ca_world = w + 10, ca_result = Ok SettlementResult.Completed, ca_dropped = w \<rparr>"

lemmas demo_exec_defs = demo_env_def demo_leased_def demo_dispatcher_def demo_settle_call_def
  demo_attempt_def demo_adapter_def execute_and_settle_def execution_plan_def rust_defs LEASE_SAFETY_MARGIN_def
  TaskDispatcher_dispatch_def select_before_def settle_before_def Let_def

lemma demo_executed:
  "execute_and_settle demo_env 6000000000 demo_settle_call demo_dispatcher demo_leased 15000000000 0 =
     Return (11, Ok SettlementResult.Completed,
       [Invoked 1, SettleStarted SettlementRequest.Completed 4 6000000003])"
  by (simp add: demo_exec_defs)

theorem execution_respects_the_lease_witness:
  "ex_plan_now demo_env + int 15000000000 + int 6000000000 + 5000000000 \<le> tl_deadline (lt_lease demo_leased)"
  using execution_respects_the_lease [OF demo_executed] by simp

text \<open>
  C34. What a handler's outcome becomes, on a run whose settlement is started: success is settled as
  completed, a permanent error as failed with its reason, a retry as a retry after the delay it
  asked for or else the redelivery backoff of the attempt; a handler that is not done when its timer
  fires is retried. The result is the queue's if it answers before the deadline, else a timeout.
\<close>

theorem handler_outcome_is_settled:
  assumes "execution_plan (ex_plan_now env) (tl_deadline (lt_lease task)) H S = Ok (Run hdl sd)"
    and "TaskDispatcher_dispatch dispatcher (lt_attempt task) w = Return (w1, result)"
    and "ex_settle_now env < sd" "ex_settle_now env + int S \<le> instant_max"
    and "ex_handler_polled env < ex_timer env hdl"
    and "ex_settle_polled env < ex_timer env (min (ex_settle_now env + int S) sd)"
  shows "let limit = min (ex_settle_now env + int S) sd;
      backoff = redelivery_backoff (ex_rnd env) (ex_jitter env) (ta_number (lt_attempt task));
      finished = ex_handler_finishes env < ex_timer env hdl;
      request = (if finished
       then (case result of
           Ok _ \<Rightarrow> SettlementRequest.Completed
         | Err (TaskHandlerError.Permanent reason) \<Rightarrow> SettlementRequest.Failed reason
         | Err (TaskHandlerError.Retry reason (Some d)) \<Rightarrow> SettlementRequest.Retry d reason
         | Err (TaskHandlerError.Retry reason None) \<Rightarrow> SettlementRequest.Retry backoff reason)
       else SettlementRequest.Retry backoff (lit ''handler timed out''));
      call = settle_call request (if finished then w1 else ex_handler_dropped env);
      answered = ca_finishes call < ex_timer env limit
    in execute_and_settle env S settle_call dispatcher task H w =
      Return (if answered then ca_world call else ca_dropped call,
        if answered then ca_result call else Err TimedOut,
        [Invoked (ex_handler_polled env), SettleStarted request (ex_settle_polled env) limit])"
  using assms
  by (cases result)
    (auto simp: execute_and_settle_def select_before_def settle_before_def instant_add_def
      instant_checked_add_def Let_def split: TaskHandlerError.splits option.splits)

theorem handler_outcome_is_settled_witness:
  "execute_and_settle demo_env 6000000000 demo_settle_call demo_dispatcher demo_leased 15000000000 0 =
     Return (11, Ok SettlementResult.Completed,
       [Invoked 1, SettleStarted SettlementRequest.Completed 4 6000000003])"
  using handler_outcome_is_settled [of demo_env demo_leased 15000000000 6000000000 15000000000 55000000000
      demo_dispatcher 0 1 "Ok ()" demo_settle_call]
  by (simp add: demo_exec_defs)

end
