(* ===== verification/Runtime_Config.thy ===== *)
theory Runtime_Config
  imports Task_Execution
begin

text \<open>
  The limits of a worker pool: \<open>runtime/worker_pool_config.rs\<close> and \<open>runtime/config.rs\<close> with
  their defaults, settings and checked arithmetic. \<open>usize\<close> has 64 bits. The theory shows that the
  checked arithmetic decides exactly the documented inequality, and what the inequality is worth:
  a task waiting behind a full local queue still starts with its whole budget.
\<close>

section \<open>Worker pool limits\<close>

definition MAX_QUEUE_CAPACITY :: nat where "MAX_QUEUE_CAPACITY = usize_max div 8"
definition DEFAULT_CONCURRENCY :: nat where "DEFAULT_CONCURRENCY = 128"
definition DEFAULT_QUEUE_CAPACITY :: nat where "DEFAULT_QUEUE_CAPACITY = 128"
definition DEFAULT_POLL_INTERVAL_MS :: nat where "DEFAULT_POLL_INTERVAL_MS = 1000"
definition DEFAULT_HANDLER_TIMEOUT_SECS :: nat where "DEFAULT_HANDLER_TIMEOUT_SECS = 15"
definition DEFAULT_LEASE_SECS :: nat where "DEFAULT_LEASE_SECS = 60"

record TaskWorkerPoolConfig =
  wc_concurrency :: nat
  wc_queue_capacity :: nat
  wc_poll_interval :: duration
  wc_handler_timeout :: duration
  wc_lease_duration :: duration

datatype TaskWorkerPoolConfigError =
    InvalidEnvironmentValue string
  | InvalidConcurrency
  | InvalidQueueCapacity
  | InvalidPollInterval
  | InvalidHandlerTimeout
  | InvalidLeaseDuration
  | InvalidStorageTimeout
  | LeaseBudgetOverflow
  | LeaseTooShort

definition TaskWorkerPoolConfig_new ::
  "nat \<Rightarrow> nat \<Rightarrow> duration \<Rightarrow> duration \<Rightarrow> duration \<Rightarrow> (TaskWorkerPoolConfig, TaskWorkerPoolConfigError) result" where
  "TaskWorkerPoolConfig_new concurrency queue_capacity poll_interval handler_timeout lease_duration =
     (if concurrency = 0 then Err InvalidConcurrency
      else if queue_capacity = 0 \<or> queue_capacity > MAX_QUEUE_CAPACITY then Err InvalidQueueCapacity
      else if poll_interval = 0 \<or> int (as_millis poll_interval) > i64_max then Err InvalidPollInterval
      else if lease_duration = 0 \<or> int (as_millis lease_duration) > i64_max then Err InvalidLeaseDuration
      else if handler_timeout = 0 \<or> handler_timeout \<ge> lease_duration then Err InvalidHandlerTimeout
      else Ok \<lparr> wc_concurrency = concurrency, wc_queue_capacity = queue_capacity,
                wc_poll_interval = poll_interval, wc_handler_timeout = handler_timeout,
                wc_lease_duration = lease_duration \<rparr>)"

definition TaskWorkerPoolConfig_default :: "TaskWorkerPoolConfig run" where
  "TaskWorkerPoolConfig_default =
     (case TaskWorkerPoolConfig_new DEFAULT_CONCURRENCY DEFAULT_QUEUE_CAPACITY
        (from_millis DEFAULT_POLL_INTERVAL_MS) (from_secs DEFAULT_HANDLER_TIMEOUT_SECS)
        (from_secs DEFAULT_LEASE_SECS) of
        Ok c \<Rightarrow> Return c | Err _ \<Rightarrow> Panic)"

definition usize_try_from :: "nat \<Rightarrow> nat option" where
  "usize_try_from n = (if n \<le> usize_max then Some n else None)"

definition TaskWorkerPoolConfig_from_lookup ::
  "(string \<Rightarrow> rstring option) \<Rightarrow> (TaskWorkerPoolConfig, TaskWorkerPoolConfigError) result" where
  "TaskWorkerPoolConfig_from_lookup lookup =
     (let read = (\<lambda>name d. map_err (\<lambda>_. InvalidEnvironmentValue name) (read_u64 lookup name d)) in
      bind_result (read ''OUTBOX_WORKER_CONCURRENCY'' DEFAULT_CONCURRENCY) (\<lambda>c.
      bind_result (ok_or (usize_try_from c) InvalidConcurrency) (\<lambda>concurrency.
      bind_result (read ''OUTBOX_QUEUE_CAPACITY'' DEFAULT_QUEUE_CAPACITY) (\<lambda>q.
      bind_result (ok_or (usize_try_from q) InvalidQueueCapacity) (\<lambda>queue_capacity.
      bind_result (read ''OUTBOX_POLL_INTERVAL_MS'' DEFAULT_POLL_INTERVAL_MS) (\<lambda>poll.
      bind_result (read ''OUTBOX_HANDLER_TIMEOUT_SECS'' DEFAULT_HANDLER_TIMEOUT_SECS) (\<lambda>h.
      bind_result (read ''OUTBOX_LEASE_SECS'' DEFAULT_LEASE_SECS) (\<lambda>l.
        TaskWorkerPoolConfig_new concurrency queue_capacity (from_millis poll) (from_secs h) (from_secs l)))))))))"

text \<open>\<open>usize::div_ceil\<close>, \<open>u128::checked_mul\<close> and \<open>u64::try_from\<close>; a duration counts nanoseconds.\<close>

definition div_ceil :: "nat \<Rightarrow> nat \<Rightarrow> nat" where
  "div_ceil a b = a div b + (if a mod b > 0 then 1 else 0)"

definition u128_checked_mul :: "nat \<Rightarrow> nat \<Rightarrow> nat option" where
  "u128_checked_mul a b = (if a * b \<le> u128_max then Some (a * b) else None)"

definition u64_try_from :: "nat \<Rightarrow> nat option" where
  "u64_try_from n = (if n \<le> u64_max then Some n else None)"

definition Duration_new :: "nat \<Rightarrow> nat \<Rightarrow> duration" where
  "Duration_new secs nanos = secs * nanos_per_sec + nanos"

definition validate_for_storage_timeout ::
  "TaskWorkerPoolConfig \<Rightarrow> duration \<Rightarrow> (unit, TaskWorkerPoolConfigError) result" where
  "validate_for_storage_timeout self storage_timeout =
     (if storage_timeout = 0 then Err InvalidStorageTimeout
      else
        let waves = div_ceil (wc_queue_capacity self) (wc_concurrency self) in
        bind_result (ok_or (duration_checked_add (wc_handler_timeout self) storage_timeout) LeaseBudgetOverflow) (\<lambda>invocation.
        bind_result (ok_or (u128_checked_mul invocation waves) LeaseBudgetOverflow) (\<lambda>queued_nanos.
        bind_result (ok_or (u64_try_from (queued_nanos div 1000000000)) LeaseBudgetOverflow) (\<lambda>queued_seconds.
        let queued = Duration_new queued_seconds (queued_nanos mod 1000000000) in
        bind_result (ok_or
          (Option.bind (duration_checked_mul storage_timeout 2) (\<lambda>budget.
           Option.bind (duration_checked_add budget (wc_handler_timeout self)) (\<lambda>budget.
           Option.bind (duration_checked_add budget LEASE_SAFETY_MARGIN) (\<lambda>budget.
           duration_checked_add budget queued)))) LeaseBudgetOverflow) (\<lambda>required.
        if wc_lease_duration self \<le> required then Err LeaseTooShort else Ok ())))))"

section \<open>The runtime configuration\<close>

record TaskRuntimeConfig =
  rc_storage :: TaskStorageConfig
  rc_worker :: TaskWorkerPoolConfig

datatype TaskRuntimeConfigError = Storage TaskStorageConfigError | Worker TaskWorkerPoolConfigError

definition TaskRuntimeConfig_new ::
  "TaskStorageConfig \<Rightarrow> TaskWorkerPoolConfig \<Rightarrow> (TaskRuntimeConfig, TaskRuntimeConfigError) result" where
  "TaskRuntimeConfig_new storage worker =
     bind_result (map_err Worker (validate_for_storage_timeout worker (sc_storage_timeout storage))) (\<lambda>_.
       Ok \<lparr> rc_storage = storage, rc_worker = worker \<rparr>)"

definition into_parts :: "TaskRuntimeConfig \<Rightarrow> TaskStorageConfig \<times> TaskWorkerPoolConfig" where
  "into_parts self = (rc_storage self, rc_worker self)"

definition TaskRuntimeConfig_from_lookup ::
  "(string \<Rightarrow> rstring option) \<Rightarrow> (TaskRuntimeConfig, TaskRuntimeConfigError) result" where
  "TaskRuntimeConfig_from_lookup lookup =
     bind_result (map_err Storage (TaskStorageConfig_from_lookup lookup)) (\<lambda>storage.
     bind_result (map_err Worker (TaskWorkerPoolConfig_from_lookup lookup)) (\<lambda>worker.
       TaskRuntimeConfig_new storage worker))"

definition TaskRuntimeConfig_default :: "TaskRuntimeConfig run" where
  "TaskRuntimeConfig_default =
     bind_run TaskStorageConfig_default (\<lambda>storage.
     bind_run TaskWorkerPoolConfig_default (\<lambda>worker.
       case TaskRuntimeConfig_new storage worker of Ok c \<Rightarrow> Return c | Err _ \<Rightarrow> Panic))"

section \<open>Facts\<close>

definition pool_ok :: "TaskWorkerPoolConfig \<Rightarrow> bool" where
  "pool_ok c \<longleftrightarrow> 0 < wc_concurrency c \<and> 0 < wc_queue_capacity c \<and> wc_queue_capacity c \<le> MAX_QUEUE_CAPACITY \<and>
     0 < wc_poll_interval c \<and> 0 < wc_handler_timeout c \<and> wc_handler_timeout c < wc_lease_duration c \<and>
     wc_lease_duration c \<le> duration_max"

definition required_lease :: "TaskWorkerPoolConfig \<Rightarrow> duration \<Rightarrow> nat" where
  "required_lease c S = 2 * S + wc_handler_timeout c + 5000000000 +
     div_ceil (wc_queue_capacity c) (wc_concurrency c) * (wc_handler_timeout c + S)"

lemma TaskWorkerPoolConfig_new_ok: "TaskWorkerPoolConfig_new C Q P H L = Ok c \<Longrightarrow> pool_ok c"
proof -
  assume a: "TaskWorkerPoolConfig_new C Q P H L = Ok c"
  then have "int (L div 1000000) \<le> 2 ^ 63 - 1"
    by (simp add: TaskWorkerPoolConfig_new_def as_millis_def nanos_per_milli_def i64_max_def split: if_splits)
  then have "L \<le> duration_max" by (simp add: duration_max_def u64_max_def nanos_per_sec_def)
  with a show ?thesis by (auto simp: TaskWorkerPoolConfig_new_def pool_ok_def split: if_splits)
qed

lemma TaskWorkerPoolConfig_from_lookup_ok: "TaskWorkerPoolConfig_from_lookup lookup = Ok c \<Longrightarrow> pool_ok c"
  by (auto simp: TaskWorkerPoolConfig_from_lookup_def Let_def dest!: TaskWorkerPoolConfig_new_ok)

lemma Duration_new_div_mod: "Duration_new (n div 1000000000) (n mod 1000000000) = n"
  by (simp add: Duration_new_def nanos_per_sec_def)

lemma div_secs_le: "n div 1000000000 \<le> u64_max \<longleftrightarrow> n \<le> duration_max"
  by (simp add: u64_max_def duration_max_def nanos_per_sec_def) linarith

lemma duration_max_le_u128: "duration_max \<le> u128_max"
  by (simp add: u64_max_def duration_max_def nanos_per_sec_def u128_max_def)

lemma validate_Ok_iff:
  assumes "wc_lease_duration c \<le> duration_max"
  shows "validate_for_storage_timeout c S = Ok () \<longleftrightarrow> 0 < S \<and> required_lease c S < wc_lease_duration c"
proof -
  let ?H = "wc_handler_timeout c" and ?w = "div_ceil (wc_queue_capacity c) (wc_concurrency c)"
  let ?q = "(?H + S) * ?w"
  have r: "required_lease c S = S * 2 + ?H + 5000000000 + ?q" by (simp add: required_lease_def mult.commute)
  show ?thesis
  proof (cases "required_lease c S \<le> duration_max")
    case True
    then have le: "?q \<le> duration_max" "?H + S \<le> duration_max" "S * 2 \<le> duration_max" "S * 2 + ?H \<le> duration_max"
      "S * 2 + ?H + 5000000000 \<le> duration_max" "S * 2 + ?H + 5000000000 + ?q \<le> duration_max"
      unfolding r by linarith+
    moreover from le(1) duration_max_le_u128 have "?q \<le> u128_max" by linarith
    ultimately show ?thesis
      by (auto simp: validate_for_storage_timeout_def Let_def duration_checked_add_def duration_checked_mul_def
          u128_checked_mul_def u64_try_from_def div_secs_le Duration_new_div_mod LEASE_SAFETY_MARGIN_def
          from_secs_def nanos_per_sec_def r)
  next
    case False
    then have "validate_for_storage_timeout c S \<noteq> Ok ()"
      by (auto simp: validate_for_storage_timeout_def Let_def duration_checked_add_def duration_checked_mul_def
          u128_checked_mul_def u64_try_from_def Duration_new_div_mod LEASE_SAFETY_MARGIN_def
          from_secs_def nanos_per_sec_def r)
    with False assms show ?thesis by auto
  qed
qed

section \<open>Properties\<close>

text \<open>
  A pool configuration that could be constructed is accepted for a storage timeout \<open>S\<close> exactly
  when \<open>S\<close> is positive and the lease exceeds \<open>2*S + H + 5s + ceil(Q/C)*(H+S)\<close>: no overflow of the
  checked arithmetic accepts or refuses a configuration wrongly.
\<close>

theorem lease_budget_is_decided_exactly:
  assumes "TaskWorkerPoolConfig_new C Q P H L = Ok c"
  shows "validate_for_storage_timeout c S = Ok () \<longleftrightarrow>
    0 < S \<and> 2 * S + H + 5000000000 + div_ceil Q C * (H + S) < L"
proof -
  from assms have "required_lease c S = 2 * S + H + 5000000000 + div_ceil Q C * (H + S)" "wc_lease_duration c = L"
    by (auto simp: TaskWorkerPoolConfig_new_def required_lease_def split: if_splits)
  with validate_Ok_iff [of c S] TaskWorkerPoolConfig_new_ok [OF assms] show ?thesis by (simp add: pool_ok_def)
qed

lemma default_pool:
  "TaskWorkerPoolConfig_new 128 128 1000000000 15000000000 60000000000 =
     Ok \<lparr> wc_concurrency = 128, wc_queue_capacity = 128, wc_poll_interval = 1000000000,
          wc_handler_timeout = 15000000000, wc_lease_duration = 60000000000 \<rparr>"
  by (simp add: TaskWorkerPoolConfig_new_def MAX_QUEUE_CAPACITY_def rust_defs)

theorem lease_budget_is_decided_exactly_witness:
  "validate_for_storage_timeout \<lparr> wc_concurrency = 128, wc_queue_capacity = 128, wc_poll_interval = 1000000000,
          wc_handler_timeout = 15000000000, wc_lease_duration = 60000000000 \<rparr> 6000000000 = Ok ()"
  using lease_budget_is_decided_exactly [OF default_pool, of 6000000000] by (simp add: div_ceil_def)

lemma TaskRuntimeConfig_default_ok: "\<exists>c. TaskRuntimeConfig_default = Return c"
proof -
  have "validate_for_storage_timeout \<lparr> wc_concurrency = 128, wc_queue_capacity = 128, wc_poll_interval = 1000000000,
          wc_handler_timeout = 15000000000, wc_lease_duration = 60000000000 \<rparr> 6000000000 = Ok ()"
    by (subst validate_Ok_iff) (simp_all add: required_lease_def div_ceil_def rust_defs)
  then show ?thesis
    by (simp add: TaskRuntimeConfig_default_def TaskStorageConfig_default_ok TaskWorkerPoolConfig_default_def
        TaskRuntimeConfig_new_def default_pool DEFAULT_CONCURRENCY_def DEFAULT_QUEUE_CAPACITY_def
        DEFAULT_POLL_INTERVAL_MS_def DEFAULT_HANDLER_TIMEOUT_SECS_def DEFAULT_LEASE_SECS_def
        from_millis_def from_secs_def nanos_per_milli_def nanos_per_sec_def)
qed

text \<open>
  C21. What the accepted budget is worth. Take any settings the runtime accepts, and a task whose
  lease was anchored at \<open>anchor\<close>. If claiming took at most the storage timeout and the task then
  waited for at most the waves of a full local queue, each of one handler and one settlement, its
  handler is run and not given back: it has its whole timeout, and its settlement the whole
  storage timeout before the margin.
\<close>

theorem queued_tasks_keep_their_budget:
  assumes "TaskRuntimeConfig_from_lookup lookup = Ok cfg"
    and "S = sc_storage_timeout (rc_storage cfg)" "H = wc_handler_timeout (rc_worker cfg)"
    and "now \<le> anchor + int S +
      int (div_ceil (wc_queue_capacity (rc_worker cfg)) (wc_concurrency (rc_worker cfg)) * (H + S))"
    and "instant_min \<le> anchor" "anchor + int (wc_lease_duration (rc_worker cfg)) \<le> instant_max"
  shows "execution_plan now (anchor + int (wc_lease_duration (rc_worker cfg))) H S =
    Ok (Run (now + int H) (anchor + int (wc_lease_duration (rc_worker cfg)) - 5000000000))"
proof -
  let ?c = "rc_worker cfg" and ?d = "div_ceil (wc_queue_capacity (rc_worker cfg)) (wc_concurrency (rc_worker cfg))"
  from assms(1) have v: "validate_for_storage_timeout ?c S = Ok ()" and ok: "pool_ok ?c" unfolding assms(2)
    by (auto simp: TaskRuntimeConfig_from_lookup_def TaskRuntimeConfig_new_def dest!: TaskWorkerPoolConfig_from_lookup_ok)
  from v validate_Ok_iff [of ?c S] ok have lt: "2 * S + H + 5000000000 + ?d * (H + S) < wc_lease_duration ?c" "0 < S"
    by (simp_all add: pool_ok_def required_lease_def assms(3))
  then have "int (2 * S + H + 5000000000 + ?d * (H + S)) < int (wc_lease_duration ?c)" by (simp only: of_nat_less_iff)
  then have now: "now + int H + int S + 5000000000 < anchor + int (wc_lease_duration ?c)"
    using assms(4) by simp
  have "H + S \<le> duration_max" "0 < H" using lt ok by (auto simp: pool_ok_def assms(3))
  then show ?thesis using now assms(5,6) lt
    by (auto simp: execution_plan_def instant_checked_sub_def instant_checked_add_def duration_checked_add_def
        LEASE_SAFETY_MARGIN_def from_secs_def nanos_per_sec_def)
qed

lemma default_lookup:
  "TaskRuntimeConfig_from_lookup (\<lambda>_. None) = Ok \<lparr> rc_storage = \<lparr> sc_storage_timeout = 6000000000 \<rparr>,
     rc_worker = \<lparr> wc_concurrency = 128, wc_queue_capacity = 128, wc_poll_interval = 1000000000,
          wc_handler_timeout = 15000000000, wc_lease_duration = 60000000000 \<rparr> \<rparr>"
proof -
  have "validate_for_storage_timeout \<lparr> wc_concurrency = 128, wc_queue_capacity = 128, wc_poll_interval = 1000000000,
          wc_handler_timeout = 15000000000, wc_lease_duration = 60000000000 \<rparr> 6000000000 = Ok ()"
    by (subst validate_Ok_iff) (simp_all add: required_lease_def div_ceil_def rust_defs)
  then show ?thesis
    by (simp add: TaskRuntimeConfig_from_lookup_def TaskStorageConfig_from_lookup_def TaskStorageConfig_new_def
        TaskWorkerPoolConfig_from_lookup_def read_u64_def usize_try_from_def
        TaskRuntimeConfig_new_def default_pool DEFAULT_CONCURRENCY_def DEFAULT_QUEUE_CAPACITY_def
        DEFAULT_POLL_INTERVAL_MS_def DEFAULT_HANDLER_TIMEOUT_SECS_def DEFAULT_LEASE_SECS_def
        DEFAULT_STORAGE_TIMEOUT_MS_def rust_defs)
qed

theorem queued_tasks_keep_their_budget_witness:
  "execution_plan 27000000000 60000000000 15000000000 6000000000 = Ok (Run 42000000000 55000000000)"
  using queued_tasks_keep_their_budget [OF default_lookup, of 6000000000 15000000000 27000000000 0]
  by (simp add: div_ceil_def instant_min_def instant_max_def)

end
