(* ===== verification/Postgres_Queue.thy ===== *)
theory Postgres_Queue
  imports Task_Queue "HOL-Library.Product_Lexorder"
begin

text \<open>
  The transactional outbox as a leased queue: \<open>postgres/task_queue/claim.rs\<close>,
  \<open>settlement.rs\<close>, \<open>recovery.rs\<close>, \<open>queue.rs\<close> and \<open>config.rs\<close>, over the table of
  \<open>sql/002-transactional-outbox.sql\<close>, with the requeue script of the operators.

  The table is a list of rows; \<open>row_ok\<close> is the conjunction of its CHECK constraints and
  \<open>table_ok\<close> adds the primary key. A statement that would store a row outside the constraints
  fails, as PostgreSQL does. What one transaction sees of the server is the record \<open>Tx\<close>: its
  statement and wall clocks, the rows other transactions hold (skipped by SKIP LOCKED), the
  tokens \<open>gen_random_uuid\<close> makes, the addition of milliseconds to a timestamp (None when out
  of range), the encoding of a bound time, and a fault: at begin, at the statement, or at commit, where the client does not
  know whether the transaction became durable. Timestamps are microseconds.

  The theory shows that every operation keeps the constraints under every fault, that a claim
  takes only ready rows and leases each of them once, that a settlement is fenced by token and
  expiry, that a row is delivered at most \<open>max_attempts\<close> times, and that an abandoned row is
  recovered.
\<close>

section \<open>The table\<close>

record 'v OutboxRow =
  ob_id :: Uuid
  ob_aggregate_type :: rstring
  ob_aggregate_id :: rstring
  ob_aggregate_sequence :: int
  ob_task_type :: rstring
  ob_task_version :: int
  ob_payload :: 'v
  ob_metadata :: 'v
  ob_status :: string
  ob_available_at :: int
  ob_finished_at :: "int option"
  ob_attempts :: int
  ob_max_attempts :: int
  ob_last_error :: "rstring option"
  ob_locked_by :: "rstring option"
  ob_lock_token :: "Uuid option"
  ob_locked_until :: "int option"

type_synonym 'v outbox = "'v OutboxRow list"

definition row_ok :: "('v \<Rightarrow> bool) \<Rightarrow> 'v OutboxRow \<Rightarrow> bool" where
  "row_ok is_object r \<longleftrightarrow>
     0 < ob_aggregate_sequence r \<and> ob_task_type r \<noteq> [] \<and> 0 < ob_task_version r \<and>
     is_object (ob_payload r) \<and> is_object (ob_metadata r) \<and>
     ob_status r \<in> {''pending'', ''processing'', ''completed'', ''failed''} \<and>
     0 \<le> ob_attempts r \<and> 0 < ob_max_attempts r \<and> ob_max_attempts r \<le> i32_max \<and>
     ob_attempts r \<le> ob_max_attempts r \<and>
     (ob_status r = ''processing'' \<longleftrightarrow> ob_locked_by r \<noteq> None) \<and>
     (ob_status r = ''processing'' \<longleftrightarrow> ob_lock_token r \<noteq> None) \<and>
     (ob_status r = ''processing'' \<longleftrightarrow> ob_locked_until r \<noteq> None) \<and>
     (ob_status r \<in> {''completed'', ''failed''} \<longleftrightarrow> ob_finished_at r \<noteq> None) \<and>
     (ob_status r = ''pending'' \<longrightarrow> ob_attempts r < ob_max_attempts r)"

definition table_ok :: "('v \<Rightarrow> bool) \<Rightarrow> 'v outbox \<Rightarrow> bool" where
  "table_ok is_object rows \<longleftrightarrow> distinct (map ob_id rows) \<and> list_all (row_ok is_object) rows"

datatype Fault = NoFault | BeginFault | StatementFault | CommitFault bool

record Tx =
  tx_fault :: Fault
  tx_statement_timestamp :: int
  tx_clock_timestamp :: int
  tx_update_timestamp :: "Uuid \<Rightarrow> int"
  tx_locked :: "Uuid \<Rightarrow> bool"
  tx_gen_random_uuid :: "Uuid \<Rightarrow> Uuid"
  tx_add_ms :: "int \<Rightarrow> int \<Rightarrow> int option"
  tx_timestamptz :: "DateTime \<Rightarrow> int"

text \<open>The UPDATE of the selected rows; a row outside the constraints fails the statement.\<close>

fun update_rows ::
  "('v \<Rightarrow> bool) \<Rightarrow> ('v OutboxRow \<Rightarrow> bool) \<Rightarrow> ('v OutboxRow \<Rightarrow> 'v OutboxRow option) \<Rightarrow> 'v outbox
     \<Rightarrow> 'v outbox option" where
  "update_rows is_object sel f [] = Some []"
| "update_rows is_object sel f (r # rs) =
     (case (if sel r then f r else Some r) of
        None \<Rightarrow> None
      | Some r' \<Rightarrow>
          if sel r \<and> \<not> row_ok is_object r' then None
          else map_option ((#) r') (update_rows is_object sel f rs))"

definition tx_commit ::
  "Tx \<Rightarrow> 'v outbox \<Rightarrow> 'v outbox \<Rightarrow> ('a, TaskProcessingError) result
     \<Rightarrow> 'v outbox \<times> ('a, TaskProcessingError) result" where
  "tx_commit tx old new r =
     (case tx_fault tx of
        CommitFault durable \<Rightarrow> (if durable then new else old, Err Unavailable)
      | _ \<Rightarrow> (new, r))"

section \<open>Shared transaction settings\<close>

datatype PostgresTaskQueueConfigError = InvalidEnvironmentValue | InvalidStatementTimeout

record PostgresTaskQueueConfig =
  pc_statement_timeout :: duration

definition DEFAULT_STATEMENT_TIMEOUT_MS :: nat where
  "DEFAULT_STATEMENT_TIMEOUT_MS = 4000"

definition PostgresTaskQueueConfig_new ::
  "duration \<Rightarrow> (PostgresTaskQueueConfig, PostgresTaskQueueConfigError) result" where
  "PostgresTaskQueueConfig_new statement_timeout =
     (if as_millis statement_timeout = 0 \<or> int (as_millis statement_timeout) > i32_max
      then Err InvalidStatementTimeout
      else Ok \<lparr> pc_statement_timeout = statement_timeout \<rparr>)"

definition PostgresTaskQueueConfig_default :: "PostgresTaskQueueConfig run" where
  "PostgresTaskQueueConfig_default =
     (case PostgresTaskQueueConfig_new (from_millis DEFAULT_STATEMENT_TIMEOUT_MS) of
        Ok c \<Rightarrow> Return c | Err _ \<Rightarrow> Panic)"

definition PostgresTaskQueueConfig_from_lookup ::
  "(string \<Rightarrow> rstring option) \<Rightarrow> (PostgresTaskQueueConfig, PostgresTaskQueueConfigError) result" where
  "PostgresTaskQueueConfig_from_lookup lookup =
     bind_result
       (map_err (\<lambda>_. InvalidEnvironmentValue)
         (read_u64 lookup ''OUTBOX_POSTGRES_STATEMENT_TIMEOUT_MS'' DEFAULT_STATEMENT_TIMEOUT_MS))
       (\<lambda>millis. PostgresTaskQueueConfig_new (from_millis millis))"

text \<open>The text \<open>begin_queue_transaction\<close> sets as the transaction's \<open>statement_timeout\<close>.\<close>

definition statement_timeout_setting :: "PostgresTaskQueueConfig \<Rightarrow> rstring" where
  "statement_timeout_setting config = digits (as_millis (pc_statement_timeout config))"

definition begin_queue_transaction :: "Tx \<Rightarrow> (unit, TaskProcessingError) result" where
  "begin_queue_transaction tx = (if tx_fault tx = BeginFault then Err Unavailable else Ok ())"

definition milliseconds :: "duration \<Rightarrow> QueueRequestError \<Rightarrow> (int, TaskProcessingError) result" where
  "milliseconds d invalid = ok_or (i64_try_from (as_millis d)) (InvalidRequest invalid)"

section \<open>Claim\<close>

record 'v ClaimRow =
  cr_id :: Uuid
  cr_payload :: 'v
  cr_metadata :: 'v
  cr_attempts :: int
  cr_lock_token :: Uuid

text \<open>\<open>from_row\<close>; a NULL token cannot be decoded.\<close>

definition ClaimRow_from_row :: "'v OutboxRow \<Rightarrow> 'v ClaimRow option" where
  "ClaimRow_from_row r =
     map_option (\<lambda>token. \<lparr> cr_id = ob_id r, cr_payload = ob_payload r, cr_metadata = ob_metadata r,
       cr_attempts = ob_attempts r, cr_lock_token = token \<rparr>) (ob_lock_token r)"

definition into_claimed_task ::
  "('v \<Rightarrow> bool) \<Rightarrow> TaskFormat \<Rightarrow> instant \<Rightarrow> 'v ClaimRow \<Rightarrow> ('v LeasedTask, TaskProcessingError) result" where
  "into_claimed_task is_object fmt lease_deadline row =
     bind_result
       (map_err (\<lambda>_. InvalidDelivery)
         (TaskAttempt_new is_object (cr_id row) fmt (cr_payload row) (cr_metadata row) (cr_attempts row)))
       (\<lambda>delivery. Ok \<lparr> lt_attempt = delivery,
          lt_lease = \<lparr> tl_lock_token = cr_lock_token row, tl_deadline = lease_deadline \<rparr> \<rparr>)"

definition is_ready :: "Tx \<Rightarrow> TaskFormat \<Rightarrow> 'v OutboxRow \<Rightarrow> bool" where
  "is_ready tx fmt r \<longleftrightarrow>
     ob_status r = ''pending'' \<and> ob_task_type r = task_type fmt \<and>
     ob_task_version r = task_version fmt \<and> ob_available_at r \<le> tx_statement_timestamp tx"

definition ready_ids :: "Tx \<Rightarrow> TaskFormat \<Rightarrow> nat \<Rightarrow> 'v outbox \<Rightarrow> Uuid list" where
  "ready_ids tx fmt limit rows =
     map ob_id (take limit (sort_key (\<lambda>r. (ob_available_at r, ob_id r))
       (filter (\<lambda>r. is_ready tx fmt r \<and> \<not> tx_locked tx (ob_id r)) rows)))"

definition claim_row :: "Tx \<Rightarrow> rstring \<Rightarrow> int \<Rightarrow> 'v OutboxRow \<Rightarrow> 'v OutboxRow option" where
  "claim_row tx owner ms r =
     map_option (\<lambda>until. r\<lparr>ob_status := ''processing'', ob_attempts := ob_attempts r + 1,
         ob_locked_by := Some owner, ob_lock_token := Some (tx_gen_random_uuid tx (ob_id r)),
         ob_locked_until := Some until\<rparr>)
       (tx_add_ms tx (tx_clock_timestamp tx) ms)"

definition claim_statement ::
  "('v \<Rightarrow> bool) \<Rightarrow> Tx \<Rightarrow> TaskFormat \<Rightarrow> rstring \<Rightarrow> nat \<Rightarrow> int \<Rightarrow> 'v outbox
     \<Rightarrow> ('v outbox \<times> 'v ClaimRow list) option" where
  "claim_statement is_object tx fmt owner limit ms rows =
     (let ready = ready_ids tx fmt limit rows in
      if tx_fault tx = StatementFault then None
      else (case update_rows is_object (\<lambda>r. ob_id r \<in> set ready) (claim_row tx owner ms) rows of
          None \<Rightarrow> None
        | Some rows' \<Rightarrow>
            (case those (map ClaimRow_from_row (filter (\<lambda>r. ob_id r \<in> set ready) rows')) of
               None \<Rightarrow> None
             | Some returned \<Rightarrow> Some (rows', returned))))"

definition claim ::
  "('v \<Rightarrow> bool) \<Rightarrow> Tx \<Rightarrow> instant \<Rightarrow> 'v outbox \<Rightarrow> TaskFormat \<Rightarrow> rstring \<Rightarrow> nat \<Rightarrow> duration
     \<Rightarrow> 'v outbox \<times> ('v LeasedTask list, TaskProcessingError) result" where
  "claim is_object tx now rows fmt owner limit lease_duration =
     (if as_millis lease_duration = 0 then (rows, Err (InvalidRequest InvalidLeaseDuration))
      else case instant_checked_add now lease_duration of
        None \<Rightarrow> (rows, Err (InvalidRequest InvalidLeaseDuration))
      | Some lease_deadline \<Rightarrow>
        (case i64_try_from limit of
          None \<Rightarrow> (rows, Err (InvalidRequest InvalidLimit))
        | Some limit64 \<Rightarrow>
          (case begin_queue_transaction tx of
            Err e \<Rightarrow> (rows, Err e)
          | Ok _ \<Rightarrow>
            (case milliseconds lease_duration InvalidLeaseDuration of
              Err e \<Rightarrow> (rows, Err e)
            | Ok ms \<Rightarrow>
              (case claim_statement is_object tx fmt owner (nat limit64) ms rows of
                None \<Rightarrow> (rows, Err Unavailable)
              | Some (rows', returned) \<Rightarrow>
                (case collect_results (map (into_claimed_task is_object fmt lease_deadline) returned) of
                  Err e \<Rightarrow> (rows, Err e)
                | Ok tasks \<Rightarrow> tx_commit tx rows rows' (Ok tasks)))))))"

section \<open>Settlement\<close>

record SettlementParameters =
  sp_status :: string
  sp_delay :: duration
  sp_last_error :: "rstring option"
  sp_failure_cause :: "TaskFailureCause option"

fun settlement_parameters :: "SettlementRequest \<Rightarrow> SettlementParameters" where
  "settlement_parameters SettlementRequest.Completed =
     \<lparr> sp_status = ''completed'', sp_delay = 0, sp_last_error = None, sp_failure_cause = None \<rparr>"
| "settlement_parameters (SettlementRequest.Retry delay reason) =
     \<lparr> sp_status = ''pending'', sp_delay = delay, sp_last_error = Some reason,
       sp_failure_cause = Some AttemptLimitReached \<rparr>"
| "settlement_parameters (SettlementRequest.Failed reason) =
     \<lparr> sp_status = ''failed'', sp_delay = 0, sp_last_error = Some reason,
       sp_failure_cause = Some PermanentRejection \<rparr>"

definition settlement_result ::
  "'v TaskAttempt \<Rightarrow> string option \<Rightarrow> TaskFailureCause option
     \<Rightarrow> (SettlementResult, TaskProcessingError) result" where
  "settlement_result delivery status failure_cause =
     (case status of
        None \<Rightarrow> Ok SettlementResult.OwnershipLost
      | Some st \<Rightarrow>
          if st = ''completed'' then Ok SettlementResult.Completed
          else if st = ''pending'' then Ok SettlementResult.RetryScheduled
          else if st = ''failed'' then
            bind_result (ok_or failure_cause InvalidDelivery) (\<lambda>cause.
              Ok (SettlementResult.Failed \<lparr> tf_id = ta_id delivery, tf_format = ta_format delivery,
                tf_attempt = ta_number delivery, tf_cause = cause \<rparr>))
          else Err InvalidDelivery)"

definition is_owned :: "'v LeasedTask \<Rightarrow> 'v OutboxRow \<Rightarrow> bool" where
  "is_owned task r \<longleftrightarrow>
     ob_id r = ta_id (lt_attempt task) \<and> ob_lock_token r = Some (tl_lock_token (lt_lease task)) \<and>
     ob_status r = ''processing''"

definition is_live :: "Tx \<Rightarrow> 'v OutboxRow \<Rightarrow> bool" where
  "is_live tx r \<longleftrightarrow>
     (case ob_locked_until r of None \<Rightarrow> False | Some until \<Rightarrow> until > tx_clock_timestamp tx)"

definition settle_row ::
  "Tx \<Rightarrow> string \<Rightarrow> int \<Rightarrow> rstring option \<Rightarrow> 'v OutboxRow \<Rightarrow> 'v OutboxRow option" where
  "settle_row tx status ms last_error r =
     map_option (\<lambda>available. r\<lparr>
         ob_status := (if status = ''pending'' \<and> ob_attempts r \<ge> ob_max_attempts r then ''failed'' else status),
         ob_available_at := available,
         ob_finished_at := (if status \<noteq> ''pending'' \<or> ob_attempts r \<ge> ob_max_attempts r
           then Some (tx_statement_timestamp tx) else None),
         ob_last_error := last_error, ob_locked_by := None, ob_lock_token := None,
         ob_locked_until := None\<rparr>)
       (if status = ''pending'' \<and> ob_attempts r < ob_max_attempts r
        then tx_add_ms tx (tx_statement_timestamp tx) ms else Some (ob_available_at r))"

definition settle_statement ::
  "('v \<Rightarrow> bool) \<Rightarrow> Tx \<Rightarrow> 'v LeasedTask \<Rightarrow> string \<Rightarrow> int \<Rightarrow> rstring option \<Rightarrow> 'v outbox
     \<Rightarrow> ('v outbox \<times> string option) option" where
  "settle_statement is_object tx task status ms last_error rows =
     (if tx_fault tx = StatementFault then None
      else (case update_rows is_object (\<lambda>r. is_owned task r \<and> is_live tx r)
                  (settle_row tx status ms last_error) rows of
          None \<Rightarrow> None
        | Some rows' \<Rightarrow>
            Some (rows',
              if (\<exists>r\<in>set rows. is_owned task r \<and> is_live tx r)
              then map_option ob_status (find (\<lambda>r. ob_id r = ta_id (lt_attempt task)) rows')
              else None)))"

definition settle ::
  "('v \<Rightarrow> bool) \<Rightarrow> Tx \<Rightarrow> 'v outbox \<Rightarrow> 'v LeasedTask \<Rightarrow> SettlementRequest
     \<Rightarrow> 'v outbox \<times> (SettlementResult, TaskProcessingError) result" where
  "settle is_object tx rows task request =
     (case begin_queue_transaction tx of
        Err e \<Rightarrow> (rows, Err e)
      | Ok _ \<Rightarrow>
        (let parameters = settlement_parameters request in
         case milliseconds (sp_delay parameters) InvalidRetryDelay of
           Err e \<Rightarrow> (rows, Err e)
         | Ok ms \<Rightarrow>
           (case settle_statement is_object tx task (sp_status parameters) ms
                   (map_option (take 2048) (sp_last_error parameters)) rows of
              None \<Rightarrow> (rows, Err Unavailable)
            | Some (rows', status) \<Rightarrow>
                tx_commit tx rows rows'
                  (settlement_result (lt_attempt task) status (sp_failure_cause parameters)))))"

section \<open>Recovery\<close>

record RecoveryRow =
  rw_id :: Uuid
  rw_task_type :: rstring
  rw_task_version :: int
  rw_attempts :: int
  rw_max_attempts :: int

definition RecoveryRow_from_row :: "'v OutboxRow \<Rightarrow> RecoveryRow" where
  "RecoveryRow_from_row r = \<lparr> rw_id = ob_id r, rw_task_type = ob_task_type r,
     rw_task_version = ob_task_version r, rw_attempts = ob_attempts r,
     rw_max_attempts = ob_max_attempts r \<rparr>"

definition into_failure :: "RecoveryRow \<Rightarrow> (TaskFailure, TaskProcessingError) result" where
  "into_failure row =
     bind_result (map_err (\<lambda>_. InvalidDelivery) (TaskFormat_new (rw_task_type row) (rw_task_version row)))
       (\<lambda>fmt. Ok \<lparr> tf_id = rw_id row, tf_format = fmt, tf_attempt = rw_attempts row,
                    tf_cause = LeaseExpired \<rparr>)"

definition is_expired :: "Tx \<Rightarrow> 'v OutboxRow \<Rightarrow> bool" where
  "is_expired tx r \<longleftrightarrow>
     ob_status r = ''processing'' \<and>
     (case ob_locked_until r of None \<Rightarrow> False | Some until \<Rightarrow> until \<le> tx_statement_timestamp tx)"

definition expired_rows :: "Tx \<Rightarrow> nat \<Rightarrow> 'v outbox \<Rightarrow> RecoveryRow list" where
  "expired_rows tx limit rows =
     map RecoveryRow_from_row (take limit (sort_key (\<lambda>r. (the (ob_locked_until r), ob_id r))
       (filter (\<lambda>r. is_expired tx r \<and> \<not> tx_locked tx (ob_id r)) rows)))"

definition recover_row :: "Tx \<Rightarrow> int \<Rightarrow> 'v OutboxRow \<Rightarrow> 'v OutboxRow option" where
  "recover_row tx ms r =
     map_option (\<lambda>available. r\<lparr>
         ob_status := (if ob_attempts r \<ge> ob_max_attempts r then ''failed'' else ''pending''),
         ob_available_at := available,
         ob_finished_at := (if ob_attempts r \<ge> ob_max_attempts r
           then Some (tx_update_timestamp tx (ob_id r)) else None),
         ob_last_error := Some (lit ''worker lease expired''), ob_locked_by := None,
         ob_lock_token := None, ob_locked_until := None\<rparr>)
       (tx_add_ms tx (tx_update_timestamp tx (ob_id r)) ms)"

fun recover_loop ::
  "('v \<Rightarrow> bool) \<Rightarrow> Tx \<Rightarrow> (Uuid \<Rightarrow> int \<Rightarrow> duration) \<Rightarrow> RecoveryRow list \<Rightarrow> 'v outbox \<Rightarrow> TaskFailure list
     \<Rightarrow> ('v outbox \<times> TaskFailure list, TaskProcessingError) result" where
  "recover_loop is_object tx backoff [] rows failed = Ok (rows, failed)"
| "recover_loop is_object tx backoff (row # rest) rows failed =
     bind_result (milliseconds (backoff (rw_id row) (rw_attempts row)) InvalidRetryDelay) (\<lambda>ms.
     bind_result (ok_or (update_rows is_object (\<lambda>r. ob_id r = rw_id row) (recover_row tx ms) rows)
       Unavailable) (\<lambda>rows'.
     if rw_attempts row \<ge> rw_max_attempts row
     then bind_result (into_failure row) (\<lambda>f.
       recover_loop is_object tx backoff rest rows' (failed @ [f]))
     else recover_loop is_object tx backoff rest rows' failed))"

definition recover_expired ::
  "('v \<Rightarrow> bool) \<Rightarrow> Tx \<Rightarrow> (Uuid \<Rightarrow> int \<Rightarrow> duration) \<Rightarrow> 'v outbox \<Rightarrow> nat
     \<Rightarrow> 'v outbox \<times> (LeaseRecoveryReport, TaskProcessingError) result" where
  "recover_expired is_object tx backoff rows limit =
     (case begin_queue_transaction tx of
        Err e \<Rightarrow> (rows, Err e)
      | Ok _ \<Rightarrow>
        (case i64_try_from limit of
           None \<Rightarrow> (rows, Err (InvalidRequest InvalidLimit))
         | Some limit64 \<Rightarrow>
           if tx_fault tx = StatementFault then (rows, Err Unavailable)
           else (let expired = expired_rows tx (nat limit64) rows in
             case recover_loop is_object tx backoff expired rows [] of
               Err e \<Rightarrow> (rows, Err e)
             | Ok (rows', failed) \<Rightarrow>
                 tx_commit tx rows rows'
                   (Ok \<lparr> rr_retried_count = length expired - length failed, rr_failures = failed \<rparr>))))"

text \<open>The operators' script \<open>requeue-failed-outbox.sql\<close>.\<close>

definition requeue_failed :: "int \<Rightarrow> Uuid \<Rightarrow> 'v outbox \<Rightarrow> 'v outbox" where
  "requeue_failed ts i rows =
     map (\<lambda>r. if ob_id r = i \<and> ob_status r = ''failed''
       then r\<lparr>ob_status := ''pending'', ob_attempts := 0, ob_available_at := ts, ob_finished_at := None,
              ob_last_error := None, ob_locked_by := None, ob_lock_token := None,
              ob_locked_until := None\<rparr>
       else r) rows"

section \<open>Publication\<close>

text \<open>
  The part of the write statement (\<open>event_repository_with_outbox/write.rs\<close>) that inserts the
  tasks of a command: one row per task, with the column defaults of the table. The INSERT keeps
  the primary key and the constraints, or stores nothing.
\<close>

fun schedule_parts :: "TaskSchedule \<Rightarrow> DateTime option \<times> int" where
  "schedule_parts Now = (None, 0)"
| "schedule_parts (At t) = (Some t, 0)"
| "schedule_parts (After delay) = (None, int (as_millis delay))"

definition outbox_row :: "Tx \<Rightarrow> rstring \<Rightarrow> rstring \<Rightarrow> int \<Rightarrow> 'v NewTask \<Rightarrow> 'v OutboxRow option" where
  "outbox_row tx aggregate_type aggregate_id sequence task =
     (let (scheduled_at, delay_ms) = schedule_parts (nt_schedule task) in
      map_option (\<lambda>available. \<lparr> ob_id = nt_id task, ob_aggregate_type = aggregate_type,
          ob_aggregate_id = aggregate_id, ob_aggregate_sequence = sequence,
          ob_task_type = task_type (nt_format task), ob_task_version = task_version (nt_format task),
          ob_payload = nt_payload task, ob_metadata = nt_metadata task, ob_status = ''pending'',
          ob_available_at = available, ob_finished_at = None, ob_attempts = 0,
          ob_max_attempts = nt_max_attempts task, ob_last_error = None, ob_locked_by = None,
          ob_lock_token = None, ob_locked_until = None \<rparr>)
        (case scheduled_at of Some t \<Rightarrow> Some (tx_timestamptz tx t)
         | None \<Rightarrow> tx_add_ms tx (tx_statement_timestamp tx) delay_ms))"

definition insert_rows :: "('v \<Rightarrow> bool) \<Rightarrow> 'v outbox \<Rightarrow> 'v outbox \<Rightarrow> 'v outbox option" where
  "insert_rows is_object new rows =
     (if distinct (map ob_id (rows @ new)) \<and> list_all (row_ok is_object) new
      then Some (rows @ new) else None)"

definition insert_tasks ::
  "('v \<Rightarrow> bool) \<Rightarrow> Tx \<Rightarrow> rstring \<Rightarrow> rstring \<Rightarrow> int \<Rightarrow> 'v NewTask list \<Rightarrow> 'v outbox \<Rightarrow> 'v outbox option" where
  "insert_tasks is_object tx aggregate_type aggregate_id sequence tasks rows =
     Option.bind (those (map (outbox_row tx aggregate_type aggregate_id sequence) tasks))
       (\<lambda>new. insert_rows is_object new rows)"

section \<open>Updates and the constraints\<close>

text \<open>What no operation on a row changes: its identity, its origin and its work.\<close>

definition same_task :: "'v OutboxRow \<Rightarrow> 'v OutboxRow \<Rightarrow> bool" where
  "same_task r r' \<longleftrightarrow>
     ob_id r' = ob_id r \<and> ob_aggregate_type r' = ob_aggregate_type r \<and>
     ob_aggregate_id r' = ob_aggregate_id r \<and> ob_aggregate_sequence r' = ob_aggregate_sequence r \<and>
     ob_task_type r' = ob_task_type r \<and> ob_task_version r' = ob_task_version r \<and>
     ob_payload r' = ob_payload r \<and> ob_metadata r' = ob_metadata r \<and>
     ob_max_attempts r' = ob_max_attempts r"

lemma same_task_refl [simp]: "same_task r r"
  by (simp add: same_task_def)

lemma same_task_trans: "same_task r s \<Longrightarrow> same_task s t \<Longrightarrow> same_task r t"
  by (simp add: same_task_def)

lemma update_rows_Some:
  assumes "update_rows is_object sel f rows = Some rows'"
  shows "rows' = map (\<lambda>r. if sel r then the (f r) else r) rows"
    and "r \<in> set rows \<Longrightarrow> sel r \<Longrightarrow> \<exists>r'. f r = Some r' \<and> row_ok is_object r'"
proof -
  have "rows' = map (\<lambda>r. if sel r then the (f r) else r) rows \<and>
      (\<forall>r\<in>set rows. sel r \<longrightarrow> (\<exists>r'. f r = Some r' \<and> row_ok is_object r'))"
    using assms
  proof (induction rows arbitrary: rows')
    case (Cons r rs)
    then show ?case by (auto split: option.splits if_splits)
  qed simp
  then show "rows' = map (\<lambda>r. if sel r then the (f r) else r) rows"
    and "r \<in> set rows \<Longrightarrow> sel r \<Longrightarrow> \<exists>r'. f r = Some r' \<and> row_ok is_object r'"
    by auto
qed

lemma update_rows_succeeds:
  assumes "\<And>r. r \<in> set rows \<Longrightarrow> sel r \<Longrightarrow> \<exists>r'. f r = Some r' \<and> row_ok is_object r'"
  shows "update_rows is_object sel f rows = Some (map (\<lambda>r. if sel r then the (f r) else r) rows)"
  using assms
proof (induction rows)
  case (Cons r rs)
  have IH: "update_rows is_object sel f rs = Some (map (\<lambda>r. if sel r then the (f r) else r) rs)"
    by (rule Cons.IH) (use Cons.prems in auto)
  show ?case
  proof (cases "sel r")
    case True
    then obtain r' where "f r = Some r'" "row_ok is_object r'" using Cons.prems [of r] by auto
    with IH True show ?thesis by simp
  qed (use IH in simp)
qed simp

lemma table_okD:
  assumes "table_ok is_object rows" and "r \<in> set rows"
  shows "row_ok is_object r"
  using assms by (auto simp: table_ok_def list_all_iff)

lemma table_ok_unique:
  assumes "table_ok is_object rows" "r \<in> set rows" "r' \<in> set rows" "ob_id r = ob_id r'"
  shows "r = r'"
  using assms by (auto simp: table_ok_def distinct_map dest: inj_onD)

lemma table_ok_map:
  assumes "table_ok is_object rows"
    and "\<And>r. r \<in> set rows \<Longrightarrow> ob_id (g r) = ob_id r \<and> row_ok is_object (g r)"
  shows "table_ok is_object (map g rows)"
proof -
  have "map ob_id (map g rows) = map ob_id rows" using assms(2) by simp
  with assms show ?thesis unfolding table_ok_def
    by (metis (mono_tags, lifting) list_all_iff in_set_conv_nth length_map nth_map)
qed

lemma update_rows_table_ok:
  assumes "table_ok is_object rows" "update_rows is_object sel f rows = Some rows'"
    and "\<And>r r'. r \<in> set rows \<Longrightarrow> sel r \<Longrightarrow> f r = Some r' \<Longrightarrow> ob_id r' = ob_id r"
  shows "table_ok is_object rows'"
proof -
  have "table_ok is_object (map (\<lambda>r. if sel r then the (f r) else r) rows)"
  proof (rule table_ok_map [OF assms(1)])
    fix r
    assume r: "r \<in> set rows"
    show "ob_id (if sel r then the (f r) else r) = ob_id r \<and>
        row_ok is_object (if sel r then the (f r) else r)"
      using update_rows_Some(2) [OF assms(2) r] assms(3) [OF r] table_okD [OF assms(1) r] by auto
  qed
  with update_rows_Some(1) [OF assms(2)] show ?thesis by simp
qed

text \<open>Row by row, each statement stays inside the constraints.\<close>

lemma claim_row_ok:
  assumes "row_ok is_object r" "ob_status r = ''pending''" "claim_row tx owner ms r = Some r'"
  shows "row_ok is_object r'" "same_task r r'" "ob_attempts r' = ob_attempts r + 1"
    "ob_status r' = ''processing''" "ob_lock_token r' = Some (tx_gen_random_uuid tx (ob_id r))"
    "ob_locked_until r' = tx_add_ms tx (tx_clock_timestamp tx) ms"
  using assms by (auto simp: claim_row_def row_ok_def same_task_def)

lemma settle_row_ok:
  assumes "row_ok is_object r" "ob_status r = ''processing''"
    "status \<in> {''completed'', ''pending'', ''failed''}" "settle_row tx status ms err r = Some r'"
  shows "row_ok is_object r'" "same_task r r'" "ob_attempts r' = ob_attempts r"
    "ob_lock_token r' = None" "ob_status r' =
      (if status = ''pending'' \<and> ob_attempts r \<ge> ob_max_attempts r then ''failed'' else status)"
proof -
  from assms(4) obtain available where r': "r' = r\<lparr>
      ob_status := (if status = ''pending'' \<and> ob_attempts r \<ge> ob_max_attempts r then ''failed'' else status),
      ob_available_at := available,
      ob_finished_at := (if status \<noteq> ''pending'' \<or> ob_attempts r \<ge> ob_max_attempts r
        then Some (tx_statement_timestamp tx) else None),
      ob_last_error := err, ob_locked_by := None, ob_lock_token := None, ob_locked_until := None\<rparr>"
    unfolding settle_row_def map_option_eq_Some by blast
  show "same_task r r'" "ob_attempts r' = ob_attempts r" "ob_lock_token r' = None" "ob_status r' =
      (if status = ''pending'' \<and> ob_attempts r \<ge> ob_max_attempts r then ''failed'' else status)"
    unfolding r' by (simp_all add: same_task_def)
  from assms(3) consider "status = ''completed''" | "status = ''failed''" | "status = ''pending''" by blast
  then show "row_ok is_object r'"
    using assms(1) by cases (simp_all add: r' row_ok_def)
qed

lemma recover_row_ok:
  assumes "row_ok is_object r" "ob_status r = ''processing''" "recover_row tx ms r = Some r'"
  shows "row_ok is_object r'" "same_task r r'" "ob_attempts r' = ob_attempts r"
    "ob_lock_token r' = None" "ob_status r' =
      (if ob_attempts r \<ge> ob_max_attempts r then ''failed'' else ''pending'')"
proof -
  from assms(3) obtain available where r': "r' = r\<lparr>
      ob_status := (if ob_attempts r \<ge> ob_max_attempts r then ''failed'' else ''pending''),
      ob_available_at := available,
      ob_finished_at := (if ob_attempts r \<ge> ob_max_attempts r
        then Some (tx_update_timestamp tx (ob_id r)) else None),
      ob_last_error := Some (lit ''worker lease expired''), ob_locked_by := None,
      ob_lock_token := None, ob_locked_until := None\<rparr>"
    unfolding recover_row_def map_option_eq_Some by blast
  show "same_task r r'" "ob_attempts r' = ob_attempts r" "ob_lock_token r' = None" "ob_status r' =
      (if ob_attempts r \<ge> ob_max_attempts r then ''failed'' else ''pending'')"
    unfolding r' by (simp_all add: same_task_def)
  show "row_ok is_object r'" using assms(1) by (simp add: r' row_ok_def)
qed

lemma settlement_parameters_status:
  "sp_status (settlement_parameters request) \<in> {''completed'', ''pending'', ''failed''}"
  by (cases request) auto

section \<open>Claim: what it takes and what it returns\<close>

definition claimed_rows :: "Tx \<Rightarrow> TaskFormat \<Rightarrow> rstring \<Rightarrow> nat \<Rightarrow> int \<Rightarrow> 'v outbox \<Rightarrow> 'v outbox" where
  "claimed_rows tx fmt owner limit ms rows =
     map (\<lambda>r. if ob_id r \<in> set (ready_ids tx fmt limit rows) then the (claim_row tx owner ms r) else r) rows"

definition leased_from :: "TaskFormat \<Rightarrow> instant \<Rightarrow> 'v OutboxRow \<Rightarrow> 'v LeasedTask" where
  "leased_from fmt lease_deadline r =
     \<lparr> lt_attempt = \<lparr> ta_id = ob_id r, ta_format = fmt, ta_payload = ob_payload r,
         ta_metadata = ob_metadata r, ta_number = ob_attempts r \<rparr>,
       lt_lease = \<lparr> tl_lock_token = the (ob_lock_token r), tl_deadline = lease_deadline \<rparr> \<rparr>"

lemma those_eq_Some: "those xs = Some ys \<longleftrightarrow> xs = map Some ys"
  by (induction xs arbitrary: ys) (auto split: option.splits simp: map_eq_Cons_conv)

lemma those_eq_None: "those xs = None \<longleftrightarrow> None \<in> set xs"
  by (induction xs) (auto split: option.splits)

lemma ready_ids_props:
  "length (ready_ids tx fmt limit rows) \<le> limit"
  "i \<in> set (ready_ids tx fmt limit rows) \<Longrightarrow>
     \<exists>r\<in>set rows. ob_id r = i \<and> is_ready tx fmt r \<and> \<not> tx_locked tx i"
  by (auto simp: ready_ids_def dest!: in_set_takeD)

lemma ready_ids_row:
  assumes "table_ok is_object rows" "r \<in> set rows" "ob_id r \<in> set (ready_ids tx fmt limit rows)"
  shows "is_ready tx fmt r" "\<not> tx_locked tx (ob_id r)" "ob_status r = ''pending''"
proof -
  from ready_ids_props(2) [OF assms(3)] obtain r' where
    r': "r' \<in> set rows" "ob_id r' = ob_id r" "is_ready tx fmt r'" "\<not> tx_locked tx (ob_id r)" by blast
  with table_ok_unique [OF assms(1) assms(2) r'(1)] have "r' = r" by simp
  with r' show "is_ready tx fmt r" "\<not> tx_locked tx (ob_id r)" "ob_status r = ''pending''"
    by (simp_all add: is_ready_def)
qed

lemma claimed_rows_table_ok:
  assumes ok: "table_ok is_object rows" and add: "tx_add_ms tx (tx_clock_timestamp tx) ms \<noteq> None"
  shows "table_ok is_object (claimed_rows tx fmt owner limit ms rows)"
    and "update_rows is_object (\<lambda>r. ob_id r \<in> set (ready_ids tx fmt limit rows)) (claim_row tx owner ms) rows
      = Some (claimed_rows tx fmt owner limit ms rows)"
proof -
  have row: "\<exists>r'. claim_row tx owner ms r = Some r' \<and> row_ok is_object r' \<and> ob_id r' = ob_id r"
    if "r \<in> set rows" "ob_id r \<in> set (ready_ids tx fmt limit rows)" for r
  proof -
    from add obtain r' where r': "claim_row tx owner ms r = Some r'" by (auto simp: claim_row_def)
    with claim_row_ok(1,2) [OF table_okD [OF ok that(1)] ready_ids_row(3) [OF ok that] r']
    show ?thesis by (simp add: same_task_def)
  qed
  then show upd: "update_rows is_object (\<lambda>r. ob_id r \<in> set (ready_ids tx fmt limit rows)) (claim_row tx owner ms) rows
      = Some (claimed_rows tx fmt owner limit ms rows)"
    unfolding claimed_rows_def by (intro update_rows_succeeds) blast
  from update_rows_table_ok [OF ok upd] row
  show "table_ok is_object (claimed_rows tx fmt owner limit ms rows)" by fastforce
qed

text \<open>A row of the table after a claim is an old row or one of the claimed ones.\<close>

lemma claimed_rows_mem:
  assumes ok: "table_ok is_object rows" and add: "ready_ids tx fmt limit rows \<noteq> [] \<Longrightarrow> tx_add_ms tx (tx_clock_timestamp tx) ms \<noteq> None"
    and r': "r' \<in> set (claimed_rows tx fmt owner limit ms rows)"
    and taken: "ob_id r' \<in> set (ready_ids tx fmt limit rows)"
  obtains r where "r \<in> set rows" "is_ready tx fmt r" "claim_row tx owner ms r = Some r'"
    "row_ok is_object r'" "same_task r r'"
proof -
  from r' obtain r where r: "r \<in> set rows"
    and eq: "r' = (if ob_id r \<in> set (ready_ids tx fmt limit rows) then the (claim_row tx owner ms r) else r)"
    by (auto simp: claimed_rows_def)
  from taken have "ready_ids tx fmt limit rows \<noteq> []" by auto
  with add obtain r'' where r'': "claim_row tx owner ms r = Some r''" by (auto simp: claim_row_def)
  then have "ob_id r'' = ob_id r" by (auto simp: claim_row_def)
  with taken eq r'' have t: "ob_id r \<in> set (ready_ids tx fmt limit rows)" and "r'' = r'"
    by (auto split: if_splits)
  with r'' claim_row_ok(1,2) [OF table_okD [OF ok r] ready_ids_row(3) [OF ok r t]]
    ready_ids_row(1) [OF ok r t] r that show thesis by blast
qed

lemma claim_statement_Some:
  assumes ok: "table_ok is_object rows"
    and st: "claim_statement is_object tx fmt owner limit ms rows = Some (rows', returned)"
  shows "rows' = claimed_rows tx fmt owner limit ms rows" "table_ok is_object rows'"
    "map ClaimRow_from_row (filter (\<lambda>r. ob_id r \<in> set (ready_ids tx fmt limit rows)) rows') = map Some returned"
    "ready_ids tx fmt limit rows \<noteq> [] \<Longrightarrow> tx_add_ms tx (tx_clock_timestamp tx) ms \<noteq> None"
proof -
  from st have upd: "update_rows is_object (\<lambda>r. ob_id r \<in> set (ready_ids tx fmt limit rows))
      (claim_row tx owner ms) rows = Some rows'"
    and ret: "map ClaimRow_from_row (filter (\<lambda>r. ob_id r \<in> set (ready_ids tx fmt limit rows)) rows')
      = map Some returned"
    by (auto simp: claim_statement_def Let_def those_eq_Some split: option.splits if_splits)
  show "rows' = claimed_rows tx fmt owner limit ms rows"
    using update_rows_Some(1) [OF upd] by (simp add: claimed_rows_def)
  show "table_ok is_object rows'"
    by (rule update_rows_table_ok [OF ok upd]) (auto simp: claim_row_def)
  show "map ClaimRow_from_row (filter (\<lambda>r. ob_id r \<in> set (ready_ids tx fmt limit rows)) rows') = map Some returned"
    by (rule ret)
  assume "ready_ids tx fmt limit rows \<noteq> []"
  then obtain i where i: "i \<in> set (ready_ids tx fmt limit rows)" by (cases "ready_ids tx fmt limit rows") auto
  with ready_ids_props(2) [OF i] update_rows_Some(2) [OF upd]
  show "tx_add_ms tx (tx_clock_timestamp tx) ms \<noteq> None" by (fastforce simp: claim_row_def)
qed

lemma claimed_tasks:
  assumes "map ClaimRow_from_row xs = map Some returned"
    and "collect_results (map (into_claimed_task is_object fmt dl) returned) = Ok tasks"
  shows "tasks = map (leased_from fmt dl) xs"
  using assms
proof (induction xs arbitrary: returned tasks)
  case (Cons x xs)
  then obtain c cs where c: "returned = c # cs" "ClaimRow_from_row x = Some c"
    "map ClaimRow_from_row xs = map Some cs" by auto
  with Cons.prems(2) obtain t ts where t: "tasks = t # ts" "into_claimed_task is_object fmt dl c = Ok t"
    "collect_results (map (into_claimed_task is_object fmt dl) cs) = Ok ts"
    by (auto split: result.splits)
  from t(2) c(2) have "t = leased_from fmt dl x"
    by (auto simp: into_claimed_task_def leased_from_def ClaimRow_from_row_def TaskAttempt_new_Ok)
  with Cons.IH [OF c(3) t(3)] t(1) show ?case by simp
qed auto

text \<open>The outcomes of a claim: refused, committed but not acknowledged, or taken.\<close>

lemma claim_cases:
  assumes ok: "table_ok is_object rows"
    and cl: "claim is_object tx now rows fmt owner limit lease_duration = (rows', res)"
  obtains (refused) e where "rows' = rows" "res = Err e"
  | (lost) ms where "rows' = claimed_rows tx fmt owner limit ms rows" "table_ok is_object rows'"
      "res = Err Unavailable" "ready_ids tx fmt limit rows \<noteq> [] \<Longrightarrow> tx_add_ms tx (tx_clock_timestamp tx) ms \<noteq> None"
  | (taken) ms lease_deadline where "rows' = claimed_rows tx fmt owner limit ms rows"
      "table_ok is_object rows'" "ms = int (as_millis lease_duration)"
      "ready_ids tx fmt limit rows \<noteq> [] \<Longrightarrow> tx_add_ms tx (tx_clock_timestamp tx) ms \<noteq> None"
      "instant_checked_add now lease_duration = Some lease_deadline"
      "res = Ok (map (leased_from fmt lease_deadline)
         (filter (\<lambda>r. ob_id r \<in> set (ready_ids tx fmt limit rows)) rows'))"
proof (cases "\<exists>dl ms new returned tasks. instant_checked_add now lease_duration = Some dl \<and>
    ms = int (as_millis lease_duration) \<and>
    claim_statement is_object tx fmt owner limit ms rows = Some (new, returned) \<and>
    collect_results (map (into_claimed_task is_object fmt dl) returned) = Ok tasks \<and>
    (rows', res) = tx_commit tx rows new (Ok tasks)")
  case False
  then have "rows' = rows \<and> is_err res"
    using cl unfolding claim_def milliseconds_def i64_try_from_def
    by (auto split: if_splits option.splits result.splits prod.splits) (metis is_err.simps(2))
  then show thesis using refused by (cases res) auto
next
  case True
  then obtain dl ms new returned tasks where
    dl: "instant_checked_add now lease_duration = Some dl" and ms: "ms = int (as_millis lease_duration)"
    and st: "claim_statement is_object tx fmt owner limit ms rows = Some (new, returned)"
    and co: "collect_results (map (into_claimed_task is_object fmt dl) returned) = Ok tasks"
    and cm: "(rows', res) = tx_commit tx rows new (Ok tasks)" by blast
  note stmt = claim_statement_Some [OF ok st]
  from claimed_tasks [OF stmt(3) co] cm stmt dl ms refused lost [of ms] taken [of ms dl] show thesis
    by (auto simp: tx_commit_def split: Fault.splits if_splits)
qed

section \<open>Settlement: what it changes\<close>

definition replace_row :: "'v OutboxRow \<Rightarrow> 'v outbox \<Rightarrow> 'v outbox" where
  "replace_row r' rows = map (\<lambda>x. if ob_id x = ob_id r' then r' else x) rows"

text \<open>The result a settled row reports.\<close>

definition settled_result ::
  "SettlementRequest \<Rightarrow> 'v TaskAttempt \<Rightarrow> 'v OutboxRow \<Rightarrow> SettlementResult" where
  "settled_result request delivery r =
     (let failure = (\<lambda>cause. SettlementResult.Failed \<lparr> tf_id = ta_id delivery,
        tf_format = ta_format delivery, tf_attempt = ta_number delivery, tf_cause = cause \<rparr>) in
      case request of
        SettlementRequest.Completed \<Rightarrow> SettlementResult.Completed
      | SettlementRequest.Retry _ _ \<Rightarrow>
          if ob_attempts r \<ge> ob_max_attempts r then failure AttemptLimitReached
          else SettlementResult.RetryScheduled
      | SettlementRequest.Failed _ \<Rightarrow> failure PermanentRejection)"

lemma settlement_result_settled:
  assumes "ob_status r' = (if sp_status (settlement_parameters request) = ''pending'' \<and>
      ob_attempts r \<ge> ob_max_attempts r then ''failed'' else sp_status (settlement_parameters request))"
  shows "settlement_result delivery (Some (ob_status r')) (sp_failure_cause (settlement_parameters request))
    = Ok (settled_result request delivery r)"
  using assms by (cases request) (auto simp: settlement_result_def settled_result_def Let_def)

lemma find_replace_row:
  assumes "x \<in> set rows" "ob_id x = ob_id r'"
  shows "find (\<lambda>r. ob_id r = ob_id r') (replace_row r' rows) = Some r'"
  using assms by (induction rows) (auto simp: replace_row_def)

lemma replace_row_table_ok:
  assumes "table_ok is_object rows" "row_ok is_object r'"
  shows "table_ok is_object (replace_row r' rows)"
  unfolding replace_row_def
  by (rule table_ok_map [OF assms(1)]) (use assms in \<open>auto dest: table_okD\<close>)

text \<open>The statement updates the one owned, live row, or none.\<close>

lemma settle_statement_cases:
  assumes ok: "table_ok is_object rows" and status: "status \<in> {''completed'', ''pending'', ''failed''}"
    and st: "settle_statement is_object tx task status ms err rows = Some (new, returned)"
  obtains (none) "new = rows" "returned = None" "\<not> (\<exists>r\<in>set rows. is_owned task r \<and> is_live tx r)"
  | (one) r r' where "r \<in> set rows" "is_owned task r" "is_live tx r"
      "settle_row tx status ms err r = Some r'" "new = replace_row r' rows"
      "returned = Some (ob_status r')"
proof -
  define sel where "sel = (\<lambda>r. is_owned task r \<and> is_live tx r)"
  from st have upd: "update_rows is_object sel (settle_row tx status ms err) rows = Some new"
    and returned: "returned = (if \<exists>r\<in>set rows. sel r
      then map_option ob_status (find (\<lambda>r. ob_id r = ta_id (lt_attempt task)) new) else None)"
    by (auto simp: settle_statement_def sel_def split: if_splits option.splits)
  show thesis
  proof (cases "\<exists>r\<in>set rows. sel r")
    case False
    with update_rows_Some(1) [OF upd] have "new = rows" by (simp add: map_idI)
    with False returned none show thesis by (simp add: sel_def)
  next
    case True
    then obtain r where r: "r \<in> set rows" "sel r" by blast
    with update_rows_Some(2) [OF upd] obtain r' where
      r': "settle_row tx status ms err r = Some r'" by blast
    have "row_ok is_object r" "ob_status r = ''processing''"
      using table_okD [OF ok r(1)] r(2) by (auto simp: sel_def is_owned_def)
    from settle_row_ok(2) [OF this status r'] have same: "ob_id r' = ob_id r"
      by (simp add: same_task_def)
    have "(if sel x then the (settle_row tx status ms err x) else x) =
        (if ob_id x = ob_id r' then r' else x)" if "x \<in> set rows" for x
      using table_ok_unique [OF ok that r(1)] same r r' by (auto simp: sel_def is_owned_def)
    with update_rows_Some(1) [OF upd] have new: "new = replace_row r' rows"
      by (simp add: replace_row_def)
    have "ta_id (lt_attempt task) = ob_id r'"
      using r(2) same by (simp add: sel_def is_owned_def)
    with True returned new find_replace_row [OF r(1), of r'] same
    have "returned = Some (ob_status r')" by simp
    with r r' new one show thesis by (simp add: sel_def)
  qed
qed

lemma settle_cases:
  assumes ok: "table_ok is_object rows"
    and se: "settle is_object tx rows task request = (rows', res)"
  obtains (unchanged) "rows' = rows"
      "res = Ok SettlementResult.OwnershipLost \<and> \<not> (\<exists>r\<in>set rows. is_owned task r \<and> is_live tx r) \<or> is_err res"
  | (settled) r r' ms where "r \<in> set rows" "is_owned task r" "is_live tx r"
      "settle_row tx (sp_status (settlement_parameters request)) ms
         (map_option (take 2048) (sp_last_error (settlement_parameters request))) r = Some r'"
      "ms = int (as_millis (sp_delay (settlement_parameters request)))"
      "row_ok is_object r'" "same_task r r'" "rows' = replace_row r' rows"
      "res = Err Unavailable \<or> res = Ok (settled_result request (lt_attempt task) r)"
proof -
  define par where "par = settlement_parameters request"
  note status = settlement_parameters_status [of request, folded par_def]
  define err where "err = map_option (take 2048) (sp_last_error par)"
  show thesis
  proof (cases "\<exists>ms new status. ms = int (as_millis (sp_delay par)) \<and>
      settle_statement is_object tx task (sp_status par) ms err rows = Some (new, status) \<and>
      (rows', res) = tx_commit tx rows new (settlement_result (lt_attempt task) status (sp_failure_cause par))")
    case False
    then have "rows' = rows \<and> is_err res"
      using se unfolding settle_def milliseconds_def i64_try_from_def Let_def par_def err_def
      by (auto split: if_splits option.splits result.splits prod.splits)
    then show thesis using unchanged by blast
  next
    case True
    then obtain ms new ret where ms: "ms = int (as_millis (sp_delay par))"
      and st: "settle_statement is_object tx task (sp_status par) ms err rows = Some (new, ret)"
      and cm: "(rows', res) = tx_commit tx rows new
        (settlement_result (lt_attempt task) ret (sp_failure_cause par))" by blast
    from ok status st show thesis
    proof (cases rule: settle_statement_cases)
      case none
      with cm show thesis
        by (intro unchanged) (auto simp: tx_commit_def settlement_result_def split: Fault.splits)
    next
      case (one r r')
      then have "row_ok is_object r" "ob_status r = ''processing''"
        using table_okD [OF ok one(1)] by (auto simp: is_owned_def)
      note row = settle_row_ok [OF this status one(4)]
      with one(6) settlement_result_settled [of r' request r, folded par_def]
      have "(rows', res) = tx_commit tx rows new (Ok (settled_result request (lt_attempt task) r))"
        using cm by simp
      then show thesis
        using unchanged settled [of r ms r'] one row ms
        by (auto simp: par_def err_def tx_commit_def split: Fault.splits if_splits)
    qed
  qed
qed

section \<open>Recovery: what it changes\<close>

definition recovered_row :: "Tx \<Rightarrow> (Uuid \<Rightarrow> int \<Rightarrow> duration) \<Rightarrow> 'v OutboxRow \<Rightarrow> 'v OutboxRow option" where
  "recovered_row tx backoff r = recover_row tx (int (as_millis (backoff (ob_id r) (ob_attempts r)))) r"

definition recovered_rows ::
  "Tx \<Rightarrow> (Uuid \<Rightarrow> int \<Rightarrow> duration) \<Rightarrow> Uuid set \<Rightarrow> 'v outbox \<Rightarrow> 'v outbox" where
  "recovered_rows tx backoff ids rows =
     map (\<lambda>r. if ob_id r \<in> ids then the (recovered_row tx backoff r) else r) rows"

lemma recovered_row_ok:
  assumes "row_ok is_object r" "ob_status r = ''processing''" "recovered_row tx backoff r = Some r'"
  shows "row_ok is_object r'" "same_task r r'" "ob_attempts r' = ob_attempts r" "ob_lock_token r' = None"
    "ob_status r' = (if ob_attempts r \<ge> ob_max_attempts r then ''failed'' else ''pending'')"
  using recover_row_ok [OF assms(1,2)] assms(3) by (simp_all add: recovered_row_def)

lemma expired_rows_props:
  assumes "table_ok is_object rows"
  shows "length (expired_rows tx limit rows) \<le> limit" "distinct (map rw_id (expired_rows tx limit rows))"
    "e \<in> set (expired_rows tx limit rows) \<Longrightarrow>
      \<exists>r\<in>set rows. e = RecoveryRow_from_row r \<and> is_expired tx r \<and> \<not> tx_locked tx (ob_id r)"
proof -
  have "distinct (map ob_id (sort_key k (filter P rows)))" for P and k :: "'a OutboxRow \<Rightarrow> int \<times> Uuid"
    using assms by (auto simp: table_ok_def distinct_map inj_on_def)
  then have "distinct (map ob_id (take limit (sort_key k (filter P rows))))" for P and k :: "'a OutboxRow \<Rightarrow> int \<times> Uuid"
    by (metis distinct_take take_map)
  moreover have "rw_id \<circ> RecoveryRow_from_row = (ob_id :: 'a OutboxRow \<Rightarrow> Uuid)"
    by (auto simp: RecoveryRow_from_row_def)
  ultimately show "distinct (map rw_id (expired_rows tx limit rows))"
    by (simp add: expired_rows_def)
  show "length (expired_rows tx limit rows) \<le> limit" by (simp add: expired_rows_def)
  show "e \<in> set (expired_rows tx limit rows) \<Longrightarrow>
      \<exists>r\<in>set rows. e = RecoveryRow_from_row r \<and> is_expired tx r \<and> \<not> tx_locked tx (ob_id r)"
    by (auto simp: expired_rows_def dest!: in_set_takeD)
qed

text \<open>One turn of the loop recovers the one row it selected.\<close>

lemma recover_turn:
  assumes ok: "table_ok is_object rows" and r: "r \<in> set rows" "ob_status r = ''processing''"
    and upd: "update_rows is_object (\<lambda>x. ob_id x = ob_id r)
      (recover_row tx (int (as_millis (backoff (ob_id r) (ob_attempts r))))) rows = Some new"
  shows "new = recovered_rows tx backoff {ob_id r} rows" "table_ok is_object new"
proof -
  show "new = recovered_rows tx backoff {ob_id r} rows"
    using update_rows_Some(1) [OF upd] table_ok_unique [OF ok _ r(1)]
    by (auto simp: recovered_rows_def recovered_row_def)
  show "table_ok is_object new"
    by (rule update_rows_table_ok [OF ok upd]) (auto simp: recover_row_def)
qed

lemma recovered_rows_insert:
  assumes "i \<notin> A" "\<And>r. r \<in> set rows \<Longrightarrow> ob_id r = i \<Longrightarrow> ob_id (the (recovered_row tx backoff r)) = i"
  shows "recovered_rows tx backoff A (recovered_rows tx backoff {i} rows) =
    recovered_rows tx backoff (insert i A) rows"
  unfolding recovered_rows_def map_map comp_def
proof (rule map_cong [OF refl])
  fix r
  assume "r \<in> set rows"
  with assms show "(if ob_id (if ob_id r \<in> {i} then the (recovered_row tx backoff r) else r) \<in> A
      then the (recovered_row tx backoff (if ob_id r \<in> {i} then the (recovered_row tx backoff r) else r))
      else if ob_id r \<in> {i} then the (recovered_row tx backoff r) else r) =
    (if ob_id r \<in> insert i A then the (recovered_row tx backoff r) else r)"
    by (cases "ob_id r = i") simp_all
qed

lemma recover_loop_Ok:
  assumes "table_ok is_object rows" "distinct (map rw_id ex)"
    and "\<And>e. e \<in> set ex \<Longrightarrow> \<exists>r\<in>set rows. e = RecoveryRow_from_row r \<and> ob_status r = ''processing''"
    and "recover_loop is_object tx backoff ex rows failed = Ok (new, failed')"
  shows "table_ok is_object new \<and> new = recovered_rows tx backoff (rw_id ` set ex) rows \<and>
    (\<forall>r\<in>set rows. ob_id r \<in> rw_id ` set ex \<longrightarrow> recovered_row tx backoff r \<noteq> None) \<and>
    failed' = failed @ map (\<lambda>e. \<lparr> tf_id = rw_id e,
      tf_format = \<lparr>task_type = rw_task_type e, task_version = rw_task_version e\<rparr>,
      tf_attempt = rw_attempts e, tf_cause = LeaseExpired \<rparr>)
      (filter (\<lambda>e. rw_attempts e \<ge> rw_max_attempts e) ex)"
  using assms
proof (induction ex arbitrary: rows failed)
  case Nil
  then show ?case by (simp add: recovered_rows_def map_idI)
next
  case (Cons e ex)
  from Cons.prems(3) [of e] obtain r where r: "r \<in> set rows" "e = RecoveryRow_from_row r"
    "ob_status r = ''processing''" by auto
  let ?ms = "int (as_millis (backoff (ob_id r) (ob_attempts r)))"
  let ?failed = "failed @ (if rw_attempts e \<ge> rw_max_attempts e then [\<lparr> tf_id = rw_id e,
      tf_format = \<lparr>task_type = rw_task_type e, task_version = rw_task_version e\<rparr>,
      tf_attempt = rw_attempts e, tf_cause = LeaseExpired \<rparr>] else [])"
  from Cons.prems(4) r obtain mid where
    mid: "update_rows is_object (\<lambda>x. ob_id x = ob_id r) (recover_row tx ?ms) rows = Some mid"
    and rest: "recover_loop is_object tx backoff ex mid ?failed = Ok (new, failed')"
    by (auto simp: RecoveryRow_from_row_def milliseconds_def i64_try_from_def into_failure_def
        split: if_splits)
  note turn = recover_turn [where backoff = backoff, OF Cons.prems(1) r(1,3) mid]
  have "\<exists>r'\<in>set mid. e' = RecoveryRow_from_row r' \<and> ob_status r' = ''processing''" if "e' \<in> set ex" for e'
  proof -
    from Cons.prems(3) [of e'] that obtain r' where
      r': "r' \<in> set rows" "e' = RecoveryRow_from_row r'" "ob_status r' = ''processing''" by auto
    moreover have "ob_id r' \<noteq> ob_id r"
      using Cons.prems(2) that r' r by (auto simp: RecoveryRow_from_row_def image_iff)
    ultimately have "r' \<in> set mid"
      unfolding turn(1) recovered_rows_def by (auto intro: rev_image_eqI)
    with r' show ?thesis by blast
  qed
  from Cons.IH [OF turn(2) _ this rest] Cons.prems(2)
  have IH: "table_ok is_object new" "new = recovered_rows tx backoff (rw_id ` set ex) mid"
    "\<forall>x\<in>set mid. ob_id x \<in> rw_id ` set ex \<longrightarrow> recovered_row tx backoff x \<noteq> None"
    "failed' = ?failed @ map (\<lambda>e. \<lparr> tf_id = rw_id e,
      tf_format = \<lparr>task_type = rw_task_type e, task_version = rw_task_version e\<rparr>,
      tf_attempt = rw_attempts e, tf_cause = LeaseExpired \<rparr>)
      (filter (\<lambda>e. rw_attempts e \<ge> rw_max_attempts e) ex)" by auto
  have first: "recovered_row tx backoff x \<noteq> None \<and> ob_id (the (recovered_row tx backoff x)) = ob_id r"
    if "x \<in> set rows" "ob_id x = ob_id r" for x
    using update_rows_Some(2) [OF mid r(1)] table_ok_unique [OF Cons.prems(1) that(1) r(1) that(2)]
    by (auto simp: recovered_row_def recover_row_def)
  have "recovered_row tx backoff x \<noteq> None" if "x \<in> set rows" "ob_id x \<in> rw_id ` set (e # ex)" for x
  proof (cases "ob_id x = ob_id r")
    case False
    with that(1) have "x \<in> set mid" unfolding turn(1) recovered_rows_def by force
    with IH(3) that(2) False r(2) show ?thesis by (auto simp: RecoveryRow_from_row_def)
  qed (use first that in blast)
  moreover have "new = recovered_rows tx backoff (rw_id ` set (e # ex)) rows"
    unfolding IH(2) turn(1)
    by (subst recovered_rows_insert) (use Cons.prems(2) r first in \<open>auto simp: RecoveryRow_from_row_def\<close>)
  ultimately show ?case using IH(1,4) by auto
qed

lemma recover_cases:
  assumes ok: "table_ok is_object rows"
    and re: "recover_expired is_object tx backoff rows limit = (rows', res)"
  obtains (refused) e where "rows' = rows" "res = Err e"
  | (recovered) "rows' = recovered_rows tx backoff (rw_id ` set (expired_rows tx limit rows)) rows"
      "table_ok is_object rows'"
      "\<And>r. r \<in> set rows \<Longrightarrow> ob_id r \<in> rw_id ` set (expired_rows tx limit rows) \<Longrightarrow>
         is_expired tx r \<and> \<not> tx_locked tx (ob_id r) \<and> (\<exists>r'. recovered_row tx backoff r = Some r')"
      "res = Err Unavailable \<or> (\<exists>report. res = Ok report \<and>
         processed_count report = length (expired_rows tx limit rows) \<and>
         map tf_id (rr_failures report) =
           map rw_id (filter (\<lambda>e. rw_attempts e \<ge> rw_max_attempts e) (expired_rows tx limit rows)))"
proof (cases "\<exists>new failed. recover_loop is_object tx backoff (expired_rows tx limit rows) rows [] = Ok (new, failed) \<and>
    (rows', res) = tx_commit tx rows new (Ok \<lparr> rr_retried_count =
      length (expired_rows tx limit rows) - length failed, rr_failures = failed \<rparr>)")
  case False
  then have "rows' = rows \<and> is_err res"
    using re unfolding recover_expired_def i64_try_from_def Let_def
    by (auto split: if_splits option.splits result.splits prod.splits)
  then show thesis using refused by (cases res) auto
next
  case True
  then obtain new failed where
    lp: "recover_loop is_object tx backoff (expired_rows tx limit rows) rows [] = Ok (new, failed)"
    and cm: "(rows', res) = tx_commit tx rows new (Ok \<lparr> rr_retried_count =
      length (expired_rows tx limit rows) - length failed, rr_failures = failed \<rparr>)" by blast
  have "\<exists>r\<in>set rows. e = RecoveryRow_from_row r \<and> ob_status r = ''processing''"
    if "e \<in> set (expired_rows tx limit rows)" for e
    using expired_rows_props(3) [OF ok that] by (auto simp: is_expired_def)
  note loop = recover_loop_Ok [OF ok expired_rows_props(2) [OF ok] this lp]
  have sel: "is_expired tx r \<and> \<not> tx_locked tx (ob_id r) \<and> (\<exists>r'. recovered_row tx backoff r = Some r')"
    if "r \<in> set rows" "ob_id r \<in> rw_id ` set (expired_rows tx limit rows)" for r
  proof -
    from that(2) expired_rows_props(3) [OF ok] obtain x where
      x: "x \<in> set rows" "is_expired tx x" "\<not> tx_locked tx (ob_id x)" "ob_id x = ob_id r"
      by (fastforce simp: RecoveryRow_from_row_def)
    with table_ok_unique [OF ok x(1) that(1)] loop that show ?thesis by auto
  qed
  from loop have new: "table_ok is_object new"
    "new = recovered_rows tx backoff (rw_id ` set (expired_rows tx limit rows)) rows"
    "map tf_id failed = map rw_id (filter (\<lambda>e. rw_attempts e \<ge> rw_max_attempts e) (expired_rows tx limit rows))"
    by (auto simp: comp_def)
  then have "length failed \<le> length (expired_rows tx limit rows)"
    by (metis length_filter_le length_map)
  with cm new have "rows' = rows \<and> res = Err Unavailable \<or> rows' = new \<and> (res = Err Unavailable \<or>
      (\<exists>report. res = Ok report \<and> processed_count report = length (expired_rows tx limit rows) \<and>
         map tf_id (rr_failures report) = map tf_id failed))"
    by (auto simp: tx_commit_def processed_count_def split: Fault.splits if_splits)
  then show thesis using refused recovered new sel by auto
qed

end
