(* ===== verification/Queue_Runs.thy ===== *)
theory Queue_Runs
  imports Postgres_Queue
begin

text \<open>
  The outbox under any sequence of operations: claims, settlements and recoveries of any number
  of workers, publications and requeues, each with its own clocks, faults and locks
  (\<open>queue_op\<close>). The first part gives the promises of the port \<open>task/queue/port.rs\<close> as the
  interface \<open>leased_queue\<close> and interprets it on the PostgreSQL operations; the second states
  what holds of whole sequences.
\<close>

section \<open>The queue port\<close>

text \<open>
  \<open>holds q t\<close>: the queue has the work of \<open>t\<close> leased under its token. A claim leases at most
  the requested number, work no one holds, all of it distinct and of the requested format; a
  settlement takes effect only for a held lease and ends it.
\<close>

locale leased_queue =
  fixes qinv :: "'q \<Rightarrow> bool"
    and claim_q :: "'env \<Rightarrow> TaskFormat \<Rightarrow> nat \<Rightarrow> 'q \<Rightarrow> 'q \<times> ('v LeasedTask list, TaskProcessingError) result"
    and settle_q :: "'env \<Rightarrow> 'v LeasedTask \<Rightarrow> SettlementRequest \<Rightarrow> 'q
      \<Rightarrow> 'q \<times> (SettlementResult, TaskProcessingError) result"
    and holds :: "'q \<Rightarrow> 'v LeasedTask \<Rightarrow> bool"
  assumes claim_inv: "qinv q \<Longrightarrow> qinv (fst (claim_q env fmt n q))"
    and settle_inv: "qinv q \<Longrightarrow> qinv (fst (settle_q env t req q))"
    and claim_limit: "qinv q \<Longrightarrow> claim_q env fmt n q = (q', Ok ts) \<Longrightarrow> length ts \<le> n"
    and claim_distinct: "qinv q \<Longrightarrow> claim_q env fmt n q = (q', Ok ts) \<Longrightarrow>
      distinct (map (\<lambda>t. ta_id (lt_attempt t)) ts)"
    and claim_holds: "qinv q \<Longrightarrow> claim_q env fmt n q = (q', Ok ts) \<Longrightarrow> t \<in> set ts \<Longrightarrow>
      holds q' t \<and> ta_format (lt_attempt t) = fmt"
    and claim_fresh: "qinv q \<Longrightarrow> claim_q env fmt n q = (q', Ok ts) \<Longrightarrow> t \<in> set ts \<Longrightarrow> holds q t' \<Longrightarrow>
      ta_id (lt_attempt t) \<noteq> ta_id (lt_attempt t')"
    and claim_keeps: "qinv q \<Longrightarrow> holds q t \<Longrightarrow> holds (fst (claim_q env fmt n q)) t"
    and settle_applied: "qinv q \<Longrightarrow> settle_q env t req q = (q', Ok res) \<Longrightarrow> is_applied res \<Longrightarrow>
      holds q t \<and> \<not> holds q' t"
    and settle_others: "qinv q \<Longrightarrow> holds q t' \<Longrightarrow> ta_id (lt_attempt t') \<noteq> ta_id (lt_attempt t) \<Longrightarrow>
      holds (fst (settle_q env t req q)) t'"
begin

text \<open>A lease is settled at most once, even when the settlement is repeated at once.\<close>

lemma settle_once:
  assumes "qinv q" "settle_q env t req q = (q', Ok res)" "is_applied res"
    and "settle_q env' t req' q' = (q'', Ok res')"
  shows "\<not> is_applied res'"
  using settle_applied [OF assms(1-3)] settle_applied [of q' env' t req' q'' res'] assms(2,4)
    settle_inv [OF assms(1), of env t req] by auto

text \<open>Two claims in a row never hand out the same work.\<close>

lemma claims_disjoint:
  assumes "qinv q" "claim_q env fmt n q = (q', Ok ts)" "claim_q env' fmt' n' q' = (q'', Ok ts')"
    and "t \<in> set ts" "t' \<in> set ts'"
  shows "ta_id (lt_attempt t) \<noteq> ta_id (lt_attempt t')"
proof -
  have "qinv q'" using claim_inv [OF assms(1), of env fmt n] assms(2) by simp
  moreover have "holds q' t" using claim_holds [OF assms(1,2,4)] by simp
  ultimately show ?thesis using claim_fresh [OF _ assms(3,5)] by metis
qed

end

text \<open>One transaction's view of the server, with the local clock, the owner and the lease.\<close>

record claim_env =
  ce_tx :: Tx
  ce_now :: instant
  ce_owner :: rstring
  ce_lease :: duration

definition pg_claim ::
  "('v \<Rightarrow> bool) \<Rightarrow> claim_env \<Rightarrow> TaskFormat \<Rightarrow> nat \<Rightarrow> 'v outbox
     \<Rightarrow> 'v outbox \<times> ('v LeasedTask list, TaskProcessingError) result" where
  "pg_claim is_object env fmt n rows =
     claim is_object (ce_tx env) (ce_now env) rows fmt (ce_owner env) n (ce_lease env)"

definition pg_settle ::
  "('v \<Rightarrow> bool) \<Rightarrow> claim_env \<Rightarrow> 'v LeasedTask \<Rightarrow> SettlementRequest \<Rightarrow> 'v outbox
     \<Rightarrow> 'v outbox \<times> (SettlementResult, TaskProcessingError) result" where
  "pg_settle is_object env t req rows = settle is_object (ce_tx env) rows t req"

definition pg_holds :: "'v outbox \<Rightarrow> 'v LeasedTask \<Rightarrow> bool" where
  "pg_holds rows t \<longleftrightarrow> (\<exists>r\<in>set rows. is_owned t r)"

lemma claimed_ids_subset:
  "set (map ob_id (filter (\<lambda>r. ob_id r \<in> S) rows)) \<subseteq> S"
  by auto

lemma map_ob_id_claimed:
  assumes "table_ok is_object rows" "ready_ids tx fmt limit rows \<noteq> [] \<Longrightarrow> tx_add_ms tx (tx_clock_timestamp tx) ms \<noteq> None"
  shows "map ob_id (claimed_rows tx fmt owner limit ms rows) = map ob_id rows"
proof -
  have "ob_id (if ob_id r \<in> set (ready_ids tx fmt limit rows) then the (claim_row tx owner ms r) else r) = ob_id r"
    for r :: "'a OutboxRow" using assms(2) by (cases "ready_ids tx fmt limit rows = []") (auto simp: claim_row_def)
  then show ?thesis by (simp add: claimed_rows_def)
qed

lemma claimed_rows_unchanged:
  assumes "r \<in> set rows" "ob_id r \<notin> set (ready_ids tx fmt limit rows)"
  shows "r \<in> set (claimed_rows tx fmt owner limit ms rows)"
  using assms by (auto simp: claimed_rows_def intro: rev_image_eqI)

lemma pending_not_owned: "is_ready tx fmt r \<Longrightarrow> \<not> is_owned t r"
  by (simp add: is_ready_def is_owned_def)

lemma claimed_rows_holds:
  assumes "table_ok is_object rows" "pg_holds rows t"
  shows "pg_holds (claimed_rows tx fmt owner limit ms rows) t"
proof -
  from assms(2) obtain r where r: "r \<in> set rows" "is_owned t r" by (auto simp: pg_holds_def)
  with ready_ids_row(1) [OF assms(1) r(1)] pending_not_owned
  have "ob_id r \<notin> set (ready_ids tx fmt limit rows)" by blast
  with r claimed_rows_unchanged show ?thesis unfolding pg_holds_def by blast
qed

lemma leased_from_owned:
  assumes "ob_lock_token r = Some k" "ob_status r = ''processing''"
  shows "is_owned (leased_from fmt dl r) r"
  using assms by (simp add: is_owned_def leased_from_def)

lemma replace_row_holds:
  assumes "pg_holds rows t'" "ta_id (lt_attempt t') \<noteq> ob_id r'"
  shows "pg_holds (replace_row r' rows) t'"
  using assms by (auto simp: pg_holds_def replace_row_def is_owned_def intro!: bexI rev_image_eqI)

text \<open>A successful claim, task by task: each is one ready row, now leased under its new token.\<close>

lemma claimed_task:
  assumes ok: "table_ok is_object rows"
    and cl: "claim is_object tx now rows fmt owner limit lease_duration = (rows', Ok ts)"
    and t: "t \<in> set ts"
  obtains r r' dl where "r \<in> set rows" "is_ready tx fmt r" "\<not> tx_locked tx (ob_id r)" "r' \<in> set rows'"
    "claim_row tx owner (int (as_millis lease_duration)) r = Some r'" "same_task r r'"
    "instant_checked_add now lease_duration = Some dl" "t = leased_from fmt dl r'" "is_owned t r'"
  using ok cl
proof (cases rule: claim_cases)
  case (taken ms dl)
  with t obtain r' where r': "r' \<in> set rows'" "ob_id r' \<in> set (ready_ids tx fmt limit rows)"
    "t = leased_from fmt dl r'" by auto
  from claimed_rows_mem [OF ok taken(4) r'(1) [unfolded taken(1)] r'(2)] obtain r where
    r: "r \<in> set rows" "is_ready tx fmt r" "claim_row tx owner ms r = Some r'" "same_task r r'"
    by blast
  from r(2) have "ob_status r = ''pending''" by (simp add: is_ready_def)
  note row = claim_row_ok [OF table_okD [OF ok r(1)] this r(3)]
  have "\<not> tx_locked tx (ob_id r)"
    using ready_ids_row(2) [OF ok r(1)] r'(2) r(4) by (simp add: same_task_def)
  then show thesis
    using that [of r r' dl] r r' taken row leased_from_owned [OF row(5,4), of fmt dl] by simp
qed auto

lemma claimed_ids:
  assumes ok: "table_ok is_object rows"
    and cl: "claim is_object tx now rows fmt owner limit lease_duration = (rows', Ok ts)"
  shows "distinct (map (\<lambda>t. ta_id (lt_attempt t)) ts)"
    "set (map (\<lambda>t. ta_id (lt_attempt t)) ts) = set (ready_ids tx fmt limit rows)" "length ts \<le> limit"
proof -
  let ?ready = "ready_ids tx fmt limit rows"
  from ok cl obtain ms dl where rows': "rows' = claimed_rows tx fmt owner limit ms rows" "table_ok is_object rows'"
    and add: "?ready \<noteq> [] \<Longrightarrow> tx_add_ms tx (tx_clock_timestamp tx) ms \<noteq> None"
    and ts: "ts = map (leased_from fmt dl) (filter (\<lambda>r. ob_id r \<in> set ?ready) rows')"
    by (cases rule: claim_cases) auto
  have "map (\<lambda>t. ta_id (lt_attempt t)) ts = filter (\<lambda>i. i \<in> set ?ready) (map ob_id rows')"
    by (simp add: ts leased_from_def comp_def filter_map)
  also have "map ob_id rows' = map ob_id rows"
    unfolding rows'(1) by (rule map_ob_id_claimed [OF ok add])
  finally have ids: "map (\<lambda>t. ta_id (lt_attempt t)) ts = filter (\<lambda>i. i \<in> set ?ready) (map ob_id rows)" .
  show dist: "distinct (map (\<lambda>t. ta_id (lt_attempt t)) ts)"
    using ok unfolding ids table_ok_def by simp
  show set_ids: "set (map (\<lambda>t. ta_id (lt_attempt t)) ts) = set ?ready"
    unfolding ids using ready_ids_props(2) [of _ tx fmt limit rows] by fastforce
  from dist set_ids have "length ts \<le> length ?ready"
    by (metis card_length distinct_card length_map)
  with ready_ids_props(1) [of tx fmt limit rows] show "length ts \<le> limit" by simp
qed

interpretation pg: leased_queue "table_ok is_object" "pg_claim is_object" "pg_settle is_object" pg_holds
  for is_object :: "'v \<Rightarrow> bool"
proof
  fix q :: "'v outbox" and env :: claim_env and fmt n
  assume ok: "table_ok is_object q"
  obtain q' res where cl: "claim is_object (ce_tx env) (ce_now env) q fmt (ce_owner env) n (ce_lease env) = (q', res)"
    by fastforce
  from ok cl show "table_ok is_object (fst (pg_claim is_object env fmt n q))"
    by (cases rule: claim_cases) (use ok cl in \<open>auto simp: pg_claim_def\<close>)
  from ok cl show "pg_holds (fst (pg_claim is_object env fmt n q)) t" if "pg_holds q t" for t :: "'v LeasedTask"
    by (cases rule: claim_cases) (use that ok cl claimed_rows_holds in \<open>auto simp: pg_claim_def\<close>)
next
  fix q :: "'v outbox" and env :: claim_env and t :: "'v LeasedTask" and req
  assume ok: "table_ok is_object q"
  obtain q' res where se: "settle is_object (ce_tx env) q t req = (q', res)" by fastforce
  from ok se show "table_ok is_object (fst (pg_settle is_object env t req q))"
    by (cases rule: settle_cases) (use ok se replace_row_table_ok in \<open>auto simp: pg_settle_def\<close>)
  from ok se show "pg_holds (fst (pg_settle is_object env t req q)) t'"
    if "pg_holds q t'" "ta_id (lt_attempt t') \<noteq> ta_id (lt_attempt t)" for t' :: "'v LeasedTask"
    by (cases rule: settle_cases) (use that se in
      \<open>auto simp: pg_settle_def is_owned_def same_task_def intro: replace_row_holds\<close>)
next
  fix q q' :: "'v outbox" and env :: claim_env and fmt n ts
  assume ok: "table_ok is_object q" and cl: "pg_claim is_object env fmt n q = (q', Ok ts)"
  show "distinct (map (\<lambda>t. ta_id (lt_attempt t)) ts)" "length ts \<le> n"
    using claimed_ids [OF ok cl [unfolded pg_claim_def]] by simp_all
  fix t t' :: "'v LeasedTask"
  assume "t \<in> set ts"
  from claimed_task [OF ok cl [unfolded pg_claim_def] this] obtain r r' dl where
    r: "r \<in> set q" "is_ready (ce_tx env) fmt r" "r' \<in> set q'" "same_task r r'"
      "t = leased_from fmt dl r'" "is_owned t r'" by metis
  then show "pg_holds q' t \<and> ta_format (lt_attempt t) = fmt"
    unfolding pg_holds_def by (auto simp: leased_from_def)
  assume "pg_holds q t'"
  then obtain x where x: "x \<in> set q" "is_owned t' x" by (auto simp: pg_holds_def)
  have "ta_id (lt_attempt t) = ob_id r" using r(4,5) by (simp add: leased_from_def same_task_def)
  moreover from x have "ob_id x = ta_id (lt_attempt t')" by (simp add: is_owned_def)
  ultimately show "ta_id (lt_attempt t) \<noteq> ta_id (lt_attempt t')"
    using table_ok_unique [OF ok x(1) r(1)] pending_not_owned [OF r(2)] x(2) by auto
next
  fix q q' :: "'v outbox" and env :: claim_env and t :: "'v LeasedTask" and req res
  assume ok: "table_ok is_object q" and se: "pg_settle is_object env t req q = (q', Ok res)"
    and app: "is_applied res"
  from ok se [unfolded pg_settle_def] show "pg_holds q t \<and> \<not> pg_holds q' t"
  proof (cases rule: settle_cases)
    case unchanged
    with app show ?thesis by (auto simp: is_applied_def)
  next
    case (settled r r' ms)
    then have "row_ok is_object r" "ob_status r = ''processing''"
      using table_okD [OF ok settled(1)] by (auto simp: is_owned_def)
    from settle_row_ok(4) [OF this settlement_parameters_status settled(4)] settled
    show ?thesis by (auto simp: pg_holds_def replace_row_def is_owned_def same_task_def)
  qed
qed

section \<open>Sequences of operations\<close>

datatype 'v queue_op =
    ClaimOp Tx instant TaskFormat rstring nat duration
  | SettleOp Tx "'v LeasedTask" SettlementRequest
  | RecoverOp Tx "Uuid \<Rightarrow> int \<Rightarrow> duration" nat
  | PublishOp Tx rstring rstring int "'v NewTask list"
  | RequeueOp int Uuid

fun queue_step :: "('v \<Rightarrow> bool) \<Rightarrow> 'v queue_op \<Rightarrow> 'v outbox \<Rightarrow> 'v outbox" where
  "queue_step is_object (ClaimOp tx now fmt owner limit lease_duration) rows =
     fst (claim is_object tx now rows fmt owner limit lease_duration)"
| "queue_step is_object (SettleOp tx task request) rows = fst (settle is_object tx rows task request)"
| "queue_step is_object (RecoverOp tx backoff limit) rows =
     fst (recover_expired is_object tx backoff rows limit)"
| "queue_step is_object (PublishOp tx aty aid sequence tasks) rows =
     (case insert_tasks is_object tx aty aid sequence tasks rows of Some rows' \<Rightarrow> rows' | None \<Rightarrow> rows)"
| "queue_step is_object (RequeueOp ts i) rows = requeue_failed ts i rows"

fun run_queue :: "('v \<Rightarrow> bool) \<Rightarrow> 'v queue_op list \<Rightarrow> 'v outbox \<Rightarrow> 'v outbox" where
  "run_queue is_object [] rows = rows"
| "run_queue is_object (op # ops) rows = run_queue is_object ops (queue_step is_object op rows)"

text \<open>How often a sequence of operations hands the work of row \<open>i\<close> to a worker.\<close>

fun received :: "('v \<Rightarrow> bool) \<Rightarrow> Uuid \<Rightarrow> 'v queue_op \<Rightarrow> 'v outbox \<Rightarrow> bool" where
  "received is_object i (ClaimOp tx now fmt owner limit lease_duration) rows =
     (case snd (claim is_object tx now rows fmt owner limit lease_duration) of
        Ok ts \<Rightarrow> i \<in> set (map (\<lambda>t. ta_id (lt_attempt t)) ts)
      | Err _ \<Rightarrow> False)"
| "received is_object i op rows = False"

fun deliveries :: "('v \<Rightarrow> bool) \<Rightarrow> Uuid \<Rightarrow> 'v queue_op list \<Rightarrow> 'v outbox \<Rightarrow> nat" where
  "deliveries is_object i [] rows = 0"
| "deliveries is_object i (op # ops) rows =
     (if received is_object i op rows then 1 else 0) +
     deliveries is_object i ops (queue_step is_object op rows)"

fun requeues :: "Uuid \<Rightarrow> 'v queue_op \<Rightarrow> bool" where
  "requeues i (RequeueOp ts j) = (i = j)"
| "requeues i _ = False"

text \<open>What one operation does to one row.\<close>

definition row_evolves :: "'v OutboxRow \<Rightarrow> 'v OutboxRow \<Rightarrow> bool" where
  "row_evolves r r' \<longleftrightarrow> same_task r r' \<and> (ob_status r = ''completed'' \<longrightarrow> r' = r)"

lemma row_evolves_refl [simp]: "row_evolves r r"
  by (simp add: row_evolves_def)

lemma row_evolves_trans: "row_evolves r s \<Longrightarrow> row_evolves s t \<Longrightarrow> row_evolves r t"
  using same_task_trans by (auto simp: row_evolves_def)

lemma claim_step_row:
  assumes ok: "table_ok is_object rows" and r: "r \<in> set rows"
    and cl: "claim is_object tx now rows fmt owner limit lease_duration = (rows', res)"
  shows "\<exists>r'\<in>set rows'. row_evolves r r' \<and>
    ob_attempts r + (if received is_object (ob_id r) (ClaimOp tx now fmt owner limit lease_duration) rows
      then 1 else 0) \<le> ob_attempts r'"
proof -
  have claimed: "\<exists>r'\<in>set (claimed_rows tx fmt owner limit ms rows). row_evolves r r' \<and>
      ob_attempts r + (if ob_id r \<in> set (ready_ids tx fmt limit rows) then 1 else 0) \<le> ob_attempts r'"
    if add: "ready_ids tx fmt limit rows \<noteq> [] \<Longrightarrow> tx_add_ms tx (tx_clock_timestamp tx) ms \<noteq> None" for ms
  proof (cases "ob_id r \<in> set (ready_ids tx fmt limit rows)")
    case True
    with add obtain r' where r': "claim_row tx owner ms r = Some r'" by (force simp: claim_row_def)
    note pend = ready_ids_row(3) [OF ok r True]
    note row = claim_row_ok [OF table_okD [OF ok r] pend r']
    have "r' \<in> set (claimed_rows tx fmt owner limit ms rows)"
      unfolding claimed_rows_def set_map by (rule image_eqI [OF _ r]) (simp add: True r')
    with row pend True show ?thesis by (intro bexI [of _ r']) (auto simp: row_evolves_def)
  next
    case False
    with claimed_rows_unchanged [OF r False] show ?thesis
      by (intro bexI [of _ r]) (auto simp: row_evolves_def)
  qed
  from ok cl show ?thesis
  proof (cases rule: claim_cases)
    case refused
    with r cl show ?thesis by (intro bexI [of _ r]) (auto simp: row_evolves_def)
  next
    case (lost ms)
    then have "\<not> received is_object (ob_id r) (ClaimOp tx now fmt owner limit lease_duration) rows"
      using cl by simp
    with claimed [OF lost(4)] lost(1) show ?thesis by (auto split: if_splits)
  next
    case (taken ms dl)
    then have "received is_object (ob_id r) (ClaimOp tx now fmt owner limit lease_duration) rows \<longleftrightarrow>
        ob_id r \<in> set (ready_ids tx fmt limit rows)"
      using claimed_ids(2) [OF ok, of tx now fmt owner limit lease_duration rows'] cl by auto
    with claimed [OF taken(4)] taken(1) show ?thesis by simp
  qed
qed

lemma settle_step_row:
  assumes ok: "table_ok is_object rows" and r: "r \<in> set rows"
    and se: "settle is_object tx rows task request = (rows', res)"
  shows "\<exists>r'\<in>set rows'. row_evolves r r' \<and> ob_attempts r' = ob_attempts r"
  using ok se
proof (cases rule: settle_cases)
  case (settled x x' ms)
  then have x: "row_ok is_object x" "ob_status x = ''processing''"
    using table_okD [OF ok settled(1)] by (auto simp: is_owned_def)
  note row = settle_row_ok [OF x settlement_parameters_status settled(4)]
  show ?thesis
  proof (cases "ob_id r = ob_id x'")
    case True
    with table_ok_unique [OF ok r settled(1)] row(2) have "r = x" by (simp add: same_task_def)
    moreover from True r have "x' \<in> set rows'" unfolding settled(8) replace_row_def by force
    ultimately show ?thesis using row x by (intro bexI [of _ x']) (auto simp: row_evolves_def)
  next
    case False
    with r have "r \<in> set rows'" unfolding settled(8) replace_row_def by force
    then show ?thesis by (intro bexI [of _ r]) (auto simp: row_evolves_def)
  qed
qed (use r row_evolves_refl in blast)+

lemma recover_step_row:
  assumes ok: "table_ok is_object rows" and r: "r \<in> set rows"
    and re: "recover_expired is_object tx backoff rows limit = (rows', res)"
  shows "\<exists>r'\<in>set rows'. row_evolves r r' \<and> ob_attempts r' = ob_attempts r"
  using ok re
proof (cases rule: recover_cases)
  case recovered
  show ?thesis
  proof (cases "ob_id r \<in> rw_id ` set (expired_rows tx limit rows)")
    case True
    with recovered(3) [OF r] obtain r' where r': "recovered_row tx backoff r = Some r'"
      and st: "ob_status r = ''processing''" by (auto simp: is_expired_def)
    note row = recovered_row_ok [OF table_okD [OF ok r] st r']
    have "r' \<in> set rows'"
      unfolding recovered(1) recovered_rows_def set_map by (rule image_eqI [OF _ r]) (simp add: True r')
    with row st show ?thesis by (intro bexI [of _ r']) (auto simp: row_evolves_def)
  next
    case False
    with r have "r \<in> set rows'" unfolding recovered(1) recovered_rows_def by force
    then show ?thesis by (intro bexI [of _ r]) (auto simp: row_evolves_def)
  qed
qed (use r row_evolves_refl in blast)+

lemma insert_tasks_Some:
  assumes "insert_tasks is_object tx aty aid sequence tasks rows = Some rows'"
  obtains new where "rows' = rows @ new" "map (outbox_row tx aty aid sequence) tasks = map Some new"
    "distinct (map ob_id (rows @ new))" "list_all (row_ok is_object) new"
  using assms
  by (auto simp: insert_tasks_def insert_rows_def those_eq_Some bind_eq_Some_conv split: if_splits)

lemma requeue_row_ok:
  assumes "row_ok is_object r" "ob_status r = ''failed''"
  shows "row_ok is_object (r\<lparr>ob_status := ''pending'', ob_attempts := 0, ob_available_at := ts,
    ob_finished_at := None, ob_last_error := None, ob_locked_by := None, ob_lock_token := None,
    ob_locked_until := None\<rparr>)"
  using assms by (simp add: row_ok_def)

text \<open>Every operation keeps the constraints, keeps every row, and only a claim adds an attempt.\<close>

lemma queue_step_table_ok:
  assumes ok: "table_ok is_object rows"
  shows "table_ok is_object (queue_step is_object op rows)"
proof (cases op)
  case (ClaimOp tx now fmt owner limit ld)
  then show ?thesis
    using pg.claim_inv [OF ok, of "\<lparr>ce_tx = tx, ce_now = now, ce_owner = owner, ce_lease = ld\<rparr>" fmt limit]
    by (simp add: pg_claim_def)
next
  case (SettleOp tx task request)
  then show ?thesis
    using pg.settle_inv [OF ok, of "\<lparr>ce_tx = tx, ce_now = 0, ce_owner = [], ce_lease = 0\<rparr>" task request]
    by (simp add: pg_settle_def)
next
  case (RecoverOp tx backoff limit)
  obtain rows' res where re: "recover_expired is_object tx backoff rows limit = (rows', res)" by fastforce
  with RecoverOp show ?thesis
    using ok re by (cases rule: recover_cases [OF ok re]) auto
next
  case (PublishOp tx aty aid sequence tasks)
  then show ?thesis
    using ok by (auto simp: table_ok_def split: option.splits elim!: insert_tasks_Some)
next
  case (RequeueOp ts i)
  have "table_ok is_object (requeue_failed ts i rows)"
    unfolding requeue_failed_def
    by (rule table_ok_map [OF ok]) (use table_okD [OF ok] requeue_row_ok in auto)
  with RequeueOp show ?thesis by simp
qed

lemma queue_step_row:
  assumes ok: "table_ok is_object rows" and r: "r \<in> set rows"
  shows "\<exists>r'\<in>set (queue_step is_object op rows). row_evolves r r' \<and> (\<not> requeues (ob_id r) op \<longrightarrow>
    ob_attempts r + (if received is_object (ob_id r) op rows then 1 else 0) \<le> ob_attempts r')"
proof (cases op)
  case (ClaimOp tx now fmt owner limit ld)
  obtain rows' res where "claim is_object tx now rows fmt owner limit ld = (rows', res)" by fastforce
  with claim_step_row [OF ok r this] ClaimOp show ?thesis by auto
next
  case (SettleOp tx task request)
  obtain rows' res where "settle is_object tx rows task request = (rows', res)" by fastforce
  with settle_step_row [OF ok r this] SettleOp show ?thesis by fastforce
next
  case (RecoverOp tx backoff limit)
  obtain rows' res where "recover_expired is_object tx backoff rows limit = (rows', res)" by fastforce
  with recover_step_row [OF ok r this] RecoverOp show ?thesis by fastforce
next
  case (PublishOp tx aty aid sequence tasks)
  then have "r \<in> set (queue_step is_object op rows)"
    using r by (auto split: option.splits elim!: insert_tasks_Some)
  with PublishOp show ?thesis by (intro bexI [of _ r]) (auto simp: row_evolves_def)
next
  case (RequeueOp ts i)
  show ?thesis
  proof (cases "ob_id r = i \<and> ob_status r = ''failed''")
    case True
    let ?r' = "r\<lparr>ob_status := ''pending'', ob_attempts := 0, ob_available_at := ts, ob_finished_at := None,
      ob_last_error := None, ob_locked_by := None, ob_lock_token := None, ob_locked_until := None\<rparr>"
    have "?r' \<in> set (queue_step is_object op rows)"
      unfolding RequeueOp queue_step.simps requeue_failed_def set_map
      by (rule image_eqI [OF _ r]) (simp add: True)
    with True RequeueOp show ?thesis
      by (intro bexI [of _ ?r']) (auto simp: row_evolves_def same_task_def)
  next
    case False
    then have "r \<in> set (queue_step is_object op rows)"
      unfolding RequeueOp queue_step.simps requeue_failed_def set_map
      by (intro image_eqI [OF _ r]) auto
    with RequeueOp show ?thesis by (intro bexI [of _ r]) (auto simp: row_evolves_def)
  qed
qed

lemma run_queue_table_ok: "table_ok is_object rows \<Longrightarrow> table_ok is_object (run_queue is_object ops rows)"
  by (induction ops arbitrary: rows) (auto simp: queue_step_table_ok)

lemma run_queue_row:
  assumes "table_ok is_object rows" "r \<in> set rows"
  shows "\<exists>r'\<in>set (run_queue is_object ops rows). row_evolves r r' \<and>
    (list_all (\<lambda>op. \<not> requeues (ob_id r) op) ops \<longrightarrow>
      ob_attempts r + int (deliveries is_object (ob_id r) ops rows) \<le> ob_attempts r')"
  using assms
proof (induction ops arbitrary: rows r)
  case Nil
  then show ?case by (intro bexI [of _ r]) auto
next
  case (Cons op ops)
  from queue_step_row [OF Cons.prems] obtain s where
    s: "s \<in> set (queue_step is_object op rows)" "row_evolves r s" "\<not> requeues (ob_id r) op \<longrightarrow>
      ob_attempts r + (if received is_object (ob_id r) op rows then 1 else 0) \<le> ob_attempts s" by blast
  then have "ob_id s = ob_id r" by (simp add: row_evolves_def same_task_def)
  with Cons.IH [OF queue_step_table_ok [OF Cons.prems(1)] s(1)] s obtain r' where
    "r' \<in> set (run_queue is_object ops (queue_step is_object op rows))" "row_evolves s r'"
    "list_all (\<lambda>op. \<not> requeues (ob_id r) op) ops \<longrightarrow> ob_attempts s +
      int (deliveries is_object (ob_id r) ops (queue_step is_object op rows)) \<le> ob_attempts r'" by metis
  with s(2,3) row_evolves_trans [OF s(2)] show ?case by (intro bexI [of _ r']) auto
qed

text \<open>A lease that no row carries stays unheld while no claim draws its token again.\<close>

fun draws :: "Uuid \<Rightarrow> 'v queue_op \<Rightarrow> bool" where
  "draws k (ClaimOp tx now fmt owner limit lease_duration) = (\<exists>i. tx_gen_random_uuid tx i = k)"
| "draws k _ = False"

definition token_free :: "Uuid \<Rightarrow> 'v outbox \<Rightarrow> bool" where
  "token_free k rows \<longleftrightarrow> (\<forall>r\<in>set rows. ob_lock_token r \<noteq> Some k)"

lemma token_free_step:
  assumes ok: "table_ok is_object rows" and free: "token_free k rows" and no: "\<not> draws k op"
  shows "token_free k (queue_step is_object op rows)"
proof (cases op)
  case (ClaimOp tx now fmt owner limit ld)
  obtain rows' res where cl: "claim is_object tx now rows fmt owner limit ld = (rows', res)" by fastforce
  have "token_free k (claimed_rows tx fmt owner limit ms rows)"
    if "ready_ids tx fmt limit rows \<noteq> [] \<Longrightarrow> tx_add_ms tx (tx_clock_timestamp tx) ms \<noteq> None" for ms
    using free no that ClaimOp
    by (cases "ready_ids tx fmt limit rows = []") (auto simp: token_free_def claimed_rows_def claim_row_def)
  with ok cl free have "token_free k rows'" by (cases rule: claim_cases) blast+
  with cl ClaimOp show ?thesis by simp
next
  case (SettleOp tx task request)
  obtain rows' res where se: "settle is_object tx rows task request = (rows', res)" by fastforce
  from ok se have "token_free k rows'"
  proof (cases rule: settle_cases)
    case (settled r r' ms)
    then have "ob_lock_token r' = None" by (auto simp: settle_row_def)
    with free settled show ?thesis by (auto simp: token_free_def replace_row_def)
  qed (use free in simp)
  with se SettleOp show ?thesis by simp
next
  case (RecoverOp tx backoff limit)
  obtain rows' res where re: "recover_expired is_object tx backoff rows limit = (rows', res)" by fastforce
  from ok re have "token_free k rows'"
  proof (cases rule: recover_cases)
    case recovered
    have "ob_lock_token r' \<noteq> Some k" if r': "r' \<in> set rows'" for r'
    proof -
      from r' recovered(1) obtain r where r: "r \<in> set rows"
        "r' = (if ob_id r \<in> rw_id ` set (expired_rows tx limit rows) then the (recovered_row tx backoff r) else r)"
        by (auto simp: recovered_rows_def)
      with recovered(3) [OF r(1)] free show ?thesis
        by (auto simp: token_free_def recovered_row_def recover_row_def)
    qed
    then show ?thesis by (simp add: token_free_def)
  qed (use free in simp)
  with re RecoverOp show ?thesis by simp
next
  case (PublishOp tx aty aid sequence tasks)
  have "token_free k new" if "map (outbox_row tx aty aid sequence) tasks = map Some new" for new
    unfolding token_free_def
  proof
    fix r
    assume "r \<in> set new"
    then have "Some r \<in> set (map (outbox_row tx aty aid sequence) tasks)" unfolding that by simp
    then obtain t where "outbox_row tx aty aid sequence t = Some r" by auto
    then show "ob_lock_token r \<noteq> Some k" by (auto simp: outbox_row_def split: prod.splits)
  qed
  with PublishOp free show ?thesis
    by (auto simp: token_free_def split: option.splits elim!: insert_tasks_Some)
next
  case (RequeueOp ts i)
  with free show ?thesis by (auto simp: token_free_def requeue_failed_def)
qed

lemma token_free_run:
  assumes "table_ok is_object rows" "token_free k rows" "list_all (\<lambda>op. \<not> draws k op) ops"
  shows "token_free k (run_queue is_object ops rows)"
  using assms by (induction ops arbitrary: rows) (auto simp: token_free_step queue_step_table_ok)

end
