(* ===== verification/Queue_Guarantees.thy ===== *)
theory Queue_Guarantees
  imports Queue_Runs
begin

text \<open>
  The guarantees of the outbox queue, over \<open>Postgres_Queue\<close> and \<open>Queue_Runs\<close>: constraints,
  bounded and exclusive delivery, fenced settlement, recovery, and the local deadline.
\<close>

section \<open>Order and success\<close>

lemma sorted_take_le:
  assumes "x \<in> set (sort_key k xs)" "x \<notin> set (take n (sort_key k xs))" "y \<in> set (take n (sort_key k xs))"
  shows "k y \<le> k x" "n \<le> length xs"
proof -
  let ?ys = "sort_key k xs"
  have "x \<in> set (drop n ?ys)" using assms(1,2) by (metis append_take_drop_id set_append Un_iff)
  moreover have "sorted (map k (take n ?ys @ drop n ?ys))" by simp
  ultimately show "k y \<le> k x" using assms(3) unfolding map_append sorted_append by auto
  from \<open>x \<in> set (drop n ?ys)\<close> show "n \<le> length xs"
    by (metis drop_all length_sort list.distinct(1) list.set_cases nat_le_linear)
qed

lemma not_taken_later:
  assumes ok: "table_ok is_object rows" and x: "x \<in> set rows" "is_ready tx fmt x" "\<not> tx_locked tx (ob_id x)"
    and nt: "ob_id x \<notin> set (ready_ids tx fmt limit rows)"
    and y: "y \<in> set rows" "ob_id y \<in> set (ready_ids tx fmt limit rows)"
  shows "(ob_available_at y, ob_id y) \<le> (ob_available_at x, ob_id x)"
proof -
  let ?P = "\<lambda>r. is_ready tx fmt r \<and> \<not> tx_locked tx (ob_id r)"
  let ?k = "\<lambda>r. (ob_available_at r, ob_id r)"
  let ?ys = "sort_key ?k (filter ?P rows)"
  have "x \<in> set ?ys" using x by simp
  moreover have "x \<notin> set (take limit ?ys)" using nt by (auto simp: ready_ids_def)
  moreover have "y \<in> set (take limit ?ys)"
  proof -
    from y(2) obtain z where z: "z \<in> set (take limit ?ys)" "ob_id z = ob_id y"
      by (auto simp: ready_ids_def)
    then have "z \<in> set rows" using in_set_takeD by fastforce
    with table_ok_unique [OF ok this y(1) z(2)] z show ?thesis by simp
  qed
  ultimately show ?thesis by (rule sorted_take_le(1))
qed

lemma ready_ids_full:
  assumes ok: "table_ok is_object rows" and x: "x \<in> set rows" "is_ready tx fmt x" "\<not> tx_locked tx (ob_id x)"
    and nt: "ob_id x \<notin> set (ready_ids tx fmt limit rows)"
  shows "length (ready_ids tx fmt limit rows) = limit"
proof -
  let ?xs = "filter (\<lambda>r. is_ready tx fmt r \<and> \<not> tx_locked tx (ob_id r)) rows"
  have "\<not> length ?xs \<le> limit"
  proof
    assume "length ?xs \<le> limit"
    with x have "x \<in> set (take limit (sort_key (\<lambda>r. (ob_available_at r, ob_id r)) ?xs))" by simp
    with nt show False by (auto simp: ready_ids_def)
  qed
  then show ?thesis by (simp add: ready_ids_def)
qed

lemma distinct_ready_ids:
  assumes "table_ok is_object rows"
  shows "distinct (ready_ids tx fmt limit rows)"
proof -
  have "distinct (map ob_id (sort_key k (filter P rows)))" for P and k :: "'a OutboxRow \<Rightarrow> int \<times> Uuid"
    using assms by (auto simp: table_ok_def distinct_map inj_on_def)
  then show ?thesis unfolding ready_ids_def by (metis (no_types, lifting) distinct_take take_map)
qed

text \<open>Without a fault a claim and a recovery succeed: the constraints never stop them.\<close>

lemma map_decoded:
  assumes "\<And>x. x \<in> set xs \<Longrightarrow> \<exists>c t. f x = Some c \<and> g c = Ok t"
  shows "\<exists>cs ts. map f xs = map Some cs \<and> map g cs = map Ok ts"
  using assms
proof (induction xs)
  case (Cons x xs)
  from Cons.prems [of x] obtain c t where "f x = Some c" "g c = Ok t" by auto
  moreover from Cons.IH Cons.prems obtain cs ts where "map f xs = map Some cs" "map g cs = map Ok ts"
    by auto
  ultimately show ?case by (intro exI [of _ "c # cs"] exI [of _ "t # ts"]) simp
qed simp

lemma claim_succeeds:
  assumes ok: "table_ok is_object rows" and "tx_fault tx = NoFault" "0 < as_millis lease_duration"
    and "int (as_millis lease_duration) \<le> i64_max" "int limit \<le> i64_max"
    and dl: "instant_checked_add now lease_duration = Some dl"
    and add: "tx_add_ms tx (tx_clock_timestamp tx) (int (as_millis lease_duration)) \<noteq> None"
  shows "\<exists>rows' ts. claim is_object tx now rows fmt owner limit lease_duration = (rows', Ok ts)"
proof -
  let ?ms = "int (as_millis lease_duration)"
  let ?rows' = "claimed_rows tx fmt owner limit ?ms rows"
  let ?taken = "filter (\<lambda>r. ob_id r \<in> set (ready_ids tx fmt limit rows)) ?rows'"
  have taken: "\<exists>c t. ClaimRow_from_row r' = Some c \<and> into_claimed_task is_object fmt dl c = Ok t"
    if "r' \<in> set ?taken" for r'
  proof -
    from that have "r' \<in> set ?rows'" "ob_id r' \<in> set (ready_ids tx fmt limit rows)" by auto
    from claimed_rows_mem [OF ok add this] obtain r where
      r: "r \<in> set rows" "is_ready tx fmt r" "claim_row tx owner ?ms r = Some r'" "row_ok is_object r'" by blast
    then have "ob_status r = ''pending''" by (simp add: is_ready_def)
    note row = claim_row_ok [OF table_okD [OF ok r(1)] this r(3)]
    have "0 < ob_attempts r'" using row(3) table_okD [OF ok r(1)] by (simp add: row_ok_def)
    with row r(4) show ?thesis
      by (auto simp: ClaimRow_from_row_def into_claimed_task_def TaskAttempt_new_def validate_payload_def
          validate_metadata_def row_ok_def)
  qed
  from map_decoded [of ?taken ClaimRow_from_row "into_claimed_task is_object fmt dl"] taken
  obtain cs ts where "map ClaimRow_from_row ?taken = map Some cs"
    "map (into_claimed_task is_object fmt dl) cs = map Ok ts" by blast
  then show ?thesis
    using assms claimed_rows_table_ok(2) [OF ok add, of fmt limit owner]
    by (auto simp: claim_def begin_queue_transaction_def milliseconds_def i64_try_from_def
        claim_statement_def Let_def those_eq_Some collect_results_Ok_iff tx_commit_def
        split: option.splits result.splits)
qed

lemma recover_loop_succeeds:
  assumes "table_ok is_object rows" "distinct (map rw_id ex)"
    and "\<And>e. e \<in> set ex \<Longrightarrow> \<exists>r\<in>set rows. e = RecoveryRow_from_row r \<and> ob_status r = ''processing''"
    and ms: "\<And>i n. int (as_millis (backoff i n)) \<le> i64_max" and add: "\<And>t n. tx_add_ms tx t n \<noteq> None"
  shows "\<exists>new failed'. recover_loop is_object tx backoff ex rows failed = Ok (new, failed')"
  using assms(1-3)
proof (induction ex arbitrary: rows failed)
  case (Cons e ex)
  from Cons.prems(3) [of e] obtain r where r: "r \<in> set rows" "e = RecoveryRow_from_row r"
    "ob_status r = ''processing''" by auto
  let ?ms = "int (as_millis (backoff (ob_id r) (ob_attempts r)))"
  have sel: "\<exists>r'. recover_row tx ?ms x = Some r' \<and> row_ok is_object r'"
    if x: "x \<in> set rows" "ob_id x = ob_id r" for x
  proof -
    from table_ok_unique [OF Cons.prems(1) x(1) r(1) x(2)] have "x = r" .
    moreover from add [of "tx_update_timestamp tx (ob_id r)" ?ms] obtain r' where "recover_row tx ?ms r = Some r'" by (auto simp: recover_row_def)
    ultimately show ?thesis using recover_row_ok(1) [OF table_okD [OF Cons.prems(1) r(1)] r(3)] by blast
  qed
  obtain mid where
    mid: "update_rows is_object (\<lambda>x. ob_id x = ob_id r) (recover_row tx ?ms) rows = Some mid"
    using update_rows_succeeds [of rows "\<lambda>x. ob_id x = ob_id r" "recover_row tx ?ms" is_object] sel by blast
  note turn = recover_turn [where backoff = backoff, OF Cons.prems(1) r(1,3) mid]
  have "\<exists>r'\<in>set mid. e' = RecoveryRow_from_row r' \<and> ob_status r' = ''processing''" if "e' \<in> set ex" for e'
  proof -
    from Cons.prems(3) [of e'] that obtain r' where
      r': "r' \<in> set rows" "e' = RecoveryRow_from_row r'" "ob_status r' = ''processing''" by auto
    moreover have "ob_id r' \<noteq> ob_id r"
      using Cons.prems(2) that r' r by (auto simp: RecoveryRow_from_row_def image_iff)
    ultimately have "r' \<in> set mid"
      unfolding turn(1) recovered_rows_def by (auto intro: rev_image_eqI)
    with r' show ?thesis by blast
  qed
  with Cons.IH [OF turn(2)] Cons.prems(2)
  have "\<exists>new failed'. recover_loop is_object tx backoff ex mid f = Ok (new, failed')" for f by simp
  moreover from table_okD [OF Cons.prems(1) r(1)] r(2)
  have "\<exists>f. into_failure e = Ok f"
    by (auto simp: into_failure_def RecoveryRow_from_row_def TaskFormat_new_def row_ok_def)
  ultimately show ?case
    using mid ms r(2) by (auto simp: milliseconds_def i64_try_from_def RecoveryRow_from_row_def)
qed simp

lemma recover_succeeds:
  assumes ok: "table_ok is_object rows" and "tx_fault tx = NoFault" "int limit \<le> i64_max"
    and ms: "\<And>i n. int (as_millis (backoff i n)) \<le> i64_max" and add: "\<And>t n. tx_add_ms tx t n \<noteq> None"
  shows "\<exists>rows' report. recover_expired is_object tx backoff rows limit = (rows', Ok report)"
proof -
  have "\<exists>r\<in>set rows. e = RecoveryRow_from_row r \<and> ob_status r = ''processing''"
    if "e \<in> set (expired_rows tx limit rows)" for e
    using expired_rows_props(3) [OF ok that] by (auto simp: is_expired_def)
  then obtain new failed where "recover_loop is_object tx backoff (expired_rows tx limit rows) rows [] = Ok (new, failed)"
    using recover_loop_succeeds [OF ok expired_rows_props(2) [OF ok], of tx limit backoff tx "[]"] ms add by blast
  with assms(2,3) show ?thesis
    by (auto simp: recover_expired_def begin_queue_transaction_def i64_try_from_def Let_def tx_commit_def)
qed

lemma expired_rows_all:
  assumes "r \<in> set rows" "is_expired tx r" "\<not> tx_locked tx (ob_id r)"
    and "length (filter (is_expired tx) rows) \<le> limit"
  shows "ob_id r \<in> rw_id ` set (expired_rows tx limit rows)"
proof -
  let ?xs = "filter (\<lambda>r. is_expired tx r \<and> \<not> tx_locked tx (ob_id r)) rows"
  have "length ?xs \<le> length (filter (is_expired tx) rows)"
    by (induction rows) auto
  with assms(4) have "length ?xs \<le> limit" by simp
  with assms(1-3) have "r \<in> set (take limit (sort_key (\<lambda>r. (the (ob_locked_until r), ob_id r)) ?xs))" by simp
  then show ?thesis by (force simp: expired_rows_def RecoveryRow_from_row_def)
qed

section \<open>What the task API builds\<close>

text \<open>
  The tasks a caller can build: \<open>NewTask\<close> has no public fields, so that every value comes from \<open>new\<close>
  or \<open>from_payload\<close> and the three setters (\<open>task/data/new_task.rs\<close>), whose limit of attempts is an \<open>i32\<close>.
\<close>

inductive built_task :: "('v \<Rightarrow> bool) \<Rightarrow> 'v \<Rightarrow> 'v NewTask \<Rightarrow> bool" for is_object empty_object where
  built_new: "NewTask_new is_object empty_object v4 payload = Ok t \<Longrightarrow> built_task is_object empty_object t"
| built_payload: "TaskFormat_new ty version = Ok fmt \<Longrightarrow> NewTask_from_payload is_object empty_object v4 fmt payload = Ok t \<Longrightarrow>
     built_task is_object empty_object t"
| built_scheduled: "built_task is_object empty_object t \<Longrightarrow> NewTask_scheduled schedule t = Ok t' \<Longrightarrow>
     built_task is_object empty_object t'"
| built_metadata: "built_task is_object empty_object t \<Longrightarrow> NewTask_with_metadata is_object metadata t = Ok t' \<Longrightarrow>
     built_task is_object empty_object t'"
| built_attempts: "built_task is_object empty_object t \<Longrightarrow> n \<le> i32_max \<Longrightarrow> NewTask_with_max_attempts n t = Ok t' \<Longrightarrow>
     built_task is_object empty_object t'"

lemma built_task_ok:
  assumes "is_object empty_object" "built_task is_object empty_object t"
  shows "new_task_ok is_object t \<and> nt_max_attempts t \<le> i32_max"
  using assms(2)
proof induction
  case (built_new v4 payload t)
  then show ?case using new_task_ok_new [where is_object = is_object, OF assms(1)] by (simp add: i32_max_def)
next
  case (built_payload ty version fmt v4 payload t)
  then show ?case using assms(1) by (auto simp: task_data_defs new_task_ok_def format_ok_def i32_max_def split: if_splits)
next
  case (built_scheduled t schedule t')
  then have "nt_max_attempts t' = nt_max_attempts t" by (auto simp: NewTask_scheduled_def)
  with built_scheduled new_task_ok_setters(1) show ?case by metis
next
  case (built_metadata t metadata t')
  then have "nt_max_attempts t' = nt_max_attempts t" by (auto simp: NewTask_with_metadata_def)
  with built_metadata new_task_ok_setters(2) show ?case by metis
next
  case (built_attempts t n t')
  then have "nt_max_attempts t' = n" by (auto simp: NewTask_with_max_attempts_def split: if_splits)
  with built_attempts new_task_ok_setters(3) show ?case by metis
qed

lemma outbox_row_ok:
  assumes "new_task_ok is_object t" "nt_max_attempts t \<le> i32_max" "0 < sequence" "outbox_row tx ty aid sequence t = Some r"
  shows "row_ok is_object r" "ob_id r = nt_id t"
  using assms by (auto simp: outbox_row_def new_task_ok_def format_ok_def row_ok_def split: prod.splits)

lemma outbox_rows_ok:
  assumes "\<And>t. t \<in> set tasks \<Longrightarrow> new_task_ok is_object t \<and> nt_max_attempts t \<le> i32_max" "0 < sequence"
    and "map (outbox_row tx ty aid sequence) tasks = map Some new"
  shows "list_all (row_ok is_object) new" "map ob_id new = map nt_id tasks"
proof -
  have "list_all2 (\<lambda>t r. outbox_row tx ty aid sequence t = Some r) tasks new"
    using assms(3) by (auto simp: list_all2_conv_all_nth list_eq_iff_nth_eq)
  then have "list_all2 (\<lambda>t r. row_ok is_object r \<and> ob_id r = nt_id t) tasks new"
    by (rule list.rel_mono_strong) (use assms(1,2) outbox_row_ok in blast)
  then show "list_all (row_ok is_object) new" "map ob_id new = map nt_id tasks"
    by (induction rule: list_all2_induct) simp_all
qed


section \<open>A small outbox for the witnesses\<close>

definition demo_format :: TaskFormat where
  "demo_format = \<lparr>task_type = lit ''create_account'', task_version = 1\<rparr>"

definition demo_row :: "Uuid \<Rightarrow> unit OutboxRow" where
  "demo_row i = \<lparr> ob_id = i, ob_aggregate_type = lit ''email_reservation'', ob_aggregate_id = lit ''a@b.c'',
     ob_aggregate_sequence = 3, ob_task_type = lit ''create_account'', ob_task_version = 1,
     ob_payload = (), ob_metadata = (), ob_status = ''pending'', ob_available_at = 50,
     ob_finished_at = None, ob_attempts = 0, ob_max_attempts = 2, ob_last_error = None,
     ob_locked_by = None, ob_lock_token = None, ob_locked_until = None \<rparr>"

definition demo_leased_row :: "Uuid \<Rightarrow> int \<Rightarrow> unit OutboxRow" where
  "demo_leased_row i until = (demo_row i)\<lparr>ob_status := ''processing'', ob_attempts := 1,
     ob_locked_by := Some (lit ''w''), ob_lock_token := Some (i + 100), ob_locked_until := Some until\<rparr>"

definition demo_tx :: "int \<Rightarrow> Tx" where
  "demo_tx t = \<lparr> tx_fault = NoFault, tx_statement_timestamp = t, tx_clock_timestamp = t,
     tx_update_timestamp = (\<lambda>_. t), tx_locked = (\<lambda>_. False), tx_gen_random_uuid = (\<lambda>i. i + 100),
     tx_add_ms = (\<lambda>u n. Some (u + 1000 * n)), tx_timestamptz = (\<lambda>u. u div 1000) \<rparr>"

definition demo_task :: "Uuid \<Rightarrow> unit LeasedTask" where
  "demo_task i = \<lparr> lt_attempt = \<lparr> ta_id = i, ta_format = demo_format, ta_payload = (),
     ta_metadata = (), ta_number = 1 \<rparr>, lt_lease = \<lparr> tl_lock_token = i + 100, tl_deadline = 0 \<rparr> \<rparr>"

definition any_object :: "unit \<Rightarrow> bool" where
  "any_object v = True"

lemmas demo_queue_defs = demo_format_def demo_row_def demo_leased_row_def demo_tx_def demo_task_def
  any_object_def lit_def

lemma demo_table_ok: "table_ok any_object [demo_row 1, demo_leased_row 2 900]"
  by (simp add: table_ok_def row_ok_def demo_queue_defs i32_max_def)

lemma demo_claim:
  "claim any_object (demo_tx 100) 0 [demo_row 1, demo_leased_row 2 900] demo_format (lit ''w'') 5 7000000 =
     ([demo_leased_row 1 7100, demo_leased_row 2 900],
      Ok [\<lparr> lt_attempt = \<lparr> ta_id = 1, ta_format = demo_format, ta_payload = (), ta_metadata = (),
            ta_number = 1 \<rparr>, lt_lease = \<lparr> tl_lock_token = 101, tl_deadline = 7000000 \<rparr> \<rparr>])"
  by (simp add: claim_def rust_defs begin_queue_transaction_def milliseconds_def
      claim_statement_def Let_def ready_ids_def is_ready_def claim_row_def row_ok_def
      ClaimRow_from_row_def into_claimed_task_def TaskAttempt_new_def validate_payload_def
      validate_metadata_def tx_commit_def demo_queue_defs)

section \<open>Properties\<close>








text \<open>
  C25. A claim without faults succeeds, and what it hands out is: at most the limit, distinct,
  rows that were ready and not locked by another transaction, each now leased to this claim under
  a new token with its attempt counted, and the earliest ones, so that a ready row is left only
  behind a full batch of rows available no later.
\<close>

theorem claim_takes_ready_tasks:
  assumes ok: "table_ok is_object rows" and "tx_fault tx = NoFault" "0 < as_millis lease_duration"
    and "int (as_millis lease_duration) \<le> i64_max" "int limit \<le> i64_max"
    and dl: "instant_checked_add now lease_duration = Some dl"
    and "tx_add_ms tx (tx_clock_timestamp tx) (int (as_millis lease_duration)) \<noteq> None"
  shows "\<exists>rows' ts. claim is_object tx now rows fmt owner limit lease_duration = (rows', Ok ts) \<and>
    length ts \<le> limit \<and> distinct (map (\<lambda>t. ta_id (lt_attempt t)) ts) \<and>
    (\<forall>t\<in>set ts. \<exists>r\<in>set rows. \<exists>r'\<in>set rows'.
       is_ready tx fmt r \<and> \<not> tx_locked tx (ob_id r) \<and> same_task r r' \<and> is_owned t r' \<and>
       ta_payload (lt_attempt t) = ob_payload r \<and> ta_number (lt_attempt t) = ob_attempts r + 1 \<and>
       tl_lock_token (lt_lease t) = tx_gen_random_uuid tx (ob_id r)) \<and>
    (\<forall>x\<in>set rows. is_ready tx fmt x \<and> \<not> tx_locked tx (ob_id x) \<and>
       ob_id x \<notin> set (map (\<lambda>t. ta_id (lt_attempt t)) ts) \<longrightarrow>
       length ts = limit \<and> (\<forall>y\<in>set rows. ob_id y \<in> set (map (\<lambda>t. ta_id (lt_attempt t)) ts) \<longrightarrow>
         (ob_available_at y, ob_id y) \<le> (ob_available_at x, ob_id x)))"
proof -
  from claim_succeeds [OF assms] obtain rows' ts where
    cl: "claim is_object tx now rows fmt owner limit lease_duration = (rows', Ok ts)" by blast
  note ids = claimed_ids [OF ok cl]
  have len: "length ts = length (ready_ids tx fmt limit rows)"
    using ids(1,2) distinct_ready_ids [OF ok] by (metis distinct_card length_map)
  have "\<exists>r\<in>set rows. \<exists>r'\<in>set rows'. is_ready tx fmt r \<and> \<not> tx_locked tx (ob_id r) \<and> same_task r r' \<and>
      is_owned t r' \<and> ta_payload (lt_attempt t) = ob_payload r \<and>
      ta_number (lt_attempt t) = ob_attempts r + 1 \<and>
      tl_lock_token (lt_lease t) = tx_gen_random_uuid tx (ob_id r)" if t: "t \<in> set ts" for t
  proof -
    from ok cl t obtain r r' dl where r: "r \<in> set rows" "is_ready tx fmt r" "\<not> tx_locked tx (ob_id r)"
      "r' \<in> set rows'" "claim_row tx owner (int (as_millis lease_duration)) r = Some r'" "same_task r r'"
      "t = leased_from fmt dl r'" "is_owned t r'" by (rule claimed_task)
    then have "ob_status r = ''pending''" by (simp add: is_ready_def)
    note row = claim_row_ok [OF table_okD [OF ok r(1)] this r(5)]
    show ?thesis
      by (intro bexI [OF _ r(1)] bexI [OF _ r(4)])
        (use r row in \<open>simp add: leased_from_def same_task_def\<close>)
  qed
  moreover have "length ts = limit \<and> (\<forall>y\<in>set rows. ob_id y \<in> set (map (\<lambda>t. ta_id (lt_attempt t)) ts) \<longrightarrow>
      (ob_available_at y, ob_id y) \<le> (ob_available_at x, ob_id x))"
    if "x \<in> set rows" "is_ready tx fmt x \<and> \<not> tx_locked tx (ob_id x) \<and>
      ob_id x \<notin> set (map (\<lambda>t. ta_id (lt_attempt t)) ts)" for x
    using that ready_ids_full [OF ok that(1)] not_taken_later [OF ok that(1)]
    unfolding ids(2) len by blast
  ultimately show ?thesis using cl ids(1,3) by blast
qed

theorem claim_takes_ready_tasks_witness:
  "\<exists>rows' ts. claim any_object (demo_tx 100) 0 [demo_row 1, demo_leased_row 2 900] demo_format (lit ''w'') 5
     7000000 = (rows', Ok ts) \<and> length ts \<le> 5"
  using claim_takes_ready_tasks [OF demo_table_ok, of "demo_tx 100" 7000000 5 0 7000000 demo_format "lit ''w''"]
  by (auto simp: demo_tx_def rust_defs)

text \<open>
  C15. Fencing: a settlement takes effect exactly when some row still carries the task's token, is
  processing and has not expired; then exactly that row changes, to the outcome the result names;
  otherwise the result is \<open>OwnershipLost\<close> and the table stays as it is.
\<close>

theorem settlement_is_fenced:
  assumes ok: "table_ok is_object rows" and se: "settle is_object tx rows task request = (rows', Ok res)"
  shows "if \<exists>r\<in>set rows. is_owned task r \<and> is_live tx r
    then \<exists>r\<in>set rows. \<exists>r'. is_owned task r \<and> is_live tx r \<and> same_task r r' \<and> rows' = replace_row r' rows \<and>
      res = settled_result request (lt_attempt task) r \<and> ob_attempts r' = ob_attempts r \<and>
      ob_lock_token r' = None \<and>
      ob_status r' = (case res of SettlementResult.Completed \<Rightarrow> ''completed''
        | SettlementResult.RetryScheduled \<Rightarrow> ''pending'' | _ \<Rightarrow> ''failed'')
    else res = SettlementResult.OwnershipLost \<and> rows' = rows"
  using ok se
proof (cases rule: settle_cases)
  case unchanged
  then show ?thesis by auto
next
  case (settled r r' ms)
  then have "row_ok is_object r" "ob_status r = ''processing''"
    using table_okD [OF ok settled(1)] by (auto simp: is_owned_def)
  note row = settle_row_ok [OF this settlement_parameters_status settled(4)]
  from settled(9) have res: "res = settled_result request (lt_attempt task) r" by simp
  then have st: "ob_status r' = (case res of SettlementResult.Completed \<Rightarrow> ''completed''
        | SettlementResult.RetryScheduled \<Rightarrow> ''pending'' | _ \<Rightarrow> ''failed'')"
    using row(5) by (cases request) (simp_all add: settled_result_def Let_def)
  have owner: "\<exists>r\<in>set rows. is_owned task r \<and> is_live tx r" using settled(1-3) by blast
  show ?thesis
    unfolding if_P [OF owner]
    by (intro bexI [OF _ settled(1)] exI [of _ r'] conjI)
      (fact settled(2) settled(3) settled(7) settled(8) res row(3) row(4) st)+
qed

lemma demo_settle:
  "settle any_object (demo_tx 100) [demo_row 1, demo_leased_row 2 900] (demo_task 2) SettlementRequest.Completed =
     ([demo_row 1, (demo_row 2)\<lparr>ob_status := ''completed'', ob_attempts := 1, ob_finished_at := Some 100\<rparr>],
      Ok SettlementResult.Completed)"
  by (simp add: settle_def begin_queue_transaction_def milliseconds_def rust_defs settle_statement_def
      is_owned_def is_live_def settle_row_def row_ok_def settlement_result_def tx_commit_def demo_queue_defs)

theorem settlement_is_fenced_witness:
  "\<exists>r\<in>set [demo_row 1, demo_leased_row 2 900].
     is_owned (demo_task 2) r \<and> is_live (demo_tx 100) r \<and>
     SettlementResult.Completed = settled_result SettlementRequest.Completed (lt_attempt (demo_task 2)) r"
  using settlement_is_fenced [OF demo_table_ok demo_settle]
  by (auto simp: is_owned_def is_live_def demo_queue_defs split: if_splits)

text \<open>
  C14. A lease settles at most once: after a settlement has been applied, whatever operations
  follow, a second settlement under the same lease finds no row to change, as long as no later
  claim draws the same random token.
\<close>

theorem lease_settles_at_most_once:
  assumes ok: "table_ok is_object rows"
    and first: "settle is_object tx rows task request = (rows1, Ok res)" "is_applied res"
    and alone: "\<forall>r\<in>set rows. ob_lock_token r = Some (tl_lock_token (lt_lease task)) \<longrightarrow>
      ob_id r = ta_id (lt_attempt task)"
    and ops: "list_all (\<lambda>op. \<not> draws (tl_lock_token (lt_lease task)) op) ops"
    and second: "settle is_object tx' (run_queue is_object ops rows1) task request' = (rows2, Ok res')"
  shows "res' = SettlementResult.OwnershipLost \<and> rows2 = run_queue is_object ops rows1"
proof -
  let ?k = "tl_lock_token (lt_lease task)"
  have "table_ok is_object rows1"
    using queue_step_table_ok [OF ok, of "SettleOp tx task request"] first(1) by simp
  moreover from ok first(1) have "token_free ?k rows1"
  proof (cases rule: settle_cases)
    case unchanged
    with first(2) show ?thesis by (simp add: is_applied_def)
  next
    case (settled r r' ms)
    then have "ob_lock_token r' = None" "ob_id r' = ta_id (lt_attempt task)"
      by (auto simp: settle_row_def is_owned_def same_task_def)
    with settled(8) alone show ?thesis by (auto simp: token_free_def replace_row_def)
  qed
  ultimately have "table_ok is_object (run_queue is_object ops rows1)"
    and "token_free ?k (run_queue is_object ops rows1)"
    using run_queue_table_ok token_free_run ops by blast+
  with second show ?thesis
    by (cases rule: settle_cases [rotated]) (auto simp: token_free_def is_owned_def)
qed

theorem lease_settles_at_most_once_witness:
  "settle any_object (demo_tx 200) (run_queue any_object []
     [demo_row 1, (demo_row 2)\<lparr>ob_status := ''completed'', ob_attempts := 1, ob_finished_at := Some 100\<rparr>])
     (demo_task 2) SettlementRequest.Completed =
   ([demo_row 1, (demo_row 2)\<lparr>ob_status := ''completed'', ob_attempts := 1, ob_finished_at := Some 100\<rparr>],
    Ok SettlementResult.OwnershipLost)"
proof -
  have "\<exists>rows2 res'. settle any_object (demo_tx 200) (run_queue any_object []
     [demo_row 1, (demo_row 2)\<lparr>ob_status := ''completed'', ob_attempts := 1, ob_finished_at := Some 100\<rparr>])
     (demo_task 2) SettlementRequest.Completed = (rows2, Ok res')"
    by (simp add: settle_def begin_queue_transaction_def milliseconds_def rust_defs settle_statement_def
      is_owned_def settlement_result_def tx_commit_def demo_queue_defs)
  then obtain rows2 res' where second: "settle any_object (demo_tx 200) (run_queue any_object []
     [demo_row 1, (demo_row 2)\<lparr>ob_status := ''completed'', ob_attempts := 1, ob_finished_at := Some 100\<rparr>])
     (demo_task 2) SettlementRequest.Completed = (rows2, Ok res')" by blast
  with lease_settles_at_most_once [OF demo_table_ok demo_settle _ _ _ second]
  show ?thesis by (simp add: is_applied_def) (simp add: demo_queue_defs)
qed



text \<open>
  The local deadline is conservative: if the server grants the lease after the claim was
  started on the local clock, in whole milliseconds added to its wall clock, then the deadline a
  worker keeps is less than one millisecond after the row's expiry, and not after it when the
  lease is a whole number of milliseconds.
\<close>

theorem local_deadline_is_conservative:
  assumes ok: "table_ok is_object rows"
    and cl: "claim is_object tx now rows fmt owner limit lease_duration = (rows', Ok ts)"
    and t: "t \<in> set ts"
    and add: "\<And>u n v. tx_add_ms tx u n = Some v \<Longrightarrow> v = u + 1000 * n"
    and anchored: "now + offset \<le> 1000 * tx_clock_timestamp tx"
  shows "\<exists>r'\<in>set rows'. \<exists>until. is_owned t r' \<and> ob_locked_until r' = Some until \<and>
    tl_deadline (lt_lease t) + offset < 1000 * until + 1000000 \<and>
    (lease_duration mod 1000000 = 0 \<longrightarrow> tl_deadline (lt_lease t) + offset \<le> 1000 * until)"
proof -
  from ok cl t obtain r r' dl where r: "r \<in> set rows" "is_ready tx fmt r" "r' \<in> set rows'"
    "claim_row tx owner (int (as_millis lease_duration)) r = Some r'"
    "instant_checked_add now lease_duration = Some dl" "t = leased_from fmt dl r'" "is_owned t r'"
    by (rule claimed_task)
  from r(2) have "ob_status r = ''pending''" by (simp add: is_ready_def)
  note row = claim_row_ok [OF table_okD [OF ok r(1)] this r(4)]
  from r(4) obtain until where until: "tx_add_ms tx (tx_clock_timestamp tx) (int (as_millis lease_duration)) = Some until"
    by (auto simp: claim_row_def)
  from add [OF this] have u: "1000 * until = 1000 * tx_clock_timestamp tx + 1000000 * int (lease_duration div 1000000)"
    by (simp add: as_millis_def nanos_per_milli_def)
  have split: "int lease_duration = 1000000 * int (lease_duration div 1000000) + int (lease_duration mod 1000000)"
    by (metis mult_div_mod_eq of_nat_add of_nat_mult of_nat_numeral)
  have "int (lease_duration mod 1000000) < 1000000" by simp
  moreover have dl: "tl_deadline (lt_lease t) = now + int lease_duration"
    using r(5,6) by (auto simp: leased_from_def instant_checked_add_def split: if_splits)
  ultimately have "tl_deadline (lt_lease t) + offset < 1000 * until + 1000000"
    using u anchored split by linarith
  moreover have "lease_duration mod 1000000 = 0 \<longrightarrow> tl_deadline (lt_lease t) + offset \<le> 1000 * until"
    using u anchored split dl by auto
  ultimately show ?thesis using r(3,7) row(6) until by auto
qed

theorem local_deadline_is_conservative_witness:
  "\<exists>r'\<in>set [demo_leased_row 1 7100, demo_leased_row 2 900]. \<exists>until. ob_locked_until r' = Some until \<and>
     (7000000::int) \<le> 1000 * until"
  using local_deadline_is_conservative [OF demo_table_ok demo_claim, where offset = 0]
  by (auto simp: demo_tx_def)

end
