(* ===== verification/Polling.thy ===== *)
theory Polling
  imports Runtime_Config Queue_Guarantees
begin

text \<open>
  What the runtime prepares and how it acquires work: \<open>runtime/dispatcher_factory.rs\<close>,
  \<open>runtime/preparation.rs\<close> and \<open>runtime/poller.rs\<close>.

  A dispatcher factory is a closure and may keep state of its own, which is threaded through its
  calls. The poller is a client of the queue port: its facts are proved from the laws of
  \<open>leased_queue\<close> and reach the PostgreSQL queue by the interpretation \<open>pg\<close>. Each of its calls
  sees the queue as the other users of it have left it (\<open>between\<close>), and a call that does not
  answer before the deadline may still have taken effect (\<open>lost\<close>), as the port warns.
\<close>

section \<open>Dispatchers of the workers\<close>

type_synonym ('f, 'v, 'w) TaskDispatcherFactory =
  "'f \<Rightarrow> 'f \<times> (('v, 'w) TaskDispatcher, TaskDispatcherError) result"

datatype WorkerSetupError = Build nat TaskDispatcherError | FormatsMismatch nat

definition build_checked_dispatcher ::
  "('f, 'v, 'w) TaskDispatcherFactory \<Rightarrow> TaskFormat list \<Rightarrow> nat \<Rightarrow> 'f
     \<Rightarrow> 'f \<times> (('v, 'w) TaskDispatcher, WorkerSetupError) result" where
  "build_checked_dispatcher factory formats worker_index f =
     (case factory f of
        (f', Err source) \<Rightarrow> (f', Err (Build worker_index source))
      | (f', Ok dispatcher) \<Rightarrow>
          (f', if di_formats dispatcher = formats then Ok dispatcher else Err (FormatsMismatch worker_index)))"

text \<open>\<open>collect\<close> into a \<open>Result\<close> stops at the first error: the later dispatchers are not built.\<close>

fun build_all ::
  "('f, 'v, 'w) TaskDispatcherFactory \<Rightarrow> TaskFormat list \<Rightarrow> nat list \<Rightarrow> 'f
     \<Rightarrow> 'f \<times> (('v, 'w) TaskDispatcher list, WorkerSetupError) result" where
  "build_all factory formats [] f = (f, Ok [])"
| "build_all factory formats (index # rest) f =
     (case build_checked_dispatcher factory formats index f of
        (f', Err e) \<Rightarrow> (f', Err e)
      | (f', Ok d) \<Rightarrow>
          (case build_all factory formats rest f' of
             (f'', Err e) \<Rightarrow> (f'', Err e)
           | (f'', Ok ds) \<Rightarrow> (f'', Ok (d # ds))))"

definition startup_dispatchers ::
  "('f, 'v, 'w) TaskDispatcherFactory \<Rightarrow> nat \<Rightarrow> 'f
     \<Rightarrow> 'f \<times> (('v, 'w) TaskDispatcher list, WorkerSetupError) result" where
  "startup_dispatchers factory concurrency f =
     (case factory f of
        (f', Err source) \<Rightarrow> (f', Err (Build 0 source))
      | (f', Ok first) \<Rightarrow>
          (case build_all factory (di_formats first) [1..<concurrency] f' of
             (f'', Err e) \<Rightarrow> (f'', Err e)
           | (f'', Ok ds) \<Rightarrow> (f'', Ok (first # ds))))"

record ('v, 'w) TaskRuntime =
  tr_storage_timeout :: duration
  tr_config :: TaskWorkerPoolConfig
  tr_dispatchers :: "('v, 'w) TaskDispatcher list"

definition prepare ::
  "('f, 'v, 'w) TaskDispatcherFactory \<Rightarrow> TaskRuntimeConfig \<Rightarrow> 'f
     \<Rightarrow> 'f \<times> (('v, 'w) TaskRuntime, WorkerSetupError) result" where
  "prepare factory config f =
     (case into_parts config of (storage_config, worker_config) \<Rightarrow>
      case startup_dispatchers factory (wc_concurrency worker_config) f of
        (f', Err e) \<Rightarrow> (f', Err e)
      | (f', Ok dispatchers) \<Rightarrow>
          (f', Ok \<lparr> tr_storage_timeout = sc_storage_timeout storage_config, tr_config = worker_config,
                    tr_dispatchers = dispatchers \<rparr>))"

section \<open>The poller\<close>

record Poller =
  po_formats :: "TaskFormat list"
  po_next_format_start :: "64 word"
  po_storage_timeout :: duration

definition Poller_new :: "TaskFormat list \<Rightarrow> duration \<Rightarrow> Poller" where
  "Poller_new formats storage_timeout =
     \<lparr> po_formats = formats, po_next_format_start = 0, po_storage_timeout = storage_timeout \<rparr>"

text \<open>
  \<open>timeout_at\<close> around a queue call: \<open>None\<close> when the call answers in time, \<open>Some committed\<close> when the
  deadline passes first.
\<close>

definition with_deadline ::
  "bool option \<Rightarrow> ('q \<Rightarrow> 'q \<times> ('a, TaskProcessingError) result) \<Rightarrow> 'q \<Rightarrow> 'q \<times> ('a, TaskProcessingError) result" where
  "with_deadline lost call q =
     (case lost of
        None \<Rightarrow> call q
      | Some committed \<Rightarrow> (if committed then fst (call q) else q, Err TimedOut))"

definition format_at :: "TaskFormat list \<Rightarrow> 64 word \<Rightarrow> nat \<Rightarrow> TaskFormat" where
  "format_at formats start offset = formats ! (unat (start + of_nat offset) mod length formats)"

text \<open>\<open>queue_claim k\<close> is the \<open>k\<close>th call of the queue's \<open>claim\<close>, with its own clocks and faults.\<close>

fun claim_loop ::
  "(nat \<Rightarrow> TaskFormat \<Rightarrow> rstring \<Rightarrow> nat \<Rightarrow> duration \<Rightarrow> 'q \<Rightarrow> 'q \<times> ('v LeasedTask list, TaskProcessingError) result)
     \<Rightarrow> (nat \<Rightarrow> bool option) \<Rightarrow> (nat \<Rightarrow> 'q \<Rightarrow> 'q) \<Rightarrow> TaskFormat list \<Rightarrow> 64 word \<Rightarrow> rstring \<Rightarrow> nat \<Rightarrow> duration
     \<Rightarrow> nat list \<Rightarrow> 'v LeasedTask list \<Rightarrow> 'q \<Rightarrow> 'q \<times> ('v LeasedTask list, TaskProcessingError) result" where
  "claim_loop queue_claim lost between formats start owner limit lease [] claimed q = (q, Ok claimed)"
| "claim_loop queue_claim lost between formats start owner limit lease (offset # offsets) claimed q =
     (if length claimed = limit then (q, Ok claimed)
      else
        case with_deadline (lost offset)
               (queue_claim offset (format_at formats start offset) owner (limit - length claimed) lease)
               (between offset q) of
          (q', Ok tasks) \<Rightarrow>
            claim_loop queue_claim lost between formats start owner limit lease offsets (claimed @ tasks) q'
        | (q', Err e) \<Rightarrow> if claimed \<noteq> [] then (q', Ok claimed) else (q', Err e))"

definition Poller_claim ::
  "(nat \<Rightarrow> TaskFormat \<Rightarrow> rstring \<Rightarrow> nat \<Rightarrow> duration \<Rightarrow> 'q \<Rightarrow> 'q \<times> ('v LeasedTask list, TaskProcessingError) result)
     \<Rightarrow> (nat \<Rightarrow> bool option) \<Rightarrow> (nat \<Rightarrow> 'q \<Rightarrow> 'q) \<Rightarrow> instant \<Rightarrow> Poller \<Rightarrow> rstring \<Rightarrow> nat \<Rightarrow> duration \<Rightarrow> 'q
     \<Rightarrow> (Poller \<times> 'q \<times> ('v LeasedTask list, TaskProcessingError) result) run" where
  "Poller_claim queue_claim lost between now self owner limit lease q =
     bind_run (instant_add now (po_storage_timeout self)) (\<lambda>deadline.
       let start = po_next_format_start self;
           (q', r) = claim_loop queue_claim lost between (po_formats self) start owner limit lease
             [0..<length (po_formats self)] [] q in
       Return (self\<lparr> po_next_format_start := start + 1 \<rparr>, q', r))"

definition Poller_recover_expired ::
  "(nat \<Rightarrow> 'q \<Rightarrow> 'q \<times> (LeaseRecoveryReport, TaskProcessingError) result) \<Rightarrow> bool option \<Rightarrow> Poller \<Rightarrow> nat \<Rightarrow> 'q
     \<Rightarrow> 'q \<times> (LeaseRecoveryReport, TaskProcessingError) result" where
  "Poller_recover_expired queue_recover lost self limit = with_deadline lost (queue_recover limit)"

section \<open>Facts\<close>

lemma build_all_Ok:
  "build_all factory formats indices f = (f', Ok ds) \<Longrightarrow>
     length ds = length indices \<and> (\<forall>d\<in>set ds. di_formats d = formats)"
  by (induction indices arbitrary: f f' ds)
    (auto simp: build_checked_dispatcher_def split: prod.splits result.splits if_splits)

lemma build_all_Err:
  "build_all factory formats indices f = (f', Err e) \<Longrightarrow>
     \<exists>i\<in>set indices. e = FormatsMismatch i \<or> (\<exists>source. e = Build i source)"
  by (induction indices arbitrary: f)
    (auto simp: build_checked_dispatcher_def split: prod.splits result.splits if_splits)

lemma format_at_mem: "formats \<noteq> [] \<Longrightarrow> format_at formats start offset \<in> set formats"
  by (simp add: format_at_def)

abbreviation work_id :: "'v LeasedTask \<Rightarrow> Uuid" where
  "work_id t \<equiv> ta_id (lt_attempt t)"

text \<open>Distinct work, each held in the queue and of one of the formats.\<close>

definition held_batch ::
  "('q \<Rightarrow> 'v LeasedTask \<Rightarrow> bool) \<Rightarrow> 'q \<Rightarrow> TaskFormat list \<Rightarrow> 'v LeasedTask list \<Rightarrow> bool" where
  "held_batch holds q formats ts \<longleftrightarrow> distinct (map work_id ts) \<and>
     (\<forall>t\<in>set ts. holds q t \<and> ta_format (lt_attempt t) \<in> set formats)"

context leased_queue
begin

text \<open>The claims of one round, for a queue whose leases the other users leave alone meanwhile.\<close>

lemma with_deadline_claim:
  assumes "qinv q" "with_deadline l (claim_q env fmt n) q = (q', r)"
  shows "qinv q'" "holds q t \<Longrightarrow> holds q' t" "r = Ok ts \<Longrightarrow> claim_q env fmt n q = (q', Ok ts)"
  using assms claim_inv [OF assms(1), of env fmt n] claim_keeps [OF assms(1), of t env fmt n]
  by (auto simp: with_deadline_def split: option.splits if_splits)

lemma claim_loop_inv:
  assumes "qinv q" "\<forall>k q. qinv q \<longrightarrow> qinv (between k q)"
    and "claim_loop (\<lambda>k fmt owner n lease. claim_q (mk_env k owner lease) fmt n) lost between formats start owner limit lease
      offsets claimed q = (q', r)"
  shows "qinv q'"
  using assms(1,3)
proof (induction offsets arbitrary: claimed q)
  case (Cons k ks)
  show ?case
  proof (cases "length claimed = limit")
    case True
    with Cons.prems show ?thesis by simp
  next
    case False
    obtain q1 r1 where wd: "with_deadline (lost k) (claim_q (mk_env k owner lease) (format_at formats start k)
        (limit - length claimed)) (between k q) = (q1, r1)" by (rule prod.exhaust)
    from with_deadline_claim(1) [OF _ wd] assms(2) Cons.prems(1) have "qinv q1" by simp
    with Cons.prems Cons.IH [of q1] False wd show ?thesis by (auto split: result.splits if_splits)
  qed
qed simp

lemma claim_loop_limit:
  assumes "qinv q" "\<forall>k q. qinv q \<longrightarrow> qinv (between k q)"
    and "claim_loop (\<lambda>k fmt owner n lease. claim_q (mk_env k owner lease) fmt n) lost between formats start owner limit lease
      offsets claimed q = (q', Ok ts)"
    and "length claimed \<le> limit"
  shows "length ts \<le> limit"
  using assms(1,3,4)
proof (induction offsets arbitrary: claimed q)
  case (Cons k ks)
  show ?case
  proof (cases "length claimed = limit")
    case True
    with Cons.prems show ?thesis by simp
  next
    case False
    obtain q1 r1 where wd: "with_deadline (lost k) (claim_q (mk_env k owner lease) (format_at formats start k)
        (limit - length claimed)) (between k q) = (q1, r1)" by (rule prod.exhaust)
    have qb: "qinv (between k q)" using assms(2) Cons.prems(1) by simp
    show ?thesis
    proof (cases r1)
      case (Ok us)
      with with_deadline_claim(3) [OF qb wd] claim_limit [OF qb] have "length us \<le> limit - length claimed" by blast
      with Cons.prems(3) False have "length (claimed @ us) \<le> limit" by simp
      with Cons.prems(2) Ok False wd Cons.IH [OF with_deadline_claim(1) [OF qb wd]] show ?thesis by simp
    next
      case (Err e)
      with Cons.prems False wd show ?thesis by (auto split: if_splits)
    qed
  qed
qed simp

lemma held_batch_keep: "held_batch holds q formats ts \<Longrightarrow> (\<And>t. holds q t \<Longrightarrow> holds q' t) \<Longrightarrow> held_batch holds q' formats ts"
  by (simp add: held_batch_def)

lemma held_batch_append:
  assumes q: "qinv q" "held_batch holds q formats claimed"
    and cl: "claim_q env fmt n q = (q', Ok us)" "fmt \<in> set formats"
  shows "held_batch holds q' formats (claimed @ us)"
proof -
  have "work_id u \<noteq> work_id t" if "u \<in> set us" "t \<in> set claimed" for u t
    using claim_fresh [OF q(1) cl(1) that(1)] q(2) that(2) by (simp add: held_batch_def)
  then have "set (map work_id claimed) \<inter> set (map work_id us) = {}" by fastforce
  moreover have "holds q' t" if "t \<in> set claimed" for t
    using claim_keeps [OF q(1), of t env fmt n] q(2) cl(1) that by (simp add: held_batch_def)
  ultimately show ?thesis
    using claim_distinct [OF q(1) cl(1)] claim_holds [OF q(1) cl(1)] q(2) cl(2)
    by (auto simp: held_batch_def)
qed

lemma claim_loop_held:
  assumes "qinv q" "\<forall>k q. qinv q \<longrightarrow> qinv (between k q)" "\<forall>k q t. qinv q \<longrightarrow> holds q t \<longrightarrow> holds (between k q) t"
    and "claim_loop (\<lambda>k fmt owner n lease. claim_q (mk_env k owner lease) fmt n) lost between formats start owner limit lease
      offsets claimed q = (q', Ok ts)"
    and "formats \<noteq> []" "held_batch holds q formats claimed"
  shows "held_batch holds q' formats ts"
  using assms(1,4,6)
proof (induction offsets arbitrary: claimed q)
  case (Cons k ks)
  show ?case
  proof (cases "length claimed = limit")
    case True
    with Cons.prems show ?thesis by simp
  next
    case False
    obtain q1 r1 where wd: "with_deadline (lost k) (claim_q (mk_env k owner lease) (format_at formats start k)
        (limit - length claimed)) (between k q) = (q1, r1)" by (rule prod.exhaust)
    have qb: "qinv (between k q)" using assms(2) Cons.prems(1) by simp
    have hb: "held_batch holds (between k q) formats claimed"
      using held_batch_keep [OF Cons.prems(3)] assms(3) Cons.prems(1) by blast
    show ?thesis
    proof (cases r1)
      case (Ok us)
      from held_batch_append [OF qb hb with_deadline_claim(3) [OF qb wd Ok] format_at_mem [OF assms(5)]]
      have "held_batch holds q1 formats (claimed @ us)" .
      with Cons.prems(2) Ok False wd Cons.IH [OF with_deadline_claim(1) [OF qb wd]] show ?thesis by simp
    next
      case (Err e)
      from held_batch_keep [OF hb with_deadline_claim(2) [OF qb wd]] have "held_batch holds q1 formats claimed" .
      with Cons.prems False wd Err show ?thesis by (auto split: if_splits)
    qed
  qed
qed simp

end

text \<open>The calls of \<open>PostgresTaskQueue::claim\<close> a poller makes, the \<open>k\<close>th with its own transaction and clock.\<close>

definition pg_claims ::
  "('v \<Rightarrow> bool) \<Rightarrow> (nat \<Rightarrow> Tx) \<Rightarrow> (nat \<Rightarrow> instant)
     \<Rightarrow> nat \<Rightarrow> TaskFormat \<Rightarrow> rstring \<Rightarrow> nat \<Rightarrow> duration \<Rightarrow> 'v outbox
     \<Rightarrow> 'v outbox \<times> ('v LeasedTask list, TaskProcessingError) result" where
  "pg_claims is_object txs nows k fmt owner n lease rows =
     claim is_object (txs k) (nows k) rows fmt owner n lease"

lemma pg_claims_port:
  "pg_claims is_object txs nows = (\<lambda>k fmt owner n lease. pg_claim is_object
     \<lparr> ce_tx = txs k, ce_now = nows k, ce_owner = owner, ce_lease = lease \<rparr> fmt n)"
  by (intro ext) (simp add: pg_claims_def pg_claim_def)

lemma Poller_claim_Return:
  assumes "Poller_claim queue_claim lost between now self owner limit lease q = Return (self', q', r)"
  shows "self' = self\<lparr> po_next_format_start := po_next_format_start self + 1 \<rparr>"
    "claim_loop queue_claim lost between (po_formats self) (po_next_format_start self) owner limit lease
       [0..<length (po_formats self)] [] q = (q', r)"
  using assms by (auto simp: Poller_claim_def Let_def split: prod.splits)

lemma Poller_claim_returns:
  assumes "now + int (po_storage_timeout self) \<le> instant_max"
  obtains self' q' r where "Poller_claim queue_claim lost between now self owner limit lease q = Return (self', q', r)"
  using assms that by (simp add: Poller_claim_def instant_add_def instant_checked_add_def Let_def case_prod_beta)
    (metis prod.collapse)

lemmas poller_facts =
  pg.claim_loop_inv [where mk_env = "\<lambda>k owner lease. \<lparr> ce_tx = txs k, ce_now = nows k, ce_owner = owner, ce_lease = lease \<rparr>"
    for txs nows, folded pg_claims_port]
  pg.claim_loop_limit [where mk_env = "\<lambda>k owner lease. \<lparr> ce_tx = txs k, ce_now = nows k, ce_owner = owner, ce_lease = lease \<rparr>"
    for txs nows, folded pg_claims_port]
  pg.claim_loop_held [where mk_env = "\<lambda>k owner lease. \<lparr> ce_tx = txs k, ce_now = nows k, ce_owner = owner, ce_lease = lease \<rparr>"
    for txs nows, folded pg_claims_port]

section \<open>Properties\<close>



text \<open>
  Preparation: it either fails with the number of the first worker whose dispatcher could not
  be built or does not match, or gives a runtime with exactly one dispatcher per worker, all with
  the same ordered formats, under the configured storage timeout and limits.
\<close>

theorem prepared_workers_agree:
  assumes "0 < wc_concurrency (rc_worker config)"
  shows "case snd (prepare factory config f) of
      Ok rt \<Rightarrow> length (tr_dispatchers rt) = wc_concurrency (rc_worker config) \<and>
        (\<forall>d\<in>set (tr_dispatchers rt). di_formats d = di_formats (tr_dispatchers rt ! 0)) \<and>
        tr_config rt = rc_worker config \<and> tr_storage_timeout rt = sc_storage_timeout (rc_storage config)
    | Err (Build i e) \<Rightarrow> i < wc_concurrency (rc_worker config)
    | Err (FormatsMismatch i) \<Rightarrow> 0 < i \<and> i < wc_concurrency (rc_worker config)"
proof -
  let ?C = "wc_concurrency (rc_worker config)"
  obtain f1 r1 where fac: "factory f = (f1, r1)" by (rule prod.exhaust)
  show ?thesis
  proof (cases r1)
    case (Err e)
    with fac assms show ?thesis by (simp add: prepare_def into_parts_def startup_dispatchers_def)
  next
    case (Ok d)
    obtain f2 r2 where b: "build_all factory (di_formats d) [1..<?C] f1 = (f2, r2)" by (rule prod.exhaust)
    show ?thesis
    proof (cases r2)
      case (Ok ds)
      with b build_all_Ok have "length ds = ?C - 1" "\<forall>x\<in>set ds. di_formats x = di_formats d" by fastforce+
      with Ok fac \<open>r1 = Ok d\<close> b assms show ?thesis
        by (simp add: prepare_def into_parts_def startup_dispatchers_def)
    next
      case (Err e)
      with b build_all_Err obtain i where "i \<in> set [1..<?C]" "e = FormatsMismatch i \<or> (\<exists>source. e = Build i source)"
        by metis
      with Err fac \<open>r1 = Ok d\<close> b show ?thesis
        by (auto simp: prepare_def into_parts_def startup_dispatchers_def)
    qed
  qed
qed

theorem prepared_workers_agree_witness:
  "case snd (prepare (\<lambda>f. (f, Ok demo_dispatcher)) \<lparr> rc_storage = \<lparr> sc_storage_timeout = 6000000000 \<rparr>,
      rc_worker = \<lparr> wc_concurrency = 2, wc_queue_capacity = 2, wc_poll_interval = 1000000000,
        wc_handler_timeout = 15000000000, wc_lease_duration = 60000000000 \<rparr> \<rparr> ()) of
     Ok rt \<Rightarrow> length (tr_dispatchers rt) = 2 | Err _ \<Rightarrow> False"
  using prepared_workers_agree [of "\<lparr> rc_storage = \<lparr> sc_storage_timeout = 6000000000 \<rparr>,
      rc_worker = \<lparr> wc_concurrency = 2, wc_queue_capacity = 2, wc_poll_interval = 1000000000,
        wc_handler_timeout = 15000000000, wc_lease_duration = 60000000000 \<rparr> \<rparr>" "\<lambda>f. (f, Ok demo_dispatcher)" "()"]
  by (simp add: prepare_def into_parts_def startup_dispatchers_def build_checked_dispatcher_def numeral_2_eq_2)

end
