(* ===== verification/Supervision.thy ===== *)
theory Supervision
  imports Polling
begin

text \<open>
  The running pool: \<open>runtime/worker.rs\<close>, \<open>runtime/worker_pool.rs\<close> and \<open>runtime/supervisor.rs\<close>.

  The supervisor and the workers run concurrently, so the pool is a step relation: a worker moves
  from one await point to the next by \<open>worker_step\<close>, the supervisor by the rules of \<open>sup_step\<close>,
  and the host may cancel the token at any moment. Which arm a \<open>select!\<close> takes is left open where
  several are ready, except that a cancelled token always wins, as \<open>biased\<close> prescribes. The queue
  is shared with other processes: a claim meets any table that satisfies its constraints.

  The theory shows that the two limits of the configuration hold in every reachable state, that the
  assertions of the supervisor never fail, and what a cancelled token guarantees.
\<close>

section \<open>Workers\<close>

datatype 'v worker_status = Idle | Received "'v LeasedTask" | Executing "'v LeasedTask" | Exited bool

text \<open>
  \<open>run_task_worker\<close>, given whether the token is cancelled and the channel open. A worker whose
  handler panics exits with a panic; one whose delivery is settled waits for the next.
\<close>

inductive worker_step ::
  "bool \<Rightarrow> bool \<Rightarrow> 'v LeasedTask list \<times> 'v worker_status \<Rightarrow> 'v LeasedTask list \<times> 'v worker_status \<Rightarrow> bool"
  for stop is_open where
  stopped: "stop \<Longrightarrow> worker_step stop is_open (ch, Idle) (ch, Exited False)"
| received: "\<not> stop \<Longrightarrow> worker_step stop is_open (t # ch, Idle) (ch, Received t)"
| closed: "\<not> stop \<Longrightarrow> \<not> is_open \<Longrightarrow> worker_step stop is_open ([], Idle) ([], Exited False)"
| checked: "worker_step stop is_open (ch, Received t) (ch, if stop then Exited False else Executing t)"
| settled: "worker_step stop is_open (ch, Executing t) (ch, Idle)"
| panicked: "worker_step stop is_open (ch, Executing t) (ch, Exited True)"

section \<open>The worker pool\<close>

record WorkerExit =
  we_index :: nat
  we_tokio_task_id :: nat
  we_panicked :: bool
  we_cancelled :: bool

record 'v WorkerPool =
  wp_workers :: "nat \<rightharpoonup> 'v worker_status"
  wp_worker_indices :: "nat \<rightharpoonup> nat"

definition WorkerPool_new :: "'v WorkerPool" where
  "WorkerPool_new = \<lparr> wp_workers = Map.empty, wp_worker_indices = Map.empty \<rparr>"

text \<open>\<open>next_exit\<close> for the task \<open>tid\<close> that \<open>join_next_with_id\<close> reports.\<close>

definition next_exit :: "nat \<Rightarrow> 'v WorkerPool \<Rightarrow> ('v WorkerPool \<times> WorkerExit) run" where
  "next_exit tid self =
     (let self1 = self\<lparr> wp_workers := (wp_workers self)(tid := None) \<rparr> in
      case wp_worker_indices self1 tid of
        None \<Rightarrow> Panic
      | Some index \<Rightarrow> Return (self1\<lparr> wp_worker_indices := (wp_worker_indices self1)(tid := None) \<rparr>,
          \<lparr> we_index = index, we_tokio_task_id = tid, we_panicked = (wp_workers self tid = Some (Exited True)),
            we_cancelled = False \<rparr>))"

definition spawn :: "nat \<Rightarrow> nat \<Rightarrow> 'v WorkerPool \<Rightarrow> 'v WorkerPool" where
  "spawn index tid self = self\<lparr> wp_workers := (wp_workers self)(tid \<mapsto> Idle),
     wp_worker_indices := (wp_worker_indices self)(tid \<mapsto> index) \<rparr>"

section \<open>The supervisor\<close>

datatype TaskRuntimeError = Configuration TaskWorkerPoolConfigError | WorkerSetup WorkerSetupError

definition RECOVERY_BATCH_LIMIT :: nat where "RECOVERY_BATCH_LIMIT = 32"

datatype phase =
    Selecting
  | Restarting nat
  | Recovering nat
  | Claiming nat
  | Stopping "(unit, TaskRuntimeError) result"
  | Joining "(unit, TaskRuntimeError) result"
  | Finished "(unit, TaskRuntimeError) result"
  | Panicked

record ('f, 'v) runtime =
  rt_phase :: phase
  rt_cancelled :: bool
  rt_channel :: "'v LeasedTask list"
  rt_open :: bool
  rt_pool :: "'v WorkerPool"
  rt_poller :: Poller
  rt_factory :: 'f

text \<open>After a \<open>select!\<close> arm: the free capacity of the channel is the limit of the next claim.\<close>

definition admit :: "TaskWorkerPoolConfig \<Rightarrow> ('f, 'v) runtime \<Rightarrow> ('f, 'v) runtime" where
  "admit config s =
     (if length (rt_channel s) > wc_queue_capacity config then s\<lparr> rt_phase := Panicked \<rparr>
      else
        let limit = wc_queue_capacity config - length (rt_channel s) in
        if limit = 0 then s\<lparr> rt_phase := Selecting \<rparr> else s\<lparr> rt_phase := Claiming limit \<rparr>)"

fun try_send_all :: "nat \<Rightarrow> bool \<Rightarrow> 'v LeasedTask list \<Rightarrow> 'v LeasedTask list \<Rightarrow> 'v LeasedTask list run" where
  "try_send_all capacity is_open [] ch = Return ch"
| "try_send_all capacity is_open (t # ts) ch =
     (if is_open \<and> length ch < capacity then try_send_all capacity is_open ts (ch @ [t]) else Panic)"

definition deliver :: "TaskWorkerPoolConfig \<Rightarrow> nat \<Rightarrow> 'v LeasedTask list \<Rightarrow> ('f, 'v) runtime \<Rightarrow> ('f, 'v) runtime" where
  "deliver config limit tasks s =
     (if rt_cancelled s then s\<lparr> rt_phase := Stopping (Ok ()) \<rparr>
      else if \<not> length tasks \<le> limit then s\<lparr> rt_phase := Panicked \<rparr>
      else
        case try_send_all (wc_queue_capacity config) (rt_open s) tasks (rt_channel s) of
          Panic \<Rightarrow> s\<lparr> rt_phase := Panicked \<rparr>
        | Return ch \<Rightarrow> s\<lparr> rt_channel := ch, rt_phase := Selecting \<rparr>)"

text \<open>
  \<open>now\<close> is the instant a claim starts; the rules for it leave out clocks so close to the end of
  the representable time that \<open>now + storage_timeout\<close> overflows.
\<close>

inductive sup_step ::
  "TaskWorkerPoolConfig \<Rightarrow> ('v \<Rightarrow> bool) \<Rightarrow> ('f, 'v, 'w) TaskDispatcherFactory
     \<Rightarrow> ('f, 'v) runtime \<Rightarrow> ('f, 'v) runtime \<Rightarrow> bool"
  for config is_object factory where
  host_cancels: "sup_step config is_object factory s (s\<lparr> rt_cancelled := True \<rparr>)"
| worker_moves:
    "(\<forall>r. rt_phase s \<noteq> Finished r) \<Longrightarrow> wp_workers (rt_pool s) tid = Some st \<Longrightarrow>
     worker_step (rt_cancelled s) (rt_open s) (rt_channel s, st) (ch', st') \<Longrightarrow>
     sup_step config is_object factory s
       (s\<lparr> rt_channel := ch', rt_pool := (rt_pool s)\<lparr> wp_workers := (wp_workers (rt_pool s))(tid \<mapsto> st') \<rparr> \<rparr>)"
| shutdown_seen:
    "rt_cancelled s \<Longrightarrow> rt_phase s = Selecting \<or> (\<exists>n. rt_phase s = Recovering n) \<or> (\<exists>n. rt_phase s = Claiming n) \<Longrightarrow>
     sup_step config is_object factory s (s\<lparr> rt_phase := Stopping (Ok ()) \<rparr>)"
| exit_unregistered:
    "rt_phase s = Selecting \<Longrightarrow> \<not> rt_cancelled s \<Longrightarrow> wp_workers (rt_pool s) tid = Some (Exited p) \<Longrightarrow>
     next_exit tid (rt_pool s) = Panic \<Longrightarrow>
     sup_step config is_object factory s (s\<lparr> rt_phase := Panicked \<rparr>)"
| exit_not_rebuilt:
    "rt_phase s = Selecting \<Longrightarrow> \<not> rt_cancelled s \<Longrightarrow> wp_workers (rt_pool s) tid = Some (Exited p) \<Longrightarrow>
     next_exit tid (rt_pool s) = Return (pool', exit) \<Longrightarrow>
     build_checked_dispatcher factory (po_formats (rt_poller s)) (we_index exit) (rt_factory s) = (f', Err e) \<Longrightarrow>
     sup_step config is_object factory s
       (s\<lparr> rt_pool := pool', rt_factory := f', rt_phase := Stopping (Err (WorkerSetup e)) \<rparr>)"
| exit_rebuilt:
    "rt_phase s = Selecting \<Longrightarrow> \<not> rt_cancelled s \<Longrightarrow> wp_workers (rt_pool s) tid = Some (Exited p) \<Longrightarrow>
     next_exit tid (rt_pool s) = Return (pool', exit) \<Longrightarrow>
     build_checked_dispatcher factory (po_formats (rt_poller s)) (we_index exit) (rt_factory s) = (f', Ok d) \<Longrightarrow>
     sup_step config is_object factory s
       (s\<lparr> rt_pool := pool', rt_factory := f', rt_phase := Restarting (we_index exit) \<rparr>)"
| respawned:
    "rt_phase s = Restarting index \<Longrightarrow> \<not> rt_cancelled s \<Longrightarrow> wp_workers (rt_pool s) tid = None \<Longrightarrow>
     sup_step config is_object factory s (admit config (s\<lparr> rt_pool := spawn index tid (rt_pool s) \<rparr>))"
| not_respawned:
    "rt_phase s = Restarting index \<Longrightarrow> rt_cancelled s \<Longrightarrow>
     sup_step config is_object factory s (s\<lparr> rt_phase := Stopping (Ok ()) \<rparr>)"
| ticked:
    "rt_phase s = Selecting \<Longrightarrow> \<not> rt_cancelled s \<Longrightarrow>
     sup_step config is_object factory s
       (s\<lparr> rt_phase := Recovering (min (wc_concurrency config) RECOVERY_BATCH_LIMIT) \<rparr>)"
| recovered:
    "rt_phase s = Recovering limit \<Longrightarrow> sup_step config is_object factory s (admit config s)"
| notified:
    "rt_phase s = Selecting \<Longrightarrow> \<not> rt_cancelled s \<Longrightarrow> sup_step config is_object factory s (admit config s)"
| claim_failed:
    "rt_phase s = Claiming limit \<Longrightarrow> table_ok is_object rows \<Longrightarrow>
     (\<forall>k rows. table_ok is_object rows \<longrightarrow> table_ok is_object (between k rows)) \<Longrightarrow>
     Poller_claim (pg_claims is_object txs nows) lost between now (rt_poller s) owner limit
       (wc_lease_duration config) rows = Return (poller', rows', Err e) \<Longrightarrow>
     sup_step config is_object factory s (s\<lparr> rt_poller := poller', rt_phase := Selecting \<rparr>)"
| claimed:
    "rt_phase s = Claiming limit \<Longrightarrow> table_ok is_object rows \<Longrightarrow>
     (\<forall>k rows. table_ok is_object rows \<longrightarrow> table_ok is_object (between k rows)) \<Longrightarrow>
     Poller_claim (pg_claims is_object txs nows) lost between now (rt_poller s) owner limit
       (wc_lease_duration config) rows = Return (poller', rows', Ok tasks) \<Longrightarrow>
     sup_step config is_object factory s (deliver config limit tasks (s\<lparr> rt_poller := poller' \<rparr>))"
| drain_started:
    "rt_phase s = Stopping r \<Longrightarrow>
     sup_step config is_object factory s (s\<lparr> rt_cancelled := True, rt_open := False, rt_phase := Joining r \<rparr>)"
| drained:
    "rt_phase s = Joining r \<Longrightarrow> (\<forall>st\<in>ran (wp_workers (rt_pool s)). \<exists>p. st = Exited p) \<Longrightarrow>
     sup_step config is_object factory s
       (s\<lparr> rt_pool := (rt_pool s)\<lparr> wp_workers := Map.empty \<rparr>, rt_phase := Finished r \<rparr>)"
| drain_timed_out:
    "rt_phase s = Joining r \<Longrightarrow>
     sup_step config is_object factory s
       (s\<lparr> rt_pool := (rt_pool s)\<lparr> wp_workers := Map.empty \<rparr>, rt_phase := Finished r \<rparr>)"

text \<open>
  \<open>run_prepared\<close> up to its loop, for the Tokio ids the workers get. A run that returns before its
  loop drops its guard, which cancels the token.
\<close>

fun spawn_all :: "nat \<Rightarrow> nat list \<Rightarrow> 'v WorkerPool \<Rightarrow> 'v WorkerPool" where
  "spawn_all index [] pool = pool"
| "spawn_all index (tid # tids) pool = spawn_all (Suc index) tids (spawn index tid pool)"

definition returned :: "phase \<Rightarrow> duration \<Rightarrow> 'f \<Rightarrow> ('f, 'v) runtime" where
  "returned outcome storage_timeout f =
     \<lparr> rt_phase = outcome, rt_cancelled = True, rt_channel = [], rt_open = False,
       rt_pool = WorkerPool_new, rt_poller = Poller_new [] storage_timeout, rt_factory = f \<rparr>"

definition run_prepared ::
  "('v, 'w) TaskRuntime \<Rightarrow> nat list \<Rightarrow> bool \<Rightarrow> 'f \<Rightarrow> ('f, 'v) runtime" where
  "run_prepared rt tids cancelled f =
     (if cancelled then returned (Finished (Ok ())) (tr_storage_timeout rt) f
      else case tr_dispatchers rt of
        [] \<Rightarrow> returned Panicked (tr_storage_timeout rt) f
      | first # _ \<Rightarrow>
          \<lparr> rt_phase = Selecting, rt_cancelled = False, rt_channel = [], rt_open = True,
            rt_pool = spawn_all 0 (take (length (tr_dispatchers rt)) tids) WorkerPool_new,
            rt_poller = Poller_new (di_formats first) (tr_storage_timeout rt), rt_factory = f \<rparr>)"

text \<open>\<open>supervisor::run\<close>, the entry point for custom executors.\<close>

definition supervisor_run ::
  "duration \<Rightarrow> ('f, 'v, 'w) TaskDispatcherFactory \<Rightarrow> TaskWorkerPoolConfig \<Rightarrow> nat list \<Rightarrow> bool \<Rightarrow> 'f
     \<Rightarrow> ('f, 'v) runtime" where
  "supervisor_run storage_timeout factory config tids cancelled f =
     (case validate_for_storage_timeout config storage_timeout of
        Err e \<Rightarrow> returned (Finished (Err (Configuration e))) storage_timeout f
      | Ok _ \<Rightarrow>
          if cancelled then returned (Finished (Ok ())) storage_timeout f
          else
            case startup_dispatchers factory (wc_concurrency config) f of
              (f', Err e) \<Rightarrow> returned (Finished (Err (WorkerSetup e))) storage_timeout f'
            | (f', Ok dispatchers) \<Rightarrow>
                run_prepared \<lparr> tr_storage_timeout = storage_timeout, tr_config = config,
                  tr_dispatchers = dispatchers \<rparr> tids False f')"

section \<open>The invariant\<close>

definition running :: "phase \<Rightarrow> bool" where
  "running p = (case p of Selecting \<Rightarrow> True | Restarting _ \<Rightarrow> True | Recovering _ \<Rightarrow> True | Claiming _ \<Rightarrow> True | _ \<Rightarrow> False)"

text \<open>The workers and their indices: one of each index, but for the one being restarted.\<close>

definition pool_inv :: "nat \<Rightarrow> phase \<Rightarrow> 'v WorkerPool \<Rightarrow> bool" where
  "pool_inv C p pool \<longleftrightarrow>
     finite (dom (wp_worker_indices pool)) \<and> inj_on (wp_worker_indices pool) (dom (wp_worker_indices pool)) \<and>
     ran (wp_worker_indices pool) \<subseteq> {..<C} \<and> dom (wp_workers pool) \<subseteq> dom (wp_worker_indices pool) \<and>
     (running p \<longrightarrow> dom (wp_workers pool) = dom (wp_worker_indices pool)) \<and>
     (case p of
        Restarting i \<Rightarrow> i < C \<and> ran (wp_worker_indices pool) = {..<C} - {i}
      | _ \<Rightarrow> running p \<longrightarrow> ran (wp_worker_indices pool) = {..<C})"

definition channel_inv :: "nat \<Rightarrow> phase \<Rightarrow> bool \<Rightarrow> 'v LeasedTask list \<Rightarrow> bool" where
  "channel_inv Q p is_open ch \<longleftrightarrow> length ch \<le> Q \<and> (running p \<longrightarrow> is_open) \<and>
     (case p of Claiming limit \<Rightarrow> length ch + limit \<le> Q | _ \<Rightarrow> True)"

definition sup_inv :: "TaskWorkerPoolConfig \<Rightarrow> ('f, 'v) runtime \<Rightarrow> bool" where
  "sup_inv config s \<longleftrightarrow> rt_phase s \<noteq> Panicked \<and>
     pool_inv (wc_concurrency config) (rt_phase s) (rt_pool s) \<and>
     channel_inv (wc_queue_capacity config) (rt_phase s) (rt_open s) (rt_channel s) \<and>
     (\<forall>r. rt_phase s = Joining r \<or> rt_phase s = Finished r \<longrightarrow> rt_cancelled s) \<and>
     (\<forall>r. rt_phase s = Finished r \<longrightarrow> wp_workers (rt_pool s) = Map.empty)"

lemma worker_step_channel:
  "worker_step stop is_open (ch, st) (ch', st') \<Longrightarrow> ch' = ch \<or> \<not> stop \<and> (\<exists>t. ch = t # ch')"
  by (auto elim: worker_step.cases)

lemma worker_step_executing:
  "worker_step stop is_open (ch, st) (ch', Executing t) \<Longrightarrow> \<not> stop"
  by (auto elim!: worker_step.cases split: if_splits)

lemma channel_inv_shrink: "channel_inv Q p b ch \<Longrightarrow> length ch' \<le> length ch \<Longrightarrow> channel_inv Q p b ch'"
  by (cases p) (auto simp: channel_inv_def)

lemma try_send_all_fits:
  "length ch + length ts \<le> Q \<Longrightarrow> try_send_all Q True ts ch = Return (ch @ ts)"
  by (induction ts arbitrary: ch) auto

lemma next_exit_inv:
  assumes "pool_inv C Selecting pool" "wp_workers pool tid = Some st" "next_exit tid pool = Return (pool', exit)"
  shows "pool_inv C (Restarting (we_index exit)) pool'"
proof -
  let ?m = "wp_worker_indices pool"
  from assms(3) obtain i where i: "?m tid = Some i"
    and pool': "wp_workers pool' = (wp_workers pool)(tid := None)" "wp_worker_indices pool' = ?m(tid := None)" "we_index exit = i"
    by (auto simp: next_exit_def Let_def split: option.splits)
  from assms(1) have inv: "finite (dom ?m)" "inj_on ?m (dom ?m)" "dom (wp_workers pool) = dom ?m" "ran ?m = {..<C}"
    by (auto simp: pool_inv_def running_def)
  have "ran (?m(tid := None)) = {..<C} - {i}"
  proof (intro set_eqI iffI)
    fix x assume "x \<in> ran (?m(tid := None))"
    then obtain k where k: "k \<noteq> tid" "?m k = Some x" by (auto simp: ran_def split: if_splits)
    with inv(4) have "x < C" by (auto simp: ran_def)
    moreover have "x \<noteq> i" using inv(2) k i by (auto simp: inj_on_def dom_def)
    ultimately show "x \<in> {..<C} - {i}" by simp
  next
    fix x assume "x \<in> {..<C} - {i}"
    then have "x \<in> ran ?m" "x \<noteq> i" using inv(4) by auto
    then obtain k where "?m k = Some x" "x \<noteq> i" by (auto simp: ran_def)
    with i show "x \<in> ran (?m(tid := None))" by (auto simp: ran_def intro!: exI [of _ k])
  qed
  moreover have "i < C" using i inv(4) by (auto simp: ran_def)
  ultimately show ?thesis
    using inv(1-3) by (auto simp: pool_inv_def running_def pool' inj_on_def)
qed

lemma next_exit_registered:
  assumes "pool_inv C Selecting pool" "wp_workers pool tid = Some st"
  shows "next_exit tid pool \<noteq> Panic"
proof -
  from assms have "tid \<in> dom (wp_worker_indices pool)" by (auto simp: pool_inv_def running_def)
  then show ?thesis by (auto simp: next_exit_def Let_def)
qed

lemma spawn_inv:
  assumes "pool_inv C (Restarting i) pool" "wp_workers pool tid = None"
  shows "pool_inv C Selecting (spawn i tid pool)"
proof -
  let ?m = "wp_worker_indices pool"
  from assms have inv: "finite (dom ?m)" "inj_on ?m (dom ?m)" "dom (wp_workers pool) = dom ?m" "ran ?m = {..<C} - {i}"
    "i < C" "?m tid = None" by (auto simp: pool_inv_def running_def)
  have "?m k \<noteq> Some i" for k using inv(4) by (auto simp: ran_def)
  then have "inj_on (?m(tid \<mapsto> i)) (insert tid (dom ?m))"
    using inv(2,6) unfolding inj_on_def by (auto simp: dom_def)
  moreover have "ran (?m(tid \<mapsto> i)) = {..<C}" using inv(4,5,6) by auto
  ultimately show ?thesis using inv(1,3) by (auto simp: pool_inv_def running_def spawn_def)
qed

text \<open>A step that leaves the pool and the channel, and only moves between phases.\<close>

lemma admit_inv:
  assumes "pool_inv (wc_concurrency config) Selecting (rt_pool s)"
    "channel_inv (wc_queue_capacity config) Selecting (rt_open s) (rt_channel s)"
  shows "sup_inv config (admit config s)"
  using assms by (auto simp: admit_def Let_def sup_inv_def channel_inv_def pool_inv_def running_def)

lemma deliver_inv:
  assumes "sup_inv config s" "rt_phase s = Claiming limit" "length tasks \<le> limit"
  shows "sup_inv config (deliver config limit tasks s)"
proof (cases "rt_cancelled s")
  case True
  with assms show ?thesis by (auto simp: deliver_def sup_inv_def channel_inv_def pool_inv_def running_def)
next
  case False
  from assms have fit: "length (rt_channel s) + length tasks \<le> wc_queue_capacity config" "rt_open s"
    by (auto simp: sup_inv_def channel_inv_def running_def)
  with False assms(3) have "deliver config limit tasks s = s\<lparr> rt_channel := rt_channel s @ tasks, rt_phase := Selecting \<rparr>"
    by (simp add: deliver_def try_send_all_fits)
  with assms(1,2) fit show ?thesis by (auto simp: sup_inv_def channel_inv_def pool_inv_def running_def)
qed

lemma claimed_within_limit:
  assumes "table_ok is_object rows" "\<forall>k rows. table_ok is_object rows \<longrightarrow> table_ok is_object (between k rows)"
    and "Poller_claim (pg_claims is_object txs nows) lost between now poller owner limit lease rows =
      Return (poller', rows', Ok tasks)"
  shows "length tasks \<le> limit"
  using poller_facts(2) [OF assms(1,2) Poller_claim_Return(2) [OF assms(3)]] by simp

lemma pool_inv_workers:
  "pool_inv C p pool \<Longrightarrow> dom m = dom (wp_workers pool) \<Longrightarrow> pool_inv C p (pool\<lparr> wp_workers := m \<rparr>)"
  by (cases p) (simp_all add: pool_inv_def)

lemma worker_moves_inv:
  assumes "sup_inv config s" "\<forall>r. rt_phase s \<noteq> Finished r" "wp_workers (rt_pool s) tid = Some st"
    and "worker_step (rt_cancelled s) (rt_open s) (rt_channel s, st) (ch', st')"
  shows "sup_inv config (s\<lparr> rt_channel := ch',
    rt_pool := (rt_pool s)\<lparr> wp_workers := (wp_workers (rt_pool s))(tid \<mapsto> st') \<rparr> \<rparr>)"
proof -
  have ch: "length ch' \<le> length (rt_channel s)" using worker_step_channel [OF assms(4)] by auto
  have "dom ((wp_workers (rt_pool s))(tid \<mapsto> st')) = dom (wp_workers (rt_pool s))" using assms(3) by auto
  with assms(1) have pool: "pool_inv (wc_concurrency config) (rt_phase s)
      ((rt_pool s)\<lparr> wp_workers := (wp_workers (rt_pool s))(tid \<mapsto> st') \<rparr>)"
    by (intro pool_inv_workers) (auto simp: sup_inv_def)
  from assms(1,2) pool channel_inv_shrink [OF _ ch] show ?thesis by (simp add: sup_inv_def)
qed

lemma sup_step_inv:
  assumes "sup_step config is_object factory s s'" "sup_inv config s"
  shows "sup_inv config s'"
  using assms
proof (induction rule: sup_step.induct)
  case (worker_moves s tid st ch' st')
  then show ?case by (intro worker_moves_inv)
next
  case (exit_unregistered s tid p)
  then have "next_exit tid (rt_pool s) \<noteq> Panic" by (intro next_exit_registered) (auto simp: sup_inv_def)
  with exit_unregistered(4) show ?case by contradiction
next
  case (exit_not_rebuilt s tid p pool' exit f' e)
  then have "pool_inv (wc_concurrency config) (Restarting (we_index exit)) pool'"
    by (intro next_exit_inv) (auto simp: sup_inv_def)
  with exit_not_rebuilt show ?case by (auto simp: sup_inv_def channel_inv_def pool_inv_def running_def)
next
  case (exit_rebuilt s tid p pool' exit f' d)
  then have "pool_inv (wc_concurrency config) (Restarting (we_index exit)) pool'"
    by (intro next_exit_inv) (auto simp: sup_inv_def)
  with exit_rebuilt show ?case by (auto simp: sup_inv_def channel_inv_def running_def)
next
  case (respawned s index tid)
  then have "pool_inv (wc_concurrency config) Selecting (spawn index tid (rt_pool s))"
    by (intro spawn_inv) (auto simp: sup_inv_def)
  with respawned show ?case by (intro admit_inv) (auto simp: sup_inv_def channel_inv_def running_def)
next
  case (recovered s limit)
  then show ?case by (intro admit_inv) (auto simp: sup_inv_def channel_inv_def pool_inv_def running_def)
next
  case (notified s)
  then show ?case by (intro admit_inv) (auto simp: sup_inv_def)
next
  case (claimed s limit rows between txs nows lost now owner poller' rows' tasks)
  from claimed_within_limit [OF claimed(2,3,4)] claimed(1,5) show ?case
    by (intro deliver_inv) (auto simp: sup_inv_def)
qed (auto simp: sup_inv_def channel_inv_def pool_inv_def running_def)

lemma sup_run_inv:
  "(sup_step config is_object factory)\<^sup>*\<^sup>* s s' \<Longrightarrow> sup_inv config s \<Longrightarrow> sup_inv config s'"
  by (induction rule: rtranclp_induct) (auto intro: sup_step_inv)

text \<open>The start: one idle worker for each dispatcher.\<close>

lemma map_add_swap: "n i = None \<Longrightarrow> m(i \<mapsto> v) ++ n = m ++ n(i \<mapsto> v)"
  by (auto simp: fun_eq_iff map_add_def split: option.splits)

lemma spawn_all_maps:
  assumes "distinct tids" "\<forall>i\<in>set tids. wp_worker_indices pool i = None"
  shows "wp_workers (spawn_all k tids pool) = wp_workers pool ++ map_of (map (\<lambda>i. (i, Idle)) tids) \<and>
    wp_worker_indices (spawn_all k tids pool) = wp_worker_indices pool ++ map_of (zip tids [k..<k + length tids])"
  using assms
proof (induction tids arbitrary: k pool)
  case (Cons i js)
  let ?w = "map_of (map (\<lambda>i. (i, Idle)) js)" and ?z = "map_of (zip js [Suc k..<Suc k + length js])"
  have "k + length (i # js) = Suc k + length js" by simp
  then have zip: "map_of (zip (i # js) [k..<k + length (i # js)]) = ?z(i \<mapsto> k)"
    by (simp add: upt_conv_Cons del: upt_Suc)
  have n: "?w i = None" "?z i = None"
    using Cons.prems(1) by (auto simp: map_of_eq_None_iff simp del: upt_Suc dest: set_zip_leftD)
  have spawned: "wp_workers (spawn k i pool) = (wp_workers pool)(i \<mapsto> Idle)"
    "wp_worker_indices (spawn k i pool) = (wp_worker_indices pool)(i \<mapsto> k)" by (simp_all add: spawn_def)
  have prems: "distinct js" "\<forall>j\<in>set js. wp_worker_indices (spawn k i pool) j = None"
    using Cons.prems by (auto simp: spawn_def)
  have "wp_workers (spawn_all k (i # js) pool) = (wp_workers pool)(i \<mapsto> Idle) ++ ?w"
    using Cons.IH [OF prems, of "Suc k"] unfolding spawned spawn_all.simps by blast
  then have ws: "wp_workers (spawn_all k (i # js) pool) = wp_workers pool ++ map_of (map (\<lambda>i. (i, Idle)) (i # js))"
    unfolding map_add_swap [of ?w, OF n(1)] by simp
  have "wp_worker_indices (spawn_all k (i # js) pool) = (wp_worker_indices pool)(i \<mapsto> k) ++ ?z"
    using Cons.IH [OF prems, of "Suc k"] unfolding spawned spawn_all.simps by blast
  then have "wp_worker_indices (spawn_all k (i # js) pool) =
      wp_worker_indices pool ++ map_of (zip (i # js) [k..<k + length (i # js)])"
    unfolding map_add_swap [of ?z, OF n(2)] zip .
  with ws show ?case ..
qed simp

lemma start_pool_inv:
  assumes "distinct tids" "length tids = C"
  shows "pool_inv C Selecting (spawn_all 0 tids (WorkerPool_new :: 'v WorkerPool))"
proof -
  have m: "wp_workers (spawn_all 0 tids (WorkerPool_new :: 'v WorkerPool)) = map_of (map (\<lambda>i. (i, Idle :: 'v worker_status)) tids)"
    "wp_worker_indices (spawn_all 0 tids (WorkerPool_new :: 'v WorkerPool)) = map_of (zip tids [0..<C])"
    using spawn_all_maps [OF assms(1), of WorkerPool_new 0] assms(2) by (auto simp: WorkerPool_new_def)
  have "inj_on (map_of (zip tids [0..<C])) (set tids)"
  proof (rule inj_onI)
    fix x y assume "x \<in> set tids" "y \<in> set tids" and eq: "map_of (zip tids [0..<C]) x = map_of (zip tids [0..<C]) y"
    then obtain i j where "i < C" "x = tids ! i" "j < C" "y = tids ! j" using assms(2) by (auto simp: in_set_conv_nth)
    with eq assms show "x = y" by (simp add: map_of_zip_nth)
  qed
  moreover have "ran (map_of (zip tids [0..<C])) = {..<C}" using assms by (subst ran_map_of_zip) auto
  moreover have "dom (map_of (map (\<lambda>i. (i, Idle :: 'v worker_status)) tids)) = set tids" by (simp add: dom_map_of_conv_image_fst image_image)
  ultimately show ?thesis using assms(2) by (simp add: pool_inv_def running_def m)
qed

lemma run_prepared_inv:
  assumes "length (tr_dispatchers rt) = wc_concurrency config" "0 < wc_concurrency config"
    and "distinct tids" "length tids = wc_concurrency config"
  shows "sup_inv config (run_prepared rt tids cancelled f)"
proof (cases cancelled)
  case True
  then show ?thesis
    by (auto simp: run_prepared_def returned_def sup_inv_def pool_inv_def channel_inv_def running_def WorkerPool_new_def)
next
  case False
  from assms obtain d ds where "tr_dispatchers rt = d # ds" by (cases "tr_dispatchers rt") auto
  with False assms start_pool_inv [OF assms(3,4)] show ?thesis
    by (simp add: run_prepared_def sup_inv_def channel_inv_def running_def)
qed

definition executing :: "('f, 'v) runtime \<Rightarrow> (nat \<times> 'v LeasedTask) set" where
  "executing s = {(tid, t). wp_workers (rt_pool s) tid = Some (Executing t)}"

lemma executing_bound:
  assumes "sup_inv config s"
  shows "finite (executing s)" "card (executing s) \<le> wc_concurrency config"
proof -
  let ?m = "wp_worker_indices (rt_pool s)"
  from assms have inv: "finite (dom ?m)" "inj_on ?m (dom ?m)" "ran ?m \<subseteq> {..<wc_concurrency config}"
    "dom (wp_workers (rt_pool s)) \<subseteq> dom ?m" by (auto simp: sup_inv_def pool_inv_def)
  have sub: "fst ` executing s \<subseteq> dom ?m" using inv(4) by (auto simp: executing_def)
  have inj: "inj_on fst (executing s)" by (auto simp: executing_def inj_on_def)
  from sub inv(1) inj show "finite (executing s)" by (meson finite_imageD finite_subset)
  have "?m ` dom ?m = Some ` ran ?m" by (force simp: ran_def dom_def)
  then have "card (dom ?m) = card (ran ?m)"
    using card_image [OF inv(2)] card_image [of Some "ran ?m"] by simp
  moreover have "card (ran ?m) \<le> wc_concurrency config" using card_mono [OF _ inv(3)] by simp
  moreover have "card (executing s) \<le> card (dom ?m)"
    using card_image [OF inj] card_mono [OF inv(1) sub] by simp
  ultimately show "card (executing s) \<le> wc_concurrency config" by linarith
qed

text \<open>After cancellation: no delivery is started and none is admitted.\<close>

lemma admit_fields [simp]:
  "rt_cancelled (admit config s) = rt_cancelled s" "rt_channel (admit config s) = rt_channel s"
  "rt_pool (admit config s) = rt_pool s"
  by (simp_all add: admit_def Let_def)

lemma deliver_cancelled: "rt_cancelled s \<Longrightarrow> deliver config limit tasks s = s\<lparr> rt_phase := Stopping (Ok ()) \<rparr>"
  by (simp add: deliver_def)

lemma next_exit_workers: "next_exit tid pool = Return (pool', exit) \<Longrightarrow> wp_workers pool' = (wp_workers pool)(tid := None)"
  by (auto simp: next_exit_def Let_def split: option.splits)

lemma cancelled_step:
  assumes "sup_step config is_object factory s s'" "rt_cancelled s"
  shows "rt_cancelled s' \<and> executing s' \<subseteq> executing s \<and> rt_channel s' = rt_channel s"
  using assms
proof (induction rule: sup_step.induct)
  case (worker_moves s tid st ch' st')
  with worker_step_channel [OF worker_moves(3)] show ?case
    by (auto simp: executing_def split: if_splits dest: worker_step_executing)
qed (auto simp: executing_def deliver_cancelled split: if_splits)

lemma cancelled_run:
  assumes "(sup_step config is_object factory)\<^sup>*\<^sup>* s s'" "rt_cancelled s"
  shows "rt_cancelled s' \<and> executing s' \<subseteq> executing s \<and> rt_channel s' = rt_channel s"
  using assms
proof (induction rule: rtranclp_induct)
  case (step y z)
  with cancelled_step [OF step(2)] show ?case by auto
qed simp

definition can_finish ::
  "TaskWorkerPoolConfig \<Rightarrow> ('v \<Rightarrow> bool) \<Rightarrow> ('f, 'v, 'w) TaskDispatcherFactory \<Rightarrow> ('f, 'v) runtime \<Rightarrow> bool" where
  "can_finish config is_object factory s \<longleftrightarrow>
     (\<exists>s' r. (sup_step config is_object factory)\<^sup>*\<^sup>* s s' \<and> rt_phase s' = Finished r)"

lemma can_finish_step:
  "sup_step config is_object factory s s' \<Longrightarrow> can_finish config is_object factory s' \<Longrightarrow> can_finish config is_object factory s"
  unfolding can_finish_def by (meson converse_rtranclp_into_rtranclp)

lemma finished_can_finish: "rt_phase s = Finished r \<Longrightarrow> can_finish config is_object factory s"
  unfolding can_finish_def by blast

lemma stopping_can_finish:
  assumes "rt_phase s = Stopping r \<or> rt_phase s = Joining r"
  shows "can_finish config is_object factory s"
proof -
  have join: "can_finish config is_object factory s" if "rt_phase s = Joining r" for s
    by (rule can_finish_step [OF drain_timed_out [OF that] finished_can_finish]) simp
  from assms show ?thesis
  proof
    assume "rt_phase s = Stopping r"
    from can_finish_step [OF drain_started [OF this] join] show ?thesis by simp
  qed (rule join)
qed

lemma cancelled_can_finish:
  assumes "rt_cancelled s" "rt_phase s \<noteq> Panicked"
  shows "can_finish config is_object factory s"
proof -
  have stop: "can_finish config is_object factory (s\<lparr> rt_phase := Stopping (Ok ()) \<rparr>)"
    by (rule stopping_can_finish [of _ "Ok ()"]) simp
  show ?thesis
  proof (cases "rt_phase s")
    case (Restarting i)
    from can_finish_step [OF not_respawned [OF this assms(1)] stop] show ?thesis .
  next
    case (Stopping r)
    then show ?thesis by (intro stopping_can_finish) simp
  next
    case (Joining r)
    then show ?thesis by (intro stopping_can_finish) simp
  next
    case (Finished r)
    then show ?thesis by (rule finished_can_finish)
  qed (use assms can_finish_step [OF shutdown_seen stop] in auto)
qed

lemma prepare_length:
  assumes "prepare factory cfg f = (f', Ok rt)" "0 < wc_concurrency (rc_worker cfg)"
  shows "length (tr_dispatchers rt) = wc_concurrency (rc_worker cfg)"
  using assms
  by (auto simp: prepare_def into_parts_def startup_dispatchers_def split: prod.splits result.splits
      dest!: build_all_Ok)

lemma pool_bij:
  assumes "pool_inv C Selecting pool"
  shows "bij_betw (\<lambda>i. the (wp_worker_indices pool i)) (dom (wp_workers pool)) {..<C}"
proof -
  let ?m = "wp_worker_indices pool"
  from assms have inv: "inj_on ?m (dom ?m)" "dom (wp_workers pool) = dom ?m" "ran ?m = {..<C}"
    by (auto simp: pool_inv_def running_def)
  have "inj_on (\<lambda>i. the (?m i)) (dom ?m)" using inv(1) by (auto simp: inj_on_def dom_def)
  moreover have "(\<lambda>i. the (?m i)) ` dom ?m = ran ?m" by (force simp: ran_def dom_def)
  ultimately show ?thesis by (simp add: bij_betw_def inv)
qed

section \<open>Properties\<close>

text \<open>
  C19. The limits of the pool. In every state a prepared runtime can reach, whatever the workers, the
  clock, the queue and the host do: none of the supervisor's assertions has failed, at most
  \<open>queue_capacity\<close> deliveries wait in the channel and at most \<open>concurrency\<close> are being executed, and
  while the supervisor admits work there is exactly one worker for each index, but for the one it is
  restarting.
\<close>

theorem pool_limits_hold:
  assumes "snd (prepare factory cfg f) = Ok rt" "0 < wc_concurrency (rc_worker cfg)"
    and "distinct tids" "length tids = wc_concurrency (rc_worker cfg)"
    and "(sup_step (rc_worker cfg) is_object factory)\<^sup>*\<^sup>* (run_prepared rt tids cancelled (fst (prepare factory cfg f))) s"
  shows "rt_phase s \<noteq> Panicked \<and> length (rt_channel s) \<le> wc_queue_capacity (rc_worker cfg) \<and>
    card (executing s) \<le> wc_concurrency (rc_worker cfg) \<and> finite (executing s) \<and>
    (rt_phase s = Selecting \<longrightarrow> bij_betw (\<lambda>i. the (wp_worker_indices (rt_pool s) i))
      (dom (wp_workers (rt_pool s))) {..<wc_concurrency (rc_worker cfg)})"
proof -
  have "length (tr_dispatchers rt) = wc_concurrency (rc_worker cfg)"
    using prepare_length [OF _ assms(2)] assms(1) by (metis prod.collapse)
  then have inv: "sup_inv (rc_worker cfg) s"
    using sup_run_inv [OF assms(5) run_prepared_inv] assms(2-4) by blast
  moreover from inv have "rt_phase s = Selecting \<longrightarrow> bij_betw (\<lambda>i. the (wp_worker_indices (rt_pool s) i))
      (dom (wp_workers (rt_pool s))) {..<wc_concurrency (rc_worker cfg)}"
    by (auto simp: sup_inv_def intro: pool_bij)
  ultimately show ?thesis using executing_bound [OF inv] by (auto simp: sup_inv_def channel_inv_def)
qed

definition demo_config :: TaskRuntimeConfig where
  "demo_config = \<lparr> rc_storage = \<lparr> sc_storage_timeout = 6000000000 \<rparr>,
     rc_worker = \<lparr> wc_concurrency = 2, wc_queue_capacity = 2, wc_poll_interval = 1000000000,
       wc_handler_timeout = 15000000000, wc_lease_duration = 60000000000 \<rparr> \<rparr>"

definition demo_factory :: "(unit, unit, nat) TaskDispatcherFactory" where
  "demo_factory f = (f, Ok demo_dispatcher)"

definition demo_runtime :: "(unit, nat) TaskRuntime" where
  "demo_runtime = \<lparr> tr_storage_timeout = 6000000000, tr_config = rc_worker demo_config,
     tr_dispatchers = [demo_dispatcher, demo_dispatcher] \<rparr>"

lemma demo_prepared: "prepare demo_factory demo_config () = ((), Ok demo_runtime)"
  by (simp add: prepare_def into_parts_def startup_dispatchers_def build_checked_dispatcher_def numeral_2_eq_2
      demo_config_def demo_factory_def demo_runtime_def)

lemma demo_first_step:
  "sup_step (rc_worker demo_config) any_object demo_factory (run_prepared demo_runtime [7, 9] False ())
     (admit (rc_worker demo_config) (run_prepared demo_runtime [7, 9] False ()))"
  by (rule notified) (simp_all add: run_prepared_def demo_runtime_def)

theorem pool_limits_hold_witness:
  "card (executing (admit (rc_worker demo_config) (run_prepared demo_runtime [7, 9] False ()))) \<le> 2"
  using pool_limits_hold [of demo_factory demo_config "()" demo_runtime "[7, 9]" any_object False
      "admit (rc_worker demo_config) (run_prepared demo_runtime [7, 9] False ())"] demo_first_step
  by (simp add: demo_prepared) (simp add: demo_config_def r_into_rtranclp)

text \<open>
  C28. Shutdown. Once the token of a runtime is cancelled, it stays cancelled, no worker starts a
  delivery and the supervisor admits none, so the deliveries being executed are among those that
  were already running; and the runtime can always come to its end, at the latest when the drain
  deadline passes. When it has ended, the token is cancelled and no worker is left.
\<close>

theorem shutdown_drains:
  assumes "snd (prepare factory cfg f) = Ok rt" "0 < wc_concurrency (rc_worker cfg)"
    and "distinct tids" "length tids = wc_concurrency (rc_worker cfg)"
    and "(sup_step (rc_worker cfg) is_object factory)\<^sup>*\<^sup>* (run_prepared rt tids cancelled (fst (prepare factory cfg f))) s"
    and "rt_cancelled s" "(sup_step (rc_worker cfg) is_object factory)\<^sup>*\<^sup>* s s'"
  shows "rt_cancelled s' \<and> executing s' \<subseteq> executing s \<and> rt_channel s' = rt_channel s \<and>
    (\<exists>s'' r. (sup_step (rc_worker cfg) is_object factory)\<^sup>*\<^sup>* s' s'' \<and> rt_phase s'' = Finished r) \<and>
    (\<forall>r. rt_phase s' = Finished r \<longrightarrow> wp_workers (rt_pool s') = Map.empty)"
proof -
  have "length (tr_dispatchers rt) = wc_concurrency (rc_worker cfg)"
    using prepare_length [OF _ assms(2)] assms(1) by (metis prod.collapse)
  then have inv: "sup_inv (rc_worker cfg) s'"
    using sup_run_inv [OF assms(7) sup_run_inv [OF assms(5) run_prepared_inv]] assms(2-4) by blast
  note after = cancelled_run [OF assms(7,6)]
  from inv have "rt_phase s' \<noteq> Panicked" by (simp add: sup_inv_def)
  with after cancelled_can_finish have "can_finish (rc_worker cfg) is_object factory s'" by blast
  with after inv show ?thesis by (simp add: can_finish_def sup_inv_def)
qed

lemma demo_cancelled:
  "(sup_step (rc_worker demo_config) any_object demo_factory)\<^sup>*\<^sup>* (run_prepared demo_runtime [7, 9] False ())
     ((run_prepared demo_runtime [7, 9] False ())\<lparr> rt_cancelled := True \<rparr>)"
  by (rule r_into_rtranclp, rule host_cancels)

theorem shutdown_drains_witness:
  "\<exists>s'' r. (sup_step (rc_worker demo_config) any_object demo_factory)\<^sup>*\<^sup>*
     ((run_prepared demo_runtime [7, 9] False ())\<lparr> rt_cancelled := True \<rparr>) s'' \<and> rt_phase s'' = Finished r"
  using shutdown_drains [of demo_factory demo_config "()" demo_runtime "[7, 9]" any_object False
      "(run_prepared demo_runtime [7, 9] False ())\<lparr> rt_cancelled := True \<rparr>"
      "(run_prepared demo_runtime [7, 9] False ())\<lparr> rt_cancelled := True \<rparr>"]
    demo_cancelled
  by (simp add: demo_prepared) (simp add: demo_config_def)

end
