(* ===== verification/Event_Repository.thy ===== *)
theory Event_Repository
  imports Queue_Runs
begin

text \<open>
  The write side of the event store: \<open>event_repository_with_outbox/write_plan.rs\<close>,
  \<open>write.rs\<close> and \<open>repository.rs\<close>, over the tables of \<open>sql/001-event-store.sql\<close> and the
  outbox. \<open>SerializedEvent\<close>, \<open>PersistenceError\<close> and \<open>sqlx::Error\<close> are types of libraries; they
  have here the fields and variants the code names. The one modifying statement is the function
  \<open>write_statement\<close>: snapshot first, then the event if the snapshot was written, then the tasks
  if the event was written, all of it or nothing. A connection may fail before the statement or
  after it took effect (\<open>Link\<close>). The reads of the repository are those of \<open>postgres-es\<close>, a field of it.

  The theory shows that a write is atomic under every failure, that it succeeds only when its
  sequence number is free, so that of two writers with the same base one is told
  \<open>OptimisticLockError\<close>, and what the plan rejects.
\<close>

section \<open>Tables and library types\<close>

record 'v EventRow =
  ev_aggregate_type :: rstring
  ev_aggregate_id :: rstring
  ev_sequence :: int
  ev_event_type :: rstring
  ev_event_version :: rstring
  ev_payload :: 'v
  ev_metadata :: 'v

record 'v SnapshotRow =
  sn_aggregate_type :: rstring
  sn_aggregate_id :: rstring
  sn_last_sequence :: int
  sn_current_snapshot :: int
  sn_payload :: 'v

record 'v Database =
  db_events :: "'v EventRow list"
  db_snapshots :: "'v SnapshotRow list"
  db_outbox :: "'v outbox"

record 'v SerializedEvent =
  se_aggregate_id :: rstring
  se_sequence :: nat
  se_event_type :: rstring
  se_event_version :: rstring
  se_payload :: 'v
  se_metadata :: 'v

datatype SqlxError = SqlxDatabase "string option" "string option" | SqlxIo | SqlxTls | SqlxOther

datatype WriteValidationError =
    MultipleEvents
  | SnapshotWithoutEvent
  | TasksWithoutEvent
  | SequenceOverflow
  | BindLimitExceeded

datatype PersistenceError =
    OptimisticLockError
  | ConnectionError SqlxError
  | UnknownError "WriteValidationError + SqlxError"

section \<open>The write plan\<close>

datatype 'v SnapshotWrite =
    NoSnapshot
  | Insert rstring 'v int
  | Update rstring 'v int

datatype 'v WritePlan =
    NoOp
  | OneEvent "'v SerializedEvent" int "'v SnapshotWrite"

definition invalid_write :: "WriteValidationError \<Rightarrow> PersistenceError" where
  "invalid_write reason = UnknownError (Inl reason)"

definition sequence_as_i64 :: "nat \<Rightarrow> (int, PersistenceError) result" where
  "sequence_as_i64 sequence = ok_or (i64_try_from sequence) (invalid_write SequenceOverflow)"

definition validate_bind_count :: "nat \<Rightarrow> nat \<Rightarrow> (unit, PersistenceError) result" where
  "validate_bind_count tasks snapshot_binds =
     (let EVENT_BINDS = 7; TASK_BINDS = 11;
          count = Option.bind (usize_checked_mul tasks TASK_BINDS) (\<lambda>c.
                  Option.bind (usize_checked_add c EVENT_BINDS) (\<lambda>c.
                  usize_checked_add c snapshot_binds)) in
      case count of
        Some c \<Rightarrow> if c < 65535 then Ok () else Err (invalid_write BindLimitExceeded)
      | None \<Rightarrow> Err (invalid_write BindLimitExceeded))"

fun SnapshotWrite_new ::
  "(rstring \<times> 'v \<times> nat) option \<Rightarrow> ('v SnapshotWrite, PersistenceError) result" where
  "SnapshotWrite_new None = Ok NoSnapshot"
| "SnapshotWrite_new (Some (aggregate_id, payload, version)) =
     bind_result (sequence_as_i64 version) (\<lambda>v.
       Ok (if v = 1 then Insert aggregate_id payload v else Update aggregate_id payload v))"

fun bind_count :: "'v SnapshotWrite \<Rightarrow> nat" where
  "bind_count NoSnapshot = 0"
| "bind_count (Insert _ _ _) = 5"
| "bind_count (Update _ _ _) = 6"

definition WritePlan_new ::
  "'v SerializedEvent list \<Rightarrow> (rstring \<times> 'v \<times> nat) option \<Rightarrow> 'v NewTask list
     \<Rightarrow> ('v WritePlan, PersistenceError) result" where
  "WritePlan_new events snapshot tasks =
     (case events of
        [] \<Rightarrow> if snapshot \<noteq> None then Err (invalid_write SnapshotWithoutEvent)
              else if tasks \<noteq> [] then Err (invalid_write TasksWithoutEvent)
              else Ok NoOp
      | [event] \<Rightarrow>
          bind_result (SnapshotWrite_new snapshot) (\<lambda>sn.
          bind_result (validate_bind_count (length tasks) (bind_count sn)) (\<lambda>_.
          bind_result (sequence_as_i64 (se_sequence event)) (\<lambda>sequence.
            Ok (OneEvent event sequence sn))))
      | _ \<Rightarrow> Err (invalid_write MultipleEvents))"

section \<open>The statement\<close>

datatype Link = Connected | FailsBefore SqlxError | FailsAfter SqlxError

definition unique_violation :: "string \<Rightarrow> SqlxError" where
  "unique_violation constraint = SqlxDatabase (Some ''23505'') (Some constraint)"

definition snapshot_key :: "'v SnapshotRow \<Rightarrow> rstring \<times> rstring \<times> int" where
  "snapshot_key s = (sn_aggregate_type s, sn_aggregate_id s, sn_last_sequence s)"

definition event_key :: "'v EventRow \<Rightarrow> rstring \<times> rstring \<times> int" where
  "event_key e = (ev_aggregate_type e, ev_aggregate_id e, ev_sequence e)"

text \<open>The CTE \<open>written_snapshot\<close>: the table it leaves and the number of rows it returns.\<close>

fun append_snapshot ::
  "rstring \<Rightarrow> 'v SnapshotWrite \<Rightarrow> int \<Rightarrow> 'v SnapshotRow list \<Rightarrow> ('v SnapshotRow list \<times> nat, SqlxError) result" where
  "append_snapshot ty NoSnapshot sequence snaps = Ok (snaps, 0)"
| "append_snapshot ty (Insert aggregate_id payload version) sequence snaps =
     (if (ty, aggregate_id, sequence) \<in> set (map snapshot_key snaps)
      then Err (unique_violation ''snapshots_pkey'')
      else Ok (snaps @ [\<lparr> sn_aggregate_type = ty, sn_aggregate_id = aggregate_id,
             sn_last_sequence = sequence, sn_current_snapshot = version, sn_payload = payload \<rparr>], 1))"
| "append_snapshot ty (Update aggregate_id payload version) sequence snaps =
     (let hit = (\<lambda>s. sn_aggregate_type s = ty \<and> sn_aggregate_id s = aggregate_id \<and>
                      sn_current_snapshot s = version - 1);
          snaps' = map (\<lambda>s. if hit s then s\<lparr>sn_last_sequence := sequence,
                      sn_current_snapshot := version, sn_payload := payload\<rparr> else s) snaps in
      if \<not> distinct (map snapshot_key snaps') then Err (unique_violation ''snapshots_pkey'')
      else Ok (snaps', length (filter hit snaps)))"

definition event_row :: "rstring \<Rightarrow> 'v SerializedEvent \<Rightarrow> int \<Rightarrow> 'v EventRow" where
  "event_row ty event sequence =
     \<lparr> ev_aggregate_type = ty, ev_aggregate_id = se_aggregate_id event, ev_sequence = sequence,
       ev_event_type = se_event_type event, ev_event_version = se_event_version event,
       ev_payload = se_payload event, ev_metadata = se_metadata event \<rparr>"

text \<open>The error of the task INSERT: a taken identifier, or a value outside the constraints.\<close>

definition outbox_violation :: "'v NewTask list \<Rightarrow> 'v outbox \<Rightarrow> SqlxError" where
  "outbox_violation tasks rows =
     (if distinct (map ob_id rows @ map nt_id tasks) then SqlxDatabase (Some ''23514'') None
      else unique_violation ''transactional_outbox_pkey'')"

definition write_statement ::
  "('v \<Rightarrow> bool) \<Rightarrow> Tx \<Rightarrow> rstring \<Rightarrow> 'v NewTask list \<Rightarrow> 'v SerializedEvent \<Rightarrow> int \<Rightarrow> 'v SnapshotWrite
     \<Rightarrow> 'v Database \<Rightarrow> ('v Database \<times> nat, SqlxError) result" where
  "write_statement is_object tx ty tasks event sequence snapshot db =
     (let has_snapshot = (snapshot \<noteq> NoSnapshot) in
      bind_result (append_snapshot ty snapshot sequence (db_snapshots db)) (\<lambda>(snaps, written).
      if has_snapshot \<and> written = 0 then Ok (db, 0)
      else if event_key (event_row ty event sequence) \<in> set (map event_key (db_events db))
      then Err (unique_violation ''events_pkey'')
      else (case (if tasks = [] then Some (db_outbox db)
                  else insert_tasks is_object tx ty (se_aggregate_id event) sequence tasks (db_outbox db)) of
          None \<Rightarrow> Err (outbox_violation tasks (db_outbox db))
        | Some outbox \<Rightarrow>
            Ok (\<lparr> db_events = db_events db @ [event_row ty event sequence], db_snapshots = snaps,
                  db_outbox = outbox \<rparr>, if has_snapshot then written else 1))))"

fun map_sqlx_error :: "SqlxError \<Rightarrow> PersistenceError" where
  "map_sqlx_error (SqlxDatabase code constraint) =
     (if code = Some ''23505'' \<and> (constraint = Some ''events_pkey'' \<or> constraint = Some ''snapshots_pkey'')
      then OptimisticLockError else UnknownError (Inr (SqlxDatabase code constraint)))"
| "map_sqlx_error SqlxIo = ConnectionError SqlxIo"
| "map_sqlx_error SqlxTls = ConnectionError SqlxTls"
| "map_sqlx_error SqlxOther = UnknownError (Inr SqlxOther)"

definition persist_one ::
  "('v \<Rightarrow> bool) \<Rightarrow> Tx \<Rightarrow> Link \<Rightarrow> rstring \<Rightarrow> 'v NewTask list \<Rightarrow> 'v SerializedEvent \<Rightarrow> int \<Rightarrow> 'v SnapshotWrite
     \<Rightarrow> 'v Database \<Rightarrow> 'v Database \<times> (unit, PersistenceError) result" where
  "persist_one is_object tx link ty tasks event sequence snapshot db =
     (case link of
        FailsBefore e \<Rightarrow> (db, Err (map_sqlx_error e))
      | _ \<Rightarrow>
        (case write_statement is_object tx ty tasks event sequence snapshot db of
           Err e \<Rightarrow> (db, Err (map_sqlx_error (case link of FailsAfter e' \<Rightarrow> e' | _ \<Rightarrow> e)))
         | Ok (db', snapshot_count) \<Rightarrow>
             (db', case link of
                FailsAfter e \<Rightarrow> Err (map_sqlx_error e)
              | _ \<Rightarrow> if snapshot_count = 1 then Ok () else Err OptimisticLockError)))"

section \<open>The repository\<close>

text \<open>A repository is bound to the tasks of one command.\<close>

definition persist_command ::
  "('v \<Rightarrow> bool) \<Rightarrow> Tx \<Rightarrow> Link \<Rightarrow> rstring \<Rightarrow> 'v NewTask list \<Rightarrow> 'v SerializedEvent list
     \<Rightarrow> (rstring \<times> 'v \<times> nat) option \<Rightarrow> 'v Database \<Rightarrow> 'v Database \<times> (unit, PersistenceError) result" where
  "persist_command is_object tx link ty tasks events snapshot_update db =
     (case WritePlan_new events snapshot_update tasks of
        Err e \<Rightarrow> (db, Err e)
      | Ok NoOp \<Rightarrow> (db, Ok ())
      | Ok (OneEvent event sequence snapshot) \<Rightarrow>
          persist_one is_object tx link ty tasks event sequence snapshot db)"

text \<open>
  \<open>PostgresEventRepositoryWithOutbox\<close>. The reader is the repository of \<open>postgres-es\<close>: its queries are
  functions of the tables they meet. Writes go through \<open>persist_command\<close> with the bound tasks.
\<close>

record 'v SerializedSnapshot =
  ss_aggregate_id :: rstring
  ss_aggregate :: 'v
  ss_current_sequence :: nat
  ss_current_snapshot :: nat

record 'v PostgresEventRepository =
  rd_get_events :: "rstring \<Rightarrow> rstring \<Rightarrow> 'v Database \<Rightarrow> ('v SerializedEvent list, PersistenceError) result"
  rd_get_last_events :: "rstring \<Rightarrow> rstring \<Rightarrow> nat \<Rightarrow> 'v Database \<Rightarrow> ('v SerializedEvent list, PersistenceError) result"
  rd_get_snapshot :: "rstring \<Rightarrow> rstring \<Rightarrow> 'v Database \<Rightarrow> ('v SerializedSnapshot option, PersistenceError) result"

record 'v PostgresEventRepositoryWithOutbox =
  er_reader :: "'v PostgresEventRepository"
  er_tasks :: "'v NewTask list"

definition PostgresEventRepositoryWithOutbox_new ::
  "'v PostgresEventRepository \<Rightarrow> 'v PostgresEventRepositoryWithOutbox" where
  "PostgresEventRepositoryWithOutbox_new reader = \<lparr> er_reader = reader, er_tasks = [] \<rparr>"

definition with_outbox ::
  "'v PostgresEventRepositoryWithOutbox \<Rightarrow> 'v NewTask list \<Rightarrow> 'v PostgresEventRepositoryWithOutbox" where
  "with_outbox self tasks = self\<lparr> er_tasks := tasks \<rparr>"

definition get_events where
  "get_events self ty aggregate_id = rd_get_events (er_reader self) ty aggregate_id"

definition get_last_events where
  "get_last_events self ty aggregate_id last_sequence = rd_get_last_events (er_reader self) ty aggregate_id last_sequence"

definition get_snapshot where
  "get_snapshot self ty aggregate_id = rd_get_snapshot (er_reader self) ty aggregate_id"

definition persist ::
  "('v \<Rightarrow> bool) \<Rightarrow> Tx \<Rightarrow> Link \<Rightarrow> 'v PostgresEventRepositoryWithOutbox \<Rightarrow> rstring \<Rightarrow> 'v SerializedEvent list
     \<Rightarrow> (rstring \<times> 'v \<times> nat) option \<Rightarrow> 'v Database \<Rightarrow> 'v Database \<times> (unit, PersistenceError) result" where
  "persist is_object tx link self ty events snapshot_update =
     persist_command is_object tx link ty (er_tasks self) events snapshot_update"

section \<open>What a write leaves\<close>

definition stream :: "'v Database \<Rightarrow> rstring \<Rightarrow> rstring \<Rightarrow> 'v EventRow list" where
  "stream db ty aid = filter (\<lambda>e. ev_aggregate_type e = ty \<and> ev_aggregate_id e = aid) (db_events db)"

text \<open>The stream of an aggregate is numbered without gaps, from 1, in the order of its commits.\<close>

definition gap_free :: "'v Database \<Rightarrow> rstring \<Rightarrow> rstring \<Rightarrow> bool" where
  "gap_free db ty aid \<longleftrightarrow>
     map ev_sequence (stream db ty aid) = map (\<lambda>n. int n) [1..<Suc (length (stream db ty aid))]"

definition database_ok :: "('v \<Rightarrow> bool) \<Rightarrow> 'v Database \<Rightarrow> bool" where
  "database_ok is_object db \<longleftrightarrow>
     distinct (map event_key (db_events db)) \<and> distinct (map snapshot_key (db_snapshots db)) \<and>
     table_ok is_object (db_outbox db)"

text \<open>The whole effect of one accepted command: its event, its snapshot, its tasks.\<close>

definition committed ::
  "('v \<Rightarrow> bool) \<Rightarrow> Tx \<Rightarrow> rstring \<Rightarrow> 'v NewTask list \<Rightarrow> 'v SerializedEvent \<Rightarrow> int \<Rightarrow> 'v SnapshotWrite
     \<Rightarrow> 'v Database \<Rightarrow> 'v Database \<Rightarrow> bool" where
  "committed is_object tx ty tasks event sequence snapshot db db' \<longleftrightarrow>
     event_key (event_row ty event sequence) \<notin> set (map event_key (db_events db)) \<and>
     db_events db' = db_events db @ [event_row ty event sequence] \<and>
     append_snapshot ty snapshot sequence (db_snapshots db) =
       Ok (db_snapshots db', if snapshot = NoSnapshot then 0 else 1) \<and>
     (\<exists>new. db_outbox db' = db_outbox db @ new \<and> list_all (row_ok is_object) new \<and>
        distinct (map ob_id (db_outbox db')) \<and>
        map (outbox_row tx ty (se_aggregate_id event) sequence) tasks = map Some new)"

lemma distinct_hits:
  assumes "\<And>x y. P x \<Longrightarrow> P y \<Longrightarrow> g x = g y" "distinct (map g xs)"
  shows "length (filter P xs) \<le> 1"
  using assms(2)
proof (induction xs)
  case (Cons x xs)
  show ?case
  proof (cases "P x")
    case True
    have "\<not> P y" if "y \<in> set xs" for y
    proof
      assume "P y"
      then have "g x = g y" by (rule assms(1) [OF True])
      with Cons.prems that show False by simp
    qed
    then have "filter P xs = []" by (simp add: filter_empty_conv)
    with True show ?thesis by simp
  qed (use Cons in auto)
qed simp

lemma append_snapshot_count:
  assumes "append_snapshot ty snapshot sequence snaps = Ok (snaps', n)"
  shows "n \<le> 1" "snapshot = NoSnapshot \<Longrightarrow> n = 0 \<and> snaps' = snaps"
    "distinct (map snapshot_key snaps) \<Longrightarrow> distinct (map snapshot_key snaps')"
proof -
  show "snapshot = NoSnapshot \<Longrightarrow> n = 0 \<and> snaps' = snaps" using assms by simp
  show "n \<le> 1"
  proof (cases snapshot)
    case (Update aid payload version)
    let ?hit = "\<lambda>s. sn_aggregate_type s = ty \<and> sn_aggregate_id s = aid \<and> sn_current_snapshot s = version - 1"
    let ?f = "\<lambda>s. if ?hit s then s\<lparr>sn_last_sequence := sequence, sn_current_snapshot := version,
      sn_payload := payload\<rparr> else s"
    have "length (filter ?hit snaps) \<le> 1" if "distinct (map (snapshot_key \<circ> ?f) snaps)"
      by (rule distinct_hits [OF _ that]) (simp add: snapshot_key_def)
    with assms Update show ?thesis by (auto simp: Let_def split: if_splits)
  qed (use assms in \<open>auto split: if_splits\<close>)
  show "distinct (map snapshot_key snaps) \<Longrightarrow> distinct (map snapshot_key snaps')"
    using assms by (cases snapshot) (auto simp: Let_def snapshot_key_def split: if_splits)
qed

lemma write_statement_Ok:
  assumes "write_statement is_object tx ty tasks event sequence snapshot db = Ok (db', n)"
    and ok: "table_ok is_object (db_outbox db)"
  shows "n = 0 \<and> db' = db \<or> n = 1 \<and> committed is_object tx ty tasks event sequence snapshot db db'"
proof -
  from assms(1) obtain snaps w where
    sn: "append_snapshot ty snapshot sequence (db_snapshots db) = Ok (snaps, w)"
    by (auto simp: write_statement_def Let_def)
  note count = append_snapshot_count [OF sn]
  show ?thesis
  proof (cases "snapshot \<noteq> NoSnapshot \<and> w = 0")
    case True
    with assms(1) sn show ?thesis by (simp add: write_statement_def)
  next
    case False
    with assms(1) sn obtain outbox where
      free: "event_key (event_row ty event sequence) \<notin> set (map event_key (db_events db))"
      and out: "(if tasks = [] then Some (db_outbox db)
        else insert_tasks is_object tx ty (se_aggregate_id event) sequence tasks (db_outbox db)) = Some outbox"
      and db': "db' = \<lparr> db_events = db_events db @ [event_row ty event sequence], db_snapshots = snaps,
          db_outbox = outbox \<rparr>" "n = (if snapshot \<noteq> NoSnapshot then w else 1)"
      by (auto simp: write_statement_def Let_def split: if_splits option.splits)
    have "\<exists>new. outbox = db_outbox db @ new \<and> list_all (row_ok is_object) new \<and> distinct (map ob_id outbox) \<and>
        map (outbox_row tx ty (se_aggregate_id event) sequence) tasks = map Some new"
      using out ok by (cases "tasks = []") (auto simp: table_ok_def elim!: insert_tasks_Some)
    moreover have "w = (if snapshot = NoSnapshot then 0 else 1)" using count(1,2) False by auto
    ultimately show ?thesis using db' free sn by (simp add: committed_def)
  qed
qed

lemma persist_one_cases:
  assumes "persist_one is_object tx link ty tasks event sequence snapshot db = (db', r)"
    and ok: "table_ok is_object (db_outbox db)"
  obtains (unchanged) "db' = db" "is_err r"
  | (written) "committed is_object tx ty tasks event sequence snapshot db db'"
      "r = Ok () \<or> (\<exists>e. link = FailsAfter e \<and> r = Err (map_sqlx_error e))"
proof (cases "write_statement is_object tx ty tasks event sequence snapshot db")
  case (Ok x)
  obtain new n where x: "x = (new, n)" by fastforce
  from write_statement_Ok [OF Ok [unfolded x] ok] show thesis
    using assms(1) Ok x unchanged written
    by (cases link) (auto simp: persist_one_def split: if_splits)
next
  case (Err e)
  with assms(1) unchanged show thesis by (cases link) (auto simp: persist_one_def)
qed

lemma committed_database_ok:
  assumes "database_ok is_object db" "committed is_object tx ty tasks event sequence snapshot db db'"
  shows "database_ok is_object db'"
  using assms append_snapshot_count(3)
  by (fastforce simp: database_ok_def committed_def table_ok_def)

text \<open>A sequence number that is taken stops every writer that uses it.\<close>

lemma taken_sequence_conflict:
  assumes "event_key (event_row ty event sequence) \<in> set (map event_key (db_events db))"
  shows "persist_one is_object tx Connected ty tasks event sequence snapshot db = (db, Err OptimisticLockError)"
proof (cases "append_snapshot ty snapshot sequence (db_snapshots db)")
  case (Ok x)
  with assms show ?thesis
    by (cases x) (auto simp: persist_one_def write_statement_def Let_def unique_violation_def split: if_splits)
next
  case (Err e)
  then have "e = unique_violation ''snapshots_pkey''"
    by (cases snapshot) (auto simp: Let_def split: if_splits)
  with Err show ?thesis by (simp add: persist_one_def write_statement_def Let_def unique_violation_def)
qed

text \<open>In a gap-free stream every number up to its length is taken.\<close>

lemma sequence_taken:
  assumes "gap_free db ty (se_aggregate_id event)" "n < length (stream db ty (se_aggregate_id event))"
  shows "event_key (event_row ty event (int (Suc n))) \<in> set (map event_key (db_events db))"
proof -
  let ?s = "stream db ty (se_aggregate_id event)"
  from assms have "map ev_sequence ?s ! n = map (\<lambda>n. int n) [1..<Suc (length ?s)] ! n"
    by (simp add: gap_free_def)
  with assms(2) have "ev_sequence (?s ! n) = int (Suc n)" by (simp del: upt_Suc)
  moreover from assms(2) have "?s ! n \<in> set ?s" by simp
  ultimately show ?thesis by (force simp: stream_def event_key_def event_row_def image_iff)
qed

text \<open>What a committed command adds to the streams and to the snapshots.\<close>

lemma committed_stream:
  assumes "committed is_object tx ty tasks event sequence snapshot db db'"
  shows "stream db' ty' k = stream db ty' k @
    (if ty' = ty \<and> k = se_aggregate_id event then [event_row ty event sequence] else [])"
  using assms by (auto simp: stream_def committed_def event_row_def)

lemma committed_gap_free:
  assumes "committed is_object tx ty tasks event (int (Suc n)) snapshot db db'"
    and "gap_free db ty (se_aggregate_id event)" "n \<le> length (stream db ty (se_aggregate_id event))"
  shows "n = length (stream db ty (se_aggregate_id event))" "gap_free db' ty (se_aggregate_id event)"
proof -
  from assms(1) have "event_key (event_row ty event (int (Suc n))) \<notin> set (map event_key (db_events db))"
    by (simp add: committed_def)
  with sequence_taken [OF assms(2)] assms(3) show n: "n = length (stream db ty (se_aggregate_id event))"
    using le_neq_implies_less by blast
  with assms(2) show "gap_free db' ty (se_aggregate_id event)"
    unfolding gap_free_def committed_stream [OF assms(1)] by (simp add: event_row_def)
qed

lemma committed_snapshot:
  assumes "committed is_object tx ty tasks event sequence snapshot db db'" "r \<in> set (db_snapshots db')"
  obtains (kept) "r \<in> set (db_snapshots db)"
  | (written) aid payload version where "snapshot = Insert aid payload version \<or> snapshot = Update aid payload version"
      "sn_aggregate_type r = ty" "sn_aggregate_id r = aid" "sn_last_sequence r = sequence" "sn_payload r = payload"
proof -
  from assms obtain snaps n where sn: "append_snapshot ty snapshot sequence (db_snapshots db) = Ok (snaps, n)" "r \<in> set snaps"
    by (auto simp: committed_def)
  show thesis
  proof (cases snapshot)
    case NoSnapshot
    with sn kept show thesis by simp
  next
    case (Insert aid payload version)
    with sn kept written show thesis by (auto split: if_splits)
  next
    case (Update aid payload version)
    with sn kept written show thesis by (auto simp: Let_def split: if_splits)
  qed
qed

lemma WritePlan_new_Ok:
  "WritePlan_new events su tasks = Ok plan \<longleftrightarrow>
     (events = [] \<and> su = None \<and> tasks = [] \<and> plan = NoOp) \<or>
     (\<exists>event sn. events = [event] \<and> SnapshotWrite_new su = Ok sn \<and>
        length tasks * 11 + 7 + bind_count sn < 65535 \<and> int (se_sequence event) \<le> i64_max \<and>
        plan = OneEvent event (int (se_sequence event)) sn)"
  by (cases su) (auto simp: WritePlan_new_def validate_bind_count_def sequence_as_i64_def i64_try_from_def rust_defs Let_def
      split: list.splits option.splits if_splits)

lemma persist_command_cases:
  assumes "persist_command is_object tx link ty tasks events su db = (db', r)"
    and ok: "table_ok is_object (db_outbox db)"
  obtains (noop) "events = []" "tasks = []" "db' = db" "r = Ok ()"
  | (unchanged) "db' = db" "is_err r"
  | (written) event sn where "events = [event]" "SnapshotWrite_new su = Ok sn"
      "committed is_object tx ty tasks event (int (se_sequence event)) sn db db'"
      "r = Ok () \<or> (\<exists>e. link = FailsAfter e \<and> r = Err (map_sqlx_error e))"
proof (cases "WritePlan_new events su tasks")
  case (Ok plan)
  show thesis
  proof (cases plan)
    case NoOp
    with Ok assms(1) have "db' = db" "r = Ok ()" by (simp_all add: persist_command_def)
    moreover from Ok NoOp have "events = []" "tasks = []" by (auto simp: WritePlan_new_Ok)
    ultimately show thesis by (intro noop)
  next
    case (OneEvent event sequence sn)
    with Ok have ev: "events = [event]" "SnapshotWrite_new su = Ok sn" "sequence = int (se_sequence event)"
      by (auto simp: WritePlan_new_Ok)
    from Ok OneEvent assms(1) have "persist_one is_object tx link ty tasks event sequence sn db = (db', r)"
      by (simp add: persist_command_def)
    from this ok show thesis
      by (cases rule: persist_one_cases) (use ev unchanged written in auto)
  qed
next
  case (Err e)
  with assms(1) unchanged show thesis by (auto simp: persist_command_def)
qed

section \<open>Properties\<close>

definition demo_event :: "nat \<Rightarrow> unit SerializedEvent" where
  "demo_event n = \<lparr> se_aggregate_id = lit ''a@b.c'', se_sequence = n, se_event_type = lit ''email_reserved'',
     se_event_version = lit ''1'', se_payload = (), se_metadata = () \<rparr>"

definition demo_new_task :: "unit NewTask" where
  "demo_new_task = \<lparr> nt_id = 9, nt_format = \<lparr>task_type = lit ''t'', task_version = 1\<rparr>, nt_payload = (),
     nt_metadata = (), nt_schedule = Now, nt_max_attempts = 10 \<rparr>"

definition demo_server :: Tx where
  "demo_server = \<lparr> tx_fault = NoFault, tx_statement_timestamp = 5, tx_clock_timestamp = 5,
     tx_update_timestamp = (\<lambda>_. 5), tx_locked = (\<lambda>_. False), tx_gen_random_uuid = (\<lambda>i. i + 100),
     tx_add_ms = (\<lambda>u n. Some (u + 1000 * n)), tx_timestamptz = (\<lambda>u. u div 1000) \<rparr>"

definition empty_database :: "unit Database" where
  "empty_database = \<lparr> db_events = [], db_snapshots = [], db_outbox = [] \<rparr>"

definition demo_written :: "unit Database" where
  "demo_written = fst (persist_command (\<lambda>_. True) demo_server Connected (lit ''e'') [demo_new_task]
     [demo_event 1] None empty_database)"

lemmas demo_write_defs = demo_event_def demo_new_task_def demo_server_def empty_database_def demo_written_def
  persist_command_def WritePlan_new_def sequence_as_i64_def validate_bind_count_def rust_defs Let_def
  persist_one_def write_statement_def insert_tasks_def outbox_row_def insert_rows_def row_ok_def event_row_def lit_def

lemma demo_persisted:
  "persist_command (\<lambda>_. True) demo_server Connected (lit ''e'') [demo_new_task] [demo_event 1] None
     empty_database = (demo_written, Ok ())"
  by (simp add: demo_write_defs)

text \<open>
  C16. A command's write is atomic under every failure of the connection: the database either stays
  as it was, or holds the event under a sequence number that was free, the snapshot write and one
  outbox row per task, and nothing else changed. Success means it was written; on a working
  connection an error means nothing was; only a connection lost after the statement leaves a
  written command reported as an error.
\<close>

theorem persist_is_atomic:
  assumes "persist_command is_object tx link ty tasks events su db = (db', r)"
    and "database_ok is_object db"
  shows "database_ok is_object db' \<and>
    (db' = db \<or> (\<exists>event sn. events = [event] \<and> SnapshotWrite_new su = Ok sn \<and>
       committed is_object tx ty tasks event (int (se_sequence event)) sn db db')) \<and>
    (r = Ok () \<longrightarrow> (events = [] \<and> tasks = []) \<or> (\<exists>event sn. events = [event] \<and>
       committed is_object tx ty tasks event (int (se_sequence event)) sn db db')) \<and>
    (link = Connected \<and> is_err r \<longrightarrow> db' = db)"
proof -
  from assms(2) have ok: "table_ok is_object (db_outbox db)" by (simp add: database_ok_def)
  from assms(1) ok show ?thesis
  proof (cases rule: persist_command_cases)
    case (written event sn)
    with committed_database_ok [OF assms(2) written(3)] show ?thesis by auto
  qed (use assms(2) in auto)
qed

theorem persist_is_atomic_witness:
  "database_ok (\<lambda>_. True) demo_written \<and> length (db_events demo_written) = 1 \<and> length (db_outbox demo_written) = 1"
  using persist_is_atomic [OF demo_persisted] by (simp add: demo_write_defs database_ok_def table_ok_def)

text \<open>
  C29. Optimistic locking: a writer that loaded a gap-free stream of \<open>n\<close> events, and writes event
  \<open>n + 1\<close> after any number of other commits, succeeds only if the stream still has \<open>n\<close> events,
  and the stream stays gap-free; if the stream has grown, the answer on a working connection is
  \<open>OptimisticLockError\<close> and the database stays as it is.
\<close>

theorem writes_extend_the_loaded_stream:
  assumes ok: "database_ok is_object db" and gap: "gap_free db ty (se_aggregate_id event)"
    and n: "se_sequence event = Suc n" "n \<le> length (stream db ty (se_aggregate_id event))"
    and w: "persist_one is_object tx Connected ty tasks event (int (se_sequence event)) snapshot db = (db', r)"
  shows "if n < length (stream db ty (se_aggregate_id event)) then r = Err OptimisticLockError \<and> db' = db
    else (r = Ok () \<longrightarrow> gap_free db' ty (se_aggregate_id event) \<and>
      length (stream db' ty (se_aggregate_id event)) = Suc n)"
proof (cases "n < length (stream db ty (se_aggregate_id event))")
  case True
  from sequence_taken [OF gap True] n(1)
  have "event_key (event_row ty event (int (se_sequence event))) \<in> set (map event_key (db_events db))" by simp
  from taken_sequence_conflict [OF this] w True show ?thesis by simp
next
  case False
  have "gap_free db' ty (se_aggregate_id event) \<and> length (stream db' ty (se_aggregate_id event)) = Suc n"
    if "r = Ok ()"
  proof -
    from ok have "table_ok is_object (db_outbox db)" by (simp add: database_ok_def)
    with w that have "committed is_object tx ty tasks event (int (se_sequence event)) snapshot db db'"
      by (cases rule: persist_one_cases [OF w]) auto
    with committed_stream [OF this] committed_gap_free [of is_object tx ty tasks event n snapshot db db'] gap n False show ?thesis
      by simp
  qed
  with False show ?thesis by simp
qed

theorem writes_extend_the_loaded_stream_witness:
  "persist_one (\<lambda>_. True) demo_server Connected (lit ''e'') [] (demo_event 1) 1 NoSnapshot demo_written =
     (demo_written, Err OptimisticLockError)"
proof -
  obtain db' r where w: "persist_one (\<lambda>_. True) demo_server Connected (lit ''e'') [] (demo_event 1)
      (int (se_sequence (demo_event 1))) NoSnapshot demo_written = (db', r)" by fastforce
  have "database_ok (\<lambda>_. True) demo_written"
    "gap_free demo_written (lit ''e'') (se_aggregate_id (demo_event 1))"
    "length (stream demo_written (lit ''e'') (se_aggregate_id (demo_event 1))) = 1"
    by (simp_all add: demo_write_defs database_ok_def table_ok_def gap_free_def stream_def)
  with writes_extend_the_loaded_stream [OF _ _ _ _ w, of 0] w show ?thesis
    by (auto simp: demo_event_def split: if_splits)
qed

text \<open>
  The plan accepts exactly nothing at all, or one event whose sequence and snapshot version fit
  \<open>bigint\<close> and whose statement stays below PostgreSQL's bind limit; several events, a snapshot or
  tasks without an event are rejected before any SQL.
\<close>

theorem write_plan_decision:
  "(\<exists>plan. WritePlan_new events su tasks = Ok plan) \<longleftrightarrow>
     (case events of
        [] \<Rightarrow> su = None \<and> tasks = []
      | [event] \<Rightarrow> int (se_sequence event) \<le> i64_max \<and>
          (case su of None \<Rightarrow> length tasks * 11 + 7 < 65535
           | Some (_, _, version) \<Rightarrow> int version \<le> i64_max \<and>
               length tasks * 11 + 7 + (if version = 1 then 5 else 6) < 65535)
      | _ \<Rightarrow> False)"
  unfolding WritePlan_new_Ok
  by (cases su) (auto simp: sequence_as_i64_def i64_try_from_def split: list.splits if_splits)

end
