(* ===== verification/Command_Execution.thy ===== *)
theory Command_Execution
  imports Event_Repository
begin

text \<open>
  Command gateways: \<open>command.rs\<close>, \<open>command/retry.rs\<close>, \<open>command/executor.rs\<close> and the
  configuration of \<open>postgres/command_factory.rs\<close>.

  The CQRS framework is a library: it is the argument \<open>fw_execute\<close>, a function on a world \<open>'w\<close>
  (the database and whatever else changes) that may panic, as an aggregate's \<open>apply\<close> may.
  Sleeping is the argument \<open>sleep\<close>, which lets the world change; the random sample of a backoff
  and the floating point product are arguments. The variants of \<open>AggregateError\<close> are those the
  code matches. The retry loop recurses on the attempts that remain, so it ends; it returns the
  world, the result and the delays it slept.

  The theory bounds the delays, shows that the loop returns within its attempts, that only
  conflicts are retried, and what of an aggregate error reaches the gateway.
\<close>

section \<open>Errors\<close>

datatype 'd AggregateError =
    UserError 'd
  | AggregateConflict
  | DatabaseConnectionError
  | DeserializationError
  | UnexpectedError

datatype 'd CommandGatewayError = Domain 'd | Conflict | Unavailable

fun map_aggregate_error :: "'d AggregateError \<Rightarrow> 'd CommandGatewayError" where
  "map_aggregate_error (UserError error) = Domain error"
| "map_aggregate_error AggregateConflict = Conflict"
| "map_aggregate_error DatabaseConnectionError = Unavailable"
| "map_aggregate_error DeserializationError = Unavailable"
| "map_aggregate_error UnexpectedError = Unavailable"

text \<open>The category \<open>log_aggregate_error\<close> writes, if it logs at all.\<close>

fun log_aggregate_error :: "'d AggregateError \<Rightarrow> string option" where
  "log_aggregate_error DatabaseConnectionError = Some ''connection''"
| "log_aggregate_error DeserializationError = Some ''deserialization''"
| "log_aggregate_error UnexpectedError = Some ''unexpected''"
| "log_aggregate_error (UserError _) = None"
| "log_aggregate_error AggregateConflict = None"

section \<open>The retry policy\<close>

datatype AggregateConflictRetryPolicyError = InvalidAttemptLimit | InvalidBackoff | InvalidJitter

record AggregateConflictRetryPolicy =
  cp_max_attempts :: nat
  cp_initial_backoff :: duration
  cp_max_backoff :: duration
  cp_jitter_ratio :: f64

text \<open>An \<open>f64\<close> that is not finite is \<open>None\<close>.\<close>

definition AggregateConflictRetryPolicy_new ::
  "nat \<Rightarrow> duration \<Rightarrow> duration \<Rightarrow> f64 option
     \<Rightarrow> (AggregateConflictRetryPolicy, AggregateConflictRetryPolicyError) result" where
  "AggregateConflictRetryPolicy_new max_attempts initial_backoff max_backoff jitter_ratio =
     (if max_attempts = 0 then Err InvalidAttemptLimit
      else if initial_backoff > max_backoff \<or> int (as_millis max_backoff) > i64_max then Err InvalidBackoff
      else (case jitter_ratio of
          None \<Rightarrow> Err InvalidJitter
        | Some jitter \<Rightarrow>
            if \<not> (0 \<le> jitter \<and> jitter \<le> 1) then Err InvalidJitter
            else Ok \<lparr> cp_max_attempts = max_attempts, cp_initial_backoff = initial_backoff,
                       cp_max_backoff = max_backoff, cp_jitter_ratio = jitter \<rparr>))"

definition backoff_bounds ::
  "(duration \<Rightarrow> f64 \<Rightarrow> duration) \<Rightarrow> (rat \<Rightarrow> f64) \<Rightarrow> AggregateConflictRetryPolicy \<Rightarrow> nat \<Rightarrow> duration \<times> duration" where
  "backoff_bounds mul_f64 rnd self retry =
     (let exponent = (if retry - 1 < 2 ^ 32 then retry - 1 else 2 ^ 32 - 1);
          multiplier = (if exponent < 32 then 2 ^ exponent else 2 ^ 32 - 1);
          backoff = min (duration_saturating_mul (cp_initial_backoff self) multiplier) (cp_max_backoff self);
          lower = min (mul_f64 backoff (rnd (1 - cp_jitter_ratio self))) backoff;
          upper = max (min (mul_f64 backoff (rnd (1 + cp_jitter_ratio self))) (cp_max_backoff self)) backoff in
      (lower, upper))"

text \<open>\<open>Duration::clamp\<close> asserts that its bounds are ordered.\<close>

definition clamp :: "duration \<Rightarrow> duration \<Rightarrow> duration \<Rightarrow> duration run" where
  "clamp x lower upper = (if lower \<le> upper then Return (max lower (min upper x)) else Panic)"

definition policy_backoff ::
  "(duration \<Rightarrow> f64 \<Rightarrow> duration) \<Rightarrow> (rat \<Rightarrow> f64) \<Rightarrow> (nat \<Rightarrow> duration) \<Rightarrow> AggregateConflictRetryPolicy \<Rightarrow> nat
     \<Rightarrow> duration run" where
  "policy_backoff mul_f64 rnd sample self retry =
     (let (lower, upper) = backoff_bounds mul_f64 rnd self retry in
      if lower = upper then Return lower else clamp (sample retry) lower upper)"

definition AggregateConflictRetryPolicy_default :: "AggregateConflictRetryPolicy run" where
  "AggregateConflictRetryPolicy_default =
     (case AggregateConflictRetryPolicy_new 3 (from_millis 5) (from_millis 50) (Some (1 / 5)) of
        Ok p \<Rightarrow> Return p | Err _ \<Rightarrow> Panic)"

section \<open>The retry loop\<close>

type_synonym ('w, 'a, 'd) operation = "'w \<Rightarrow> ('w \<times> ('a, 'd AggregateError) result) run"

fun retry_from ::
  "(nat \<Rightarrow> duration run) \<Rightarrow> (duration \<Rightarrow> 'w \<Rightarrow> 'w) \<Rightarrow> ('w, 'a, 'd) operation \<Rightarrow> nat \<Rightarrow> nat \<Rightarrow> nat \<Rightarrow> 'w
     \<Rightarrow> ('w \<times> ('a, 'd AggregateError) result \<times> duration list) run" where
  "retry_from backoff sleep operation max_attempts att 0 w = Panic"
| "retry_from backoff sleep operation max_attempts att (Suc remaining) w =
     bind_run (operation w) (\<lambda>(w', r).
       if r = Err AggregateConflict \<and> att < max_attempts
       then bind_run (backoff att) (\<lambda>d.
         bind_run (retry_from backoff sleep operation max_attempts (Suc att) remaining (sleep d w'))
           (\<lambda>(w'', r', ds). Return (w'', r', d # ds)))
       else Return (w', r, []))"

definition retry_on_aggregate_conflict ::
  "(nat \<Rightarrow> duration run) \<Rightarrow> (duration \<Rightarrow> 'w \<Rightarrow> 'w) \<Rightarrow> nat \<Rightarrow> ('w, 'a, 'd) operation \<Rightarrow> 'w
     \<Rightarrow> ('w \<times> ('a, 'd AggregateError) result \<times> duration list) run" where
  "retry_on_aggregate_conflict backoff sleep max_attempts operation w =
     retry_from backoff sleep operation max_attempts 1 max_attempts w"

section \<open>The executor\<close>

text \<open>
  \<open>CqrsCommandExecutor::execute\<close>: one framework for the whole call, built from the tasks, and
  the same command for every attempt.
\<close>

definition CqrsCommandExecutor_execute ::
  "('v NewTask list \<Rightarrow> 'fw) \<Rightarrow> ('fw \<Rightarrow> rstring \<Rightarrow> 'c \<Rightarrow> ('w, unit, 'd) operation) \<Rightarrow> (nat \<Rightarrow> duration run)
     \<Rightarrow> (duration \<Rightarrow> 'w \<Rightarrow> 'w) \<Rightarrow> nat \<Rightarrow> rstring \<Rightarrow> 'c \<Rightarrow> 'v NewTask list \<Rightarrow> 'w
     \<Rightarrow> ('w \<times> (unit, 'd CommandGatewayError) result) run" where
  "CqrsCommandExecutor_execute build_framework fw_execute backoff sleep max_attempts aggregate_id command tasks w =
     (let framework = build_framework tasks in
      bind_run (retry_on_aggregate_conflict backoff sleep max_attempts (fw_execute framework aggregate_id command) w)
        (\<lambda>(w', r, _). Return (w', map_err map_aggregate_error r)))"

record PostgresCommandConfig =
  cc_snapshot_interval :: nat
  cc_conflict_retry :: AggregateConflictRetryPolicy

datatype PostgresCommandConfigError = InvalidSnapshotInterval

definition PostgresCommandConfig_new ::
  "nat \<Rightarrow> AggregateConflictRetryPolicy \<Rightarrow> (PostgresCommandConfig, PostgresCommandConfigError) result" where
  "PostgresCommandConfig_new snapshot_interval conflict_retry =
     (if snapshot_interval = 0 then Err InvalidSnapshotInterval
      else Ok \<lparr> cc_snapshot_interval = snapshot_interval, cc_conflict_retry = conflict_retry \<rparr>)"

definition PostgresCommandConfig_default :: "PostgresCommandConfig run" where
  "PostgresCommandConfig_default =
     bind_run AggregateConflictRetryPolicy_default (\<lambda>policy.
       case PostgresCommandConfig_new 25 policy of Ok c \<Rightarrow> Return c | Err _ \<Rightarrow> Panic)"

text \<open>
  \<open>postgres::command_executor\<close>: each call builds its framework from a repository bound to the
  tasks of the call and a snapshot store of the configured interval; the store and the framework
  are the library's \<open>new_snapshot_store\<close> and \<open>new_framework\<close>, the reader that of \<open>postgres-es\<close>.
\<close>

definition command_executor ::
  "'v PostgresEventRepository \<Rightarrow> ('v PostgresEventRepositoryWithOutbox \<Rightarrow> nat \<Rightarrow> 'store) \<Rightarrow> ('store \<Rightarrow> 'fw)
     \<Rightarrow> ('fw \<Rightarrow> rstring \<Rightarrow> 'c \<Rightarrow> ('w, unit, 'd) operation) \<Rightarrow> (AggregateConflictRetryPolicy \<Rightarrow> nat \<Rightarrow> duration run)
     \<Rightarrow> (duration \<Rightarrow> 'w \<Rightarrow> 'w) \<Rightarrow> PostgresCommandConfig \<Rightarrow> rstring \<Rightarrow> 'c \<Rightarrow> 'v NewTask list \<Rightarrow> 'w
     \<Rightarrow> ('w \<times> (unit, 'd CommandGatewayError) result) run" where
  "command_executor reader new_snapshot_store new_framework fw_execute backoff sleep config =
     (let snapshot_interval = cc_snapshot_interval config in
      CqrsCommandExecutor_execute
        (\<lambda>tasks. let repository = with_outbox (PostgresEventRepositoryWithOutbox_new reader) tasks;
                     store = new_snapshot_store repository snapshot_interval in
                 new_framework store)
        fw_execute (backoff (cc_conflict_retry config)) sleep (cp_max_attempts (cc_conflict_retry config)))"

section \<open>Facts\<close>

definition policy_ok :: "AggregateConflictRetryPolicy \<Rightarrow> bool" where
  "policy_ok p \<longleftrightarrow> 0 < cp_max_attempts p \<and> cp_initial_backoff p \<le> cp_max_backoff p \<and>
     int (as_millis (cp_max_backoff p)) \<le> i64_max \<and> 0 \<le> cp_jitter_ratio p \<and> cp_jitter_ratio p \<le> 1"

lemma policy_new_Ok:
  "AggregateConflictRetryPolicy_new n i m j = Ok p \<longleftrightarrow>
     policy_ok p \<and> cp_max_attempts p = n \<and> cp_initial_backoff p = i \<and> cp_max_backoff p = m \<and>
     j = Some (cp_jitter_ratio p)"
  by (cases p) (auto simp: AggregateConflictRetryPolicy_new_def policy_ok_def split: option.splits if_splits)

lemma backoff_bounds_ordered:
  assumes "backoff_bounds mul_f64 rnd p retry = (lower, upper)"
  shows "lower \<le> upper" "upper \<le> cp_max_backoff p"
proof -
  from assms obtain a b c where "lower = min a (min c (cp_max_backoff p))"
    "upper = max (min b (cp_max_backoff p)) (min c (cp_max_backoff p))"
    unfolding backoff_bounds_def Let_def prod.inject by blast
  then show "lower \<le> upper" "upper \<le> cp_max_backoff p" by linarith+
qed

lemma policy_backoff_returns:
  "\<exists>d. policy_backoff mul_f64 rnd sample p retry = Return d \<and> d \<le> cp_max_backoff p \<and>
     fst (backoff_bounds mul_f64 rnd p retry) \<le> d \<and> d \<le> snd (backoff_bounds mul_f64 rnd p retry)"
proof -
  obtain lower upper where b: "backoff_bounds mul_f64 rnd p retry = (lower, upper)" by fastforce
  note ord = backoff_bounds_ordered [OF b]
  then show ?thesis by (auto simp: policy_backoff_def clamp_def b)
qed

text \<open>The world before the \<open>n\<close>-th retry, when every call so far met a conflict.\<close>

fun after_conflicts ::
  "(nat \<Rightarrow> duration) \<Rightarrow> (duration \<Rightarrow> 'w \<Rightarrow> 'w) \<Rightarrow> ('w \<Rightarrow> 'w \<times> ('a, 'd AggregateError) result) \<Rightarrow> nat \<Rightarrow> 'w \<Rightarrow> 'w" where
  "after_conflicts backoff sleep operation 0 w = w"
| "after_conflicts backoff sleep operation (Suc n) w =
     sleep (backoff (Suc n)) (fst (operation (after_conflicts backoff sleep operation n w)))"

lemma after_conflicts_shift:
  "after_conflicts (\<lambda>k. backoff (Suc k)) sleep operation n (sleep (backoff 1) (fst (operation w))) =
     after_conflicts backoff sleep operation (Suc n) w"
  by (induction n) auto

lemma retry_from_result:
  assumes "k < remaining" "att + remaining = Suc max_attempts"
    and "\<And>i. i < k \<Longrightarrow> snd (operation (after_conflicts (\<lambda>j. backoff (att + j - 1)) sleep operation i w)) = Err AggregateConflict"
    and "snd (operation (after_conflicts (\<lambda>j. backoff (att + j - 1)) sleep operation k w)) \<noteq> Err AggregateConflict \<or>
      Suc k = remaining"
    and "0 < att"
  shows "retry_from (\<lambda>n. Return (backoff n)) sleep (\<lambda>w. Return (operation w)) max_attempts att remaining w =
    Return (fst (operation (after_conflicts (\<lambda>j. backoff (att + j - 1)) sleep operation k w)),
      snd (operation (after_conflicts (\<lambda>j. backoff (att + j - 1)) sleep operation k w)),
      map backoff [att..<att + k])"
  using assms
proof (induction remaining arbitrary: att w k)
  case (Suc remaining)
  obtain w1 r where op: "operation w = (w1, r)" by fastforce
  show ?case
  proof (cases k)
    case 0
    with Suc.prems op show ?thesis by auto
  next
    case (Suc k')
    let ?w = "sleep (backoff att) w1"
    have shift: "after_conflicts (\<lambda>j. backoff (Suc att + j - 1)) sleep operation n ?w =
        after_conflicts (\<lambda>j. backoff (att + j - 1)) sleep operation (Suc n) w" for n
      using after_conflicts_shift [of "\<lambda>j. backoff (att + j - 1)" sleep operation n w] op Suc.prems(5)
      by simp
    have conf: "r = Err AggregateConflict" using Suc.prems(3) [of 0] Suc op by simp
    have "retry_from (\<lambda>n. Return (backoff n)) sleep (\<lambda>w. Return (operation w)) max_attempts (Suc att) remaining ?w =
      Return (fst (operation (after_conflicts (\<lambda>j. backoff (att + j - 1)) sleep operation k w)),
        snd (operation (after_conflicts (\<lambda>j. backoff (att + j - 1)) sleep operation k w)),
        map backoff [Suc att..<Suc att + k'])"
      unfolding Suc shift [symmetric]
    proof (rule Suc.IH)
      show "snd (operation (after_conflicts (\<lambda>j. backoff (Suc att + j - 1)) sleep operation i ?w)) = Err AggregateConflict"
        if "i < k'" for i unfolding shift using Suc.prems(3) [of "Suc i"] that Suc by simp
    qed (use Suc.prems Suc shift in auto)
    moreover have "att < max_attempts" using Suc.prems(1,2) Suc by simp
    ultimately show ?thesis using op conf Suc by (simp add: upt_conv_Cons del: upt_Suc)
  qed
qed simp

text \<open>However the operation behaves, the loop makes at most the allowed attempts.\<close>

lemma retry_from_bounded:
  assumes "\<And>w. operation w \<noteq> Panic" "\<And>n. \<exists>d. backoff n = Return d \<and> d \<le> limit"
    and "0 < remaining" "att + remaining = Suc max_attempts"
  shows "\<exists>w' r ds. retry_from backoff sleep operation max_attempts att remaining w = Return (w', r, ds) \<and>
    length ds < remaining \<and> (\<forall>d\<in>set ds. d \<le> limit) \<and>
    (r = Err AggregateConflict \<longrightarrow> Suc (length ds) = remaining)"
  using assms(3,4)
proof (induction remaining arbitrary: att w)
  case (Suc remaining)
  obtain w1 r where op: "operation w = Return (w1, r)"
    using assms(1) [of w] by (cases "operation w") auto
  show ?case
  proof (cases "r = Err AggregateConflict \<and> att < max_attempts")
    case True
    obtain d where d: "backoff att = Return d" "d \<le> limit" using assms(2) by blast
    from True Suc.prems Suc.IH [of "Suc att" "sleep d w1"] obtain w' r' ds where
      "retry_from backoff sleep operation max_attempts (Suc att) remaining (sleep d w1) = Return (w', r', ds)"
      "length ds < remaining" "\<forall>d\<in>set ds. d \<le> limit" "r' = Err AggregateConflict \<longrightarrow> Suc (length ds) = remaining"
      by auto
    with op True d show ?thesis by simp
  next
    case False
    with op Suc.prems show ?thesis by auto
  qed
qed simp

section \<open>Properties\<close>

text \<open>
  C35. The retry of a command ends, without panic: with a valid policy and an operation that does
  not panic, it makes at most \<open>max_attempts\<close> calls, sleeps no longer than the maximal backoff
  between them, and returns a conflict only after the last allowed call.
\<close>

theorem conflict_retry_is_bounded:
  assumes "policy_ok policy" and "\<And>w. operation w \<noteq> Panic"
  shows "\<exists>w' r ds. retry_on_aggregate_conflict (policy_backoff mul_f64 rnd sample policy) sleep
      (cp_max_attempts policy) operation w = Return (w', r, ds) \<and>
    length ds < cp_max_attempts policy \<and> (\<forall>d\<in>set ds. d \<le> cp_max_backoff policy) \<and>
    (r = Err AggregateConflict \<longrightarrow> Suc (length ds) = cp_max_attempts policy)"
  unfolding retry_on_aggregate_conflict_def
  by (rule retry_from_bounded) (use assms policy_backoff_returns in \<open>auto simp: policy_ok_def, blast\<close>)

definition demo_policy :: AggregateConflictRetryPolicy where
  "demo_policy = \<lparr> cp_max_attempts = 3, cp_initial_backoff = 5, cp_max_backoff = 50, cp_jitter_ratio = 1 / 5 \<rparr>"

theorem conflict_retry_is_bounded_witness:
  "\<exists>w' r ds. retry_on_aggregate_conflict (policy_backoff (\<lambda>d x. d) id (\<lambda>_. 7) demo_policy) (\<lambda>_ w. w)
      (cp_max_attempts demo_policy) (\<lambda>w. Return (Suc w, Err (AggregateConflict :: unit AggregateError) :: (unit, _) result)) 0 =
      Return (w', r, ds) \<and> length ds < 3"
  using conflict_retry_is_bounded [of demo_policy
      "\<lambda>w. Return (Suc w, Err (AggregateConflict :: unit AggregateError) :: (unit, _) result)"
      "\<lambda>d x. d" id "\<lambda>_. 7" "\<lambda>_ w. w" 0]
  by (auto simp: demo_policy_def policy_ok_def rust_defs)

text \<open>
  Only conflicts are retried, and with the same operation: if the first \<open>k\<close> calls meet a
  conflict and the next one does not, or is the last one allowed, then the result is that of call
  \<open>k + 1\<close>, made in the world the earlier calls and sleeps left, after exactly \<open>k\<close> sleeps.
\<close>

theorem retry_returns_first_decided_result:
  assumes "k < max_attempts"
    and "\<And>i. i < k \<Longrightarrow> snd (operation (after_conflicts backoff sleep operation i w)) = Err AggregateConflict"
    and "snd (operation (after_conflicts backoff sleep operation k w)) \<noteq> Err AggregateConflict \<or> Suc k = max_attempts"
  shows "retry_on_aggregate_conflict (\<lambda>n. Return (backoff n)) sleep max_attempts (\<lambda>w. Return (operation w)) w =
    Return (fst (operation (after_conflicts backoff sleep operation k w)),
      snd (operation (after_conflicts backoff sleep operation k w)), map backoff [1..<Suc k])"
  using retry_from_result [of k max_attempts 1 max_attempts operation backoff sleep w] assms
  by (simp add: retry_on_aggregate_conflict_def)

theorem retry_returns_first_decided_result_witness:
  "retry_on_aggregate_conflict (\<lambda>n. Return (10 * n)) (\<lambda>_ w. w) 3
     (\<lambda>w. Return (Suc w, if w = 0 then Err (AggregateConflict :: unit AggregateError) else Ok w)) 0 =
   Return (2, Ok 1, [10])"
proof -
  let ?op = "\<lambda>w. (Suc w, if w = 0 then Err (AggregateConflict :: unit AggregateError) else Ok w)"
  show ?thesis
    using retry_returns_first_decided_result [of 1 3 ?op "\<lambda>n. 10 * n" "\<lambda>_ w. w" 0]
    by (simp add: eval_nat_numeral)
qed

text \<open>
  A gateway caller sees a domain rejection, a conflict or \<open>Unavailable\<close>, and only technical
  failures are logged: exactly the errors reported as \<open>Unavailable\<close> have a log category.
\<close>

theorem gateway_error_classes:
  "(case map_aggregate_error e of Domain d \<Rightarrow> e = UserError d | Conflict \<Rightarrow> e = AggregateConflict
    | Unavailable \<Rightarrow> log_aggregate_error e \<noteq> None) \<and>
   (log_aggregate_error e \<noteq> None \<longleftrightarrow> map_aggregate_error e = Unavailable)"
  by (cases e) auto

end
