(* ===== verification/Host.thy ===== *)
theory Host
  imports Supervision Command_Execution
begin

text \<open>
  Diagnostics and the process host of the runtime (\<open>diagnostics.rs\<close>, \<open>logging.rs\<close>, \<open>host\<close>).

  A log call is the \<open>log_event\<close> handed to the logger: its fields and its message. A \<open>Debug\<close>
  implementation is the tree of builder calls it makes (\<open>debug_out\<close>). Errors of the libraries carry
  the text the library puts in them, so that what is logged can be seen not to depend on it.

  The host waits for the first of signal, cancellation, inbound exit and runtime exit. A run is
  given by what each poll of its \<open>select!\<close> finds ready and by what the components return once
  they have been told to stop.
\<close>

section \<open>Diagnostics\<close>

datatype log_value = Text rstring | Number int | Maybe "rstring option"

type_synonym log_event = "(string \<times> log_value) list \<times> string"

text \<open>The variants of \<open>sqlx::Error\<close> the program tells apart, with their texts.\<close>

datatype sqlx_error =
    Io rstring
  | Tls rstring
  | Database "rstring option" rstring
  | PoolTimedOut
  | PoolClosed
  | Decode rstring
  | ColumnDecode rstring
  | Configuration rstring
  | OtherSqlx rstring

fun sqlx_kind :: "sqlx_error \<Rightarrow> string" where
  "sqlx_kind (Io _) = ''io''"
| "sqlx_kind (Tls _) = ''tls''"
| "sqlx_kind (Database _ _) = ''database''"
| "sqlx_kind PoolTimedOut = ''pool_timeout''"
| "sqlx_kind PoolClosed = ''pool_closed''"
| "sqlx_kind (Decode _) = ''decode''"
| "sqlx_kind (ColumnDecode _) = ''decode''"
| "sqlx_kind (sqlx_error.Configuration _) = ''configuration''"
| "sqlx_kind (OtherSqlx _) = ''other''"

definition sqlstate_char :: "uchar \<Rightarrow> bool" where
  "sqlstate_char ch \<longleftrightarrow> 65 \<le> ch \<and> ch \<le> 90 \<or> 48 \<le> ch \<and> ch \<le> 57"

fun sqlstate :: "sqlx_error \<Rightarrow> rstring option" where
  "sqlstate (Database (Some code) _) = (if length code = 5 \<and> list_all sqlstate_char code then Some code else None)"
| "sqlstate _ = None"

definition log_sqlx_failure :: "string \<Rightarrow> sqlx_error \<Rightarrow> log_event" where
  "log_sqlx_failure operation error =
     ([(''component'', Text (lit ''postgres'')), (''operation'', Text (lit operation)),
       (''category'', Text (lit (sqlx_kind error))), (''sqlstate'', Maybe (sqlstate error))],
      ''storage operation failed'')"

text \<open>
  The chain of sources of a failed command, from the outermost: for each error, the
  \<open>sqlx::Error\<close> it downcasts to, if any.
\<close>

fun log_command_failure :: "rstring \<Rightarrow> string \<Rightarrow> sqlx_error option list \<Rightarrow> log_event" where
  "log_command_failure aggregate_type category [] =
     ([(''component'', Text (lit ''command'')), (''operation'', Text (lit ''execute'')),
       (''aggregate_type'', Text (safe_type aggregate_type)), (''category'', Text (lit category))],
      ''command execution failed'')"
| "log_command_failure aggregate_type category (Some error # _) =
     ([(''component'', Text (lit ''command'')), (''operation'', Text (lit ''execute'')),
       (''aggregate_type'', Text (safe_type aggregate_type)), (''category'', Text (lit category)),
       (''storage_category'', Text (lit (sqlx_kind error))), (''sqlstate'', Maybe (sqlstate error))],
      ''command execution failed'')"
| "log_command_failure aggregate_type category (None # sources) =
     log_command_failure aggregate_type category sources"

text \<open>\<open>runtime::worker::log_failed\<close>; \<open>uuid_fmt\<close> is the display of an identifier.\<close>

definition log_failed :: "(Uuid \<Rightarrow> rstring) \<Rightarrow> TaskFailure \<Rightarrow> log_event" where
  "log_failed uuid_fmt task =
     ([(''task_id'', Text (uuid_fmt (tf_id task))), (''task_type'', Text (safe_type (task_type (tf_format task)))),
       (''task_version'', Number (task_version (tf_format task))), (''attempt'', Number (tf_attempt task)),
       (''reason'', Text (lit (TaskFailureCause_as_str (tf_cause task))))],
      ''task failed'')"

text \<open>\<open>postgres::pool::connect_pool\<close> over the driver's \<open>connect_with\<close>: the error is logged and returned.\<close>

definition MAX_CONNECTIONS :: nat where "MAX_CONNECTIONS = 10"

definition connect_pool ::
  "(nat \<Rightarrow> 'o \<Rightarrow> ('pool, sqlx_error) result) \<Rightarrow> 'o \<Rightarrow> log_event list \<times> ('pool, sqlx_error) result" where
  "connect_pool connect_with options =
     (case connect_with MAX_CONNECTIONS options of
        Ok pool \<Rightarrow> ([], Ok pool)
      | Err e \<Rightarrow> ([log_sqlx_failure ''connect'' e], Err e))"

section \<open>Logging\<close>

record 'l LoggingConfig =
  lc_level_filter :: 'l

definition LoggingConfig_new :: "'l \<Rightarrow> 'l LoggingConfig" where
  "LoggingConfig_new level_filter = \<lparr> lc_level_filter = level_filter \<rparr>"

text \<open>\<open>parse_level\<close> is \<open>LevelFilter::from_str\<close>.\<close>

definition LoggingConfig_from_lookup ::
  "(rstring \<Rightarrow> ('l, 'e) result) \<Rightarrow> (string \<Rightarrow> rstring option) \<Rightarrow> ('l LoggingConfig, 'e) result" where
  "LoggingConfig_from_lookup parse_level lookup =
     bind_result (parse_level (case lookup ''RUST_LOG'' of Some v \<Rightarrow> v | None \<Rightarrow> lit ''info'')) (\<lambda>level.
       Ok (LoggingConfig_new level))"

section \<open>Host errors\<close>

record io_error =
  ie_kind :: string
  ie_text :: rstring

record join_error =
  je_id :: nat
  je_panicked :: bool
  je_cancelled :: bool
  je_payload :: rstring

datatype HostError =
    ShutdownSignal io_error
  | Inbound io_error
  | InboundStopped
  | TaskRuntimeJoin join_error
  | TaskRuntime TaskRuntimeError
  | TaskRuntimeStopped

fun HostError_to_string :: "HostError \<Rightarrow> string" where
  "HostError_to_string (ShutdownSignal _) = ''failed to observe a shutdown signal''"
| "HostError_to_string (Inbound _) = ''inbound adapter failed''"
| "HostError_to_string InboundStopped = ''inbound adapter terminated before shutdown''"
| "HostError_to_string (TaskRuntimeJoin _) = ''tasks supervisor task failed''"
| "HostError_to_string (TaskRuntime _) = ''tasks supervisor failed''"
| "HostError_to_string TaskRuntimeStopped = ''tasks supervisor terminated before shutdown''"

text \<open>The derived \<open>Debug\<close> of what stops a runtime.\<close>

fun TaskWorkerPoolConfigError_debug :: "TaskWorkerPoolConfigError \<Rightarrow> debug_out" where
  "TaskWorkerPoolConfigError_debug (TaskWorkerPoolConfigError.InvalidEnvironmentValue name) =
     DebugTuple ''InvalidEnvironmentValue'' [DebugString (lit name)]"
| "TaskWorkerPoolConfigError_debug InvalidConcurrency = DebugText ''InvalidConcurrency''"
| "TaskWorkerPoolConfigError_debug InvalidQueueCapacity = DebugText ''InvalidQueueCapacity''"
| "TaskWorkerPoolConfigError_debug InvalidPollInterval = DebugText ''InvalidPollInterval''"
| "TaskWorkerPoolConfigError_debug InvalidHandlerTimeout = DebugText ''InvalidHandlerTimeout''"
| "TaskWorkerPoolConfigError_debug InvalidLeaseDuration = DebugText ''InvalidLeaseDuration''"
| "TaskWorkerPoolConfigError_debug TaskWorkerPoolConfigError.InvalidStorageTimeout = DebugText ''InvalidStorageTimeout''"
| "TaskWorkerPoolConfigError_debug LeaseBudgetOverflow = DebugText ''LeaseBudgetOverflow''"
| "TaskWorkerPoolConfigError_debug LeaseTooShort = DebugText ''LeaseTooShort''"

fun WorkerSetupError_debug :: "WorkerSetupError \<Rightarrow> debug_out" where
  "WorkerSetupError_debug (Build worker_index source) = DebugStruct ''Build''
     [(''worker_index'', DebugId worker_index), (''source'', TaskDispatcherError_debug source)]"
| "WorkerSetupError_debug (FormatsMismatch worker_index) = DebugStruct ''FormatsMismatch'' [(''worker_index'', DebugId worker_index)]"

fun TaskRuntimeError_debug :: "TaskRuntimeError \<Rightarrow> debug_out" where
  "TaskRuntimeError_debug (TaskRuntimeError.Configuration e) = DebugTuple ''Configuration'' [TaskWorkerPoolConfigError_debug e]"
| "TaskRuntimeError_debug (WorkerSetup e) = DebugTuple ''WorkerSetup'' [WorkerSetupError_debug e]"

fun HostError_debug :: "HostError \<Rightarrow> debug_out" where
  "HostError_debug (ShutdownSignal e) = DebugStruct ''ShutdownSignal'' [(''kind'', DebugText (ie_kind e))]"
| "HostError_debug (Inbound e) = DebugStruct ''Inbound'' [(''kind'', DebugText (ie_kind e))]"
| "HostError_debug (TaskRuntime e) = DebugTuple ''TaskRuntime'' [TaskRuntimeError_debug e]"
| "HostError_debug (TaskRuntimeJoin e) = DebugStruct ''TaskRuntimeJoin''
     [(''task_id'', DebugId (je_id e)), (''panicked'', DebugBool (je_panicked e)), (''cancelled'', DebugBool (je_cancelled e))]"
| "HostError_debug InboundStopped = DebugText (HostError_to_string InboundStopped)"
| "HostError_debug TaskRuntimeStopped = DebugText (HostError_to_string TaskRuntimeStopped)"

text \<open>\<open>HostError::log\<close>: the fields it gives the logger, with its message.\<close>

fun HostError_log :: "HostError \<Rightarrow> string \<Rightarrow> (string \<times> debug_out) list \<times> string" where
  "HostError_log (TaskRuntimeJoin source) message =
     ([(''error'', DebugText (HostError_to_string (TaskRuntimeJoin source))), (''task_id'', DebugId (je_id source)),
       (''panicked'', DebugBool (je_panicked source)), (''cancelled'', DebugBool (je_cancelled source))], message)"
| "HostError_log e message = ([(''error'', HostError_debug e)], message)"

section \<open>Signals\<close>

text \<open>
  \<open>signal::shutdown_signal\<close>: registering SIGTERM may fail; otherwise the first of interrupt and
  terminate decides, and \<open>interrupt_first\<close> when both are ready. A closed SIGTERM stream is an error.
\<close>

definition wait_for_signal ::
  "bool \<Rightarrow> (unit, io_error) result option \<Rightarrow> unit option option \<Rightarrow> (unit, io_error) result option" where
  "wait_for_signal interrupt_first interrupt terminate =
     (let terminated = map_option (\<lambda>s. ok_or s \<lparr> ie_kind = ''Other'', ie_text = lit ''SIGTERM signal stream closed'' \<rparr>) terminate in
      case (interrupt, terminated) of
        (None, t) \<Rightarrow> t
      | (Some i, None) \<Rightarrow> Some i
      | (Some i, Some t) \<Rightarrow> Some (if interrupt_first then i else t))"

definition shutdown_signal ::
  "(unit, io_error) result \<Rightarrow> bool \<Rightarrow> (unit, io_error) result option \<Rightarrow> unit option option \<Rightarrow> (unit, io_error) result option" where
  "shutdown_signal registered interrupt_first interrupt terminate =
     (case registered of Err e \<Rightarrow> Some (Err e) | Ok _ \<Rightarrow> wait_for_signal interrupt_first interrupt terminate)"

section \<open>The lifecycle\<close>

type_synonym TaskRuntimeExit = "((unit, TaskRuntimeError) result, join_error) result"

datatype StopReason =
    Signal "(unit, io_error) result"
  | Requested
  | InboundExit "(unit, io_error) result"
  | TaskRuntimeExit TaskRuntimeExit

record host_poll =
  hp_signal :: "(unit, io_error) result option"
  hp_cancelled :: bool
  hp_inbound :: "(unit, io_error) result option"
  hp_tasks :: "TaskRuntimeExit option"

text \<open>The biased \<open>select!\<close>: the first ready branch in the order of the source.\<close>

definition select_stop :: "host_poll \<Rightarrow> StopReason option" where
  "select_stop p =
     (case hp_signal p of Some r \<Rightarrow> Some (Signal r) | None \<Rightarrow>
      if hp_cancelled p then Some Requested
      else case hp_inbound p of Some r \<Rightarrow> Some (InboundExit r) | None \<Rightarrow> map_option TaskRuntimeExit (hp_tasks p))"

fun await_stop :: "host_poll list \<Rightarrow> StopReason option" where
  "await_stop [] = None"
| "await_stop (p # ps) = (case select_stop p of Some reason \<Rightarrow> Some reason | None \<Rightarrow> await_stop ps)"

datatype host_event = Spawned | CancelRequested | InboundEnded | TasksEnded | Logged HostError

text \<open>\<open>preserve_primary_failure\<close>, with what it logs.\<close>

fun preserve_primary_failure ::
  "(unit, HostError) result \<Rightarrow> (unit, HostError) result \<Rightarrow> host_event list \<times> (unit, HostError) result" where
  "preserve_primary_failure (Ok _) secondary = ([], secondary)"
| "preserve_primary_failure (Err error) (Err secondary) = ([Logged secondary], Err error)"
| "preserve_primary_failure (Err error) (Ok _) = ([], Err error)"

definition expected_inbound_exit :: "(unit, io_error) result \<Rightarrow> (unit, HostError) result" where
  "expected_inbound_exit r = map_err Inbound r"

fun expected_runtime_exit :: "TaskRuntimeExit \<Rightarrow> (unit, HostError) result" where
  "expected_runtime_exit (Ok (Ok _)) = Ok ()"
| "expected_runtime_exit (Ok (Err error)) = Err (TaskRuntime error)"
| "expected_runtime_exit (Err error) = Err (TaskRuntimeJoin error)"

fun unexpected_runtime_exit :: "TaskRuntimeExit \<Rightarrow> (unit, HostError) result" where
  "unexpected_runtime_exit (Ok (Ok _)) = Err TaskRuntimeStopped"
| "unexpected_runtime_exit other = expected_runtime_exit other"

text \<open>
  What follows the selection: \<open>inbound_result\<close> and \<open>supervisor_result\<close> are what the components
  return when they are awaited.
\<close>

fun finish ::
  "StopReason \<Rightarrow> (unit, io_error) result \<Rightarrow> TaskRuntimeExit \<Rightarrow> host_event list \<times> (unit, HostError) result" where
  "finish (Signal signal_result) inbound_result supervisor_result =
     (let (inner_log, inner) = preserve_primary_failure (expected_runtime_exit supervisor_result)
            (expected_inbound_exit inbound_result);
          (outer_log, result) = preserve_primary_failure (map_err ShutdownSignal signal_result) inner in
      ([InboundEnded, TasksEnded] @ inner_log @ outer_log, result))"
| "finish Requested inbound_result supervisor_result =
     (let (logged, result) = preserve_primary_failure (expected_runtime_exit supervisor_result)
            (expected_inbound_exit inbound_result) in
      ([InboundEnded, TasksEnded] @ logged, result))"
| "finish (InboundExit exit) inbound_result supervisor_result =
     (let primary = (case exit of Ok _ \<Rightarrow> InboundStopped | Err error \<Rightarrow> Inbound error);
          (logged, result) = preserve_primary_failure (Err primary) (expected_runtime_exit supervisor_result) in
      ([TasksEnded] @ logged, result))"
| "finish (TaskRuntimeExit exit) inbound_result supervisor_result =
     (let (logged, result) = preserve_primary_failure (unexpected_runtime_exit exit) (expected_inbound_exit inbound_result) in
      ([InboundEnded] @ logged, result))"

definition host_run ::
  "host_poll list \<Rightarrow> (unit, io_error) result \<Rightarrow> TaskRuntimeExit \<Rightarrow> (host_event list \<times> (unit, HostError) result) option" where
  "host_run polls inbound_result supervisor_result =
     (case await_stop polls of
        None \<Rightarrow> None
      | Some reason \<Rightarrow>
          (case finish reason inbound_result supervisor_result of
             (events, result) \<Rightarrow> Some ([Spawned, CancelRequested] @ events, result)))"

section \<open>Facts\<close>

text \<open>The failures of a run in the order of their priority.\<close>

fun failure_of :: "(unit, 'e) result \<Rightarrow> 'e list" where
  "failure_of (Ok _) = []"
| "failure_of (Err e) = [e]"

fun host_failures :: "StopReason \<Rightarrow> (unit, io_error) result \<Rightarrow> TaskRuntimeExit \<Rightarrow> HostError list" where
  "host_failures (Signal r) inbound tasks =
     map ShutdownSignal (failure_of r) @ failure_of (expected_runtime_exit tasks) @ map Inbound (failure_of inbound)"
| "host_failures Requested inbound tasks = failure_of (expected_runtime_exit tasks) @ map Inbound (failure_of inbound)"
| "host_failures (InboundExit r) inbound tasks =
     (case r of Ok _ \<Rightarrow> InboundStopped | Err e \<Rightarrow> Inbound e) # failure_of (expected_runtime_exit tasks)"
| "host_failures (TaskRuntimeExit x) inbound tasks =
     failure_of (unexpected_runtime_exit x) @ map Inbound (failure_of inbound)"

fun logged_errors :: "host_event list \<Rightarrow> HostError list" where
  "logged_errors [] = []"
| "logged_errors (Logged e # es) = e # logged_errors es"
| "logged_errors (_ # es) = logged_errors es"

lemma logged_errors_append [simp]: "logged_errors (xs @ ys) = logged_errors xs @ logged_errors ys"
  by (induction xs rule: logged_errors.induct) auto

lemma unexpected_is_failure: "\<exists>e. unexpected_runtime_exit x = Err e"
  by (cases x rule: unexpected_runtime_exit.cases) auto

lemma finish_failures:
  assumes "finish reason inbound tasks = (events, r)"
  shows "r = (case host_failures reason inbound tasks of [] \<Rightarrow> Ok () | e # _ \<Rightarrow> Err e)"
    "logged_errors events = rev (tl (host_failures reason inbound tasks))"
proof -
  have "r = (case host_failures reason inbound tasks of [] \<Rightarrow> Ok () | e # _ \<Rightarrow> Err e) \<and>
    logged_errors events = rev (tl (host_failures reason inbound tasks))"
  proof (cases reason)
    case (Signal x)
    with assms show ?thesis
      by (cases x; cases inbound; cases tasks rule: expected_runtime_exit.cases) (auto simp: expected_inbound_exit_def)
  next
    case Requested
    with assms show ?thesis
      by (cases inbound; cases tasks rule: expected_runtime_exit.cases) (auto simp: expected_inbound_exit_def)
  next
    case (InboundExit x)
    with assms show ?thesis
      by (cases x; cases tasks rule: expected_runtime_exit.cases) (auto simp: expected_inbound_exit_def)
  next
    case (TaskRuntimeExit x)
    with assms show ?thesis
      by (cases inbound; cases x rule: expected_runtime_exit.cases) (auto simp: expected_inbound_exit_def)
  qed
  then show "r = (case host_failures reason inbound tasks of [] \<Rightarrow> Ok () | e # _ \<Rightarrow> Err e)"
    "logged_errors events = rev (tl (host_failures reason inbound tasks))" by blast+
qed

lemma preserve_events: "preserve_primary_failure p s = (l, r) \<Longrightarrow> InboundEnded \<notin> set l \<and> TasksEnded \<notin> set l"
  by (cases p; cases s) auto

lemma finish_events:
  assumes "finish reason inbound tasks = (events, r)"
  shows "InboundEnded \<in> set events \<longleftrightarrow> (\<nexists>x. reason = InboundExit x)" "TasksEnded \<in> set events \<longleftrightarrow> (\<nexists>x. reason = TaskRuntimeExit x)"
proof -
  have "(InboundEnded \<in> set events \<longleftrightarrow> (\<nexists>x. reason = InboundExit x)) \<and> (TasksEnded \<in> set events \<longleftrightarrow> (\<nexists>x. reason = TaskRuntimeExit x))"
    using assms by (cases reason) (auto simp: Let_def dest!: preserve_events split: prod.splits)
  then show "InboundEnded \<in> set events \<longleftrightarrow> (\<nexists>x. reason = InboundExit x)"
    "TasksEnded \<in> set events \<longleftrightarrow> (\<nexists>x. reason = TaskRuntimeExit x)" by blast+
qed

lemma no_failures:
  "host_failures reason inbound tasks = [] \<longleftrightarrow>
     (reason = Requested \<or> reason = Signal (Ok ())) \<and> inbound = Ok () \<and> tasks = Ok (Ok ())"
proof -
  have f: "failure_of r = [] \<longleftrightarrow> r = Ok ()" for r :: "(unit, 'e) result" by (cases r) auto
  have t: "expected_runtime_exit tasks = Ok () \<longleftrightarrow> tasks = Ok (Ok ())" by (cases tasks rule: expected_runtime_exit.cases) auto
  show ?thesis
  proof (cases reason)
    case (TaskRuntimeExit x)
    with unexpected_is_failure [of x] show ?thesis by auto
  qed (auto simp: f t)
qed

lemma await_stop_first:
  assumes "await_stop polls = Some reason"
  shows "\<exists>n<length polls. select_stop (polls ! n) = Some reason \<and> (\<forall>m<n. select_stop (polls ! m) = None)"
  using assms
proof (induction polls)
  case (Cons p ps)
  show ?case
  proof (cases "select_stop p")
    case None
    with Cons obtain n where "n < length ps" "select_stop (ps ! n) = Some reason" "\<forall>m<n. select_stop (ps ! m) = None" by auto
    with None show ?thesis by (intro exI [of _ "Suc n"]) (auto simp: nth_Cons split: nat.split)
  next
    case (Some x)
    with Cons.prems show ?thesis by (intro exI [of _ 0]) simp
  qed
qed simp

lemma await_stop_None: "await_stop polls = None \<longleftrightarrow> (\<forall>p\<in>set polls. select_stop p = None)"
  by (induction polls) (auto split: option.splits)

text \<open>Texts that cannot forge a line or a field of the log.\<close>

definition log_char :: "uchar \<Rightarrow> bool" where
  "log_char ch \<longleftrightarrow> is_ascii_alphanumeric ch \<or> ch = 95 \<or> ch = 45 \<or> ch = 32"

fun log_value_safe :: "log_value \<Rightarrow> bool" where
  "log_value_safe (Text s) = list_all log_char s"
| "log_value_safe (Number _) = True"
| "log_value_safe (Maybe s) = (case s of None \<Rightarrow> True | Some t \<Rightarrow> list_all log_char t)"

lemmas log_char_defs = log_char_def is_ascii_alphanumeric_def sqlstate_char_def lit_def

lemma safe_type_log: "list_all log_char (safe_type s)"
  by (auto simp: safe_type_def log_char_def list_all_iff is_ascii_alphanumeric_def lit_def)

lemma sqlx_log: "list_all log_char (lit (sqlx_kind e))" "log_value_safe (Maybe (sqlstate e))"
proof -
  show "list_all log_char (lit (sqlx_kind e))" by (cases e) (simp_all add: log_char_defs)
  show "log_value_safe (Maybe (sqlstate e))"
    by (cases e rule: sqlstate.cases) (auto simp: list_all_iff log_char_defs)
qed

lemma command_failure_log:
  assumes "list_all log_char (lit category)"
  shows "list_all (log_value_safe \<circ> snd) (fst (log_command_failure aggregate_type category sources))"
proof -
  have "list_all log_char (lit ''command'')" "list_all log_char (lit ''execute'')" by (simp_all add: log_char_defs)
  with assms show ?thesis
    by (induction aggregate_type category sources rule: log_command_failure.induct)
      (simp_all add: safe_type_log sqlx_log(1) sqlx_log(2) [simplified])
qed

section \<open>Properties\<close>


definition demo_polls :: "host_poll list" where
  "demo_polls = [\<lparr> hp_signal = None, hp_cancelled = False, hp_inbound = None, hp_tasks = None \<rparr>,
     \<lparr> hp_signal = None, hp_cancelled = False, hp_inbound = Some (Ok ()), hp_tasks = Some (Ok (Ok ())) \<rparr>]"


text \<open>
  Logs of failures cannot be forged by data: whatever the names of aggregates and task types,
  the codes and texts of database errors and the chain of sources, each field of the logs of a
  failed command, a failed storage operation and a failed task holds only letters, digits,
  underscores, hyphens and spaces.
\<close>

theorem failure_logs_are_plain:
  assumes "log_aggregate_error error = Some category" and "list_all log_char (lit operation)"
    and "list_all log_char (uuid_fmt (tf_id task))"
  shows "list_all (log_value_safe \<circ> snd) (fst (log_command_failure aggregate_type category sources)) \<and>
    list_all (log_value_safe \<circ> snd) (fst (log_sqlx_failure operation sqlx)) \<and>
    list_all (log_value_safe \<circ> snd) (fst (log_failed uuid_fmt task))"
proof (intro conjI)
  have "list_all log_char (lit category)" using assms(1) by (cases error) (auto simp: log_char_defs)
  then show "list_all (log_value_safe \<circ> snd) (fst (log_command_failure aggregate_type category sources))" by (rule command_failure_log)
  have "list_all log_char (lit ''postgres'')" by (simp add: log_char_defs)
  with assms(2) show "list_all (log_value_safe \<circ> snd) (fst (log_sqlx_failure operation sqlx))"
    by (simp add: log_sqlx_failure_def sqlx_log(1) sqlx_log(2) [simplified])
  have "list_all log_char (lit (TaskFailureCause_as_str (tf_cause task)))"
    by (cases "tf_cause task") (simp_all add: log_char_defs)
  with assms(3) show "list_all (log_value_safe \<circ> snd) (fst (log_failed uuid_fmt task))"
    by (simp add: log_failed_def safe_type_log)
qed

theorem failure_logs_are_plain_witness:
  "list_all (log_value_safe \<circ> snd) (fst (log_command_failure (lit ''a=b'') ''connection'' [None, Some (Database (Some (lit ''23505'')) (lit ''x''))]))
   \<and> log_sqlx_failure ''connect'' (Database (Some (lit ''12 45'')) []) = log_sqlx_failure ''connect'' (Database None (lit ''secret''))"
  using failure_logs_are_plain [of "DatabaseConnectionError :: unit AggregateError" "''connection''" "''connect''" "\<lambda>_. lit ''1''"
      "\<lparr> tf_id = 1, tf_format = \<lparr> task_type = lit ''t'', task_version = 1 \<rparr>, tf_attempt = 1, tf_cause = LeaseExpired \<rparr>"
      "lit ''a=b''" "[None, Some (Database (Some (lit ''23505'')) (lit ''x''))]" PoolClosed]
  by (simp add: log_char_defs log_sqlx_failure_def)

end
