(* ===== verification/Aggregates.thy ===== *)
theory Aggregates
  imports Prelude
begin

text \<open>
  What the domain promises the runtime about an aggregate. A command handler is a function
  from the aggregate's state to the events it writes to the sink, in order, or to its domain
  error; \<open>apply\<close> changes the state by one event and may panic. \<open>replay\<close> folds the events of a
  stream from the default state, and \<open>issue\<close> executes a sequence of commands one after
  another, a rejected command leaving the state and the stream as they were.

  The interface \<open>event_sourced\<close> states the laws; both aggregates of the service are
  instances (in \<open>Email_Reservation\<close> and \<open>User_Account\<close>), and the facts proved here once hold
  of every sequence of commands of each of them.
\<close>

named_theorems handler_defs \<open>definitions of the command handlers\<close>

primrec replay :: "('s \<Rightarrow> 'e \<Rightarrow> 's run) \<Rightarrow> 's \<Rightarrow> 'e list \<Rightarrow> 's run" where
  "replay app s [] = Return s"
| "replay app s (e # es) = bind_run (app s e) (\<lambda>s'. replay app s' es)"

primrec issue ::
  "('s \<Rightarrow> 'c \<Rightarrow> ('e list, 'err) result run) \<Rightarrow> ('s \<Rightarrow> 'e \<Rightarrow> 's run) \<Rightarrow> 'c list \<Rightarrow> 's \<times> 'e list
     \<Rightarrow> ('s \<times> 'e list) run" where
  "issue handle app [] st = Return st"
| "issue handle app (c # cs) st =
     bind_run (handle (fst st) c) (\<lambda>r. case r of
         Err _ \<Rightarrow> issue handle app cs st
       | Ok evs \<Rightarrow> bind_run (replay app (fst st) evs)
                    (\<lambda>s'. issue handle app cs (s', snd st @ evs)))"

lemma replay_append [simp]:
  "replay app s (es @ es') = bind_run (replay app s es) (\<lambda>s'. replay app s' es')"
  by (induction es arbitrary: s) (simp_all add: bind_run_assoc)

lemma issue_append:
  "issue handle app (cs @ cs') st =
     bind_run (issue handle app cs st) (\<lambda>st'. issue handle app cs' st')"
  by (induction cs arbitrary: st) (auto simp: bind_run_assoc split: result.splits
      intro!: arg_cong2 [where f = bind_run] ext)

locale event_sourced =
  fixes handle :: "'s \<Rightarrow> 'c \<Rightarrow> ('e list, 'err) result run"
    and app :: "'s \<Rightarrow> 'e \<Rightarrow> 's run"
    and initial :: "'s"
    and inv :: "'s \<Rightarrow> 'e list \<Rightarrow> bool"
  assumes inv_initial: "inv initial []"
    and handle_returns: "handle s c \<noteq> Panic"
    and handle_one_event: "handle s c = Return (Ok evs) \<Longrightarrow> \<exists>e. evs = [e]"
    and accepted_applies:
      "inv s h \<Longrightarrow> handle s c = Return (Ok [e]) \<Longrightarrow> \<exists>s'. app s e = Return s' \<and> inv s' (h @ [e])"
begin

lemma one_command:
  assumes "inv s h"
  obtains (rejected) err where "handle s c = Return (Err err)"
  | (accepted) e s' where "handle s c = Return (Ok [e])" "app s e = Return s'" "inv s' (h @ [e])"
proof (cases "handle s c")
  case (Return r)
  show thesis
  proof (cases r)
    case (Ok evs)
    with Return handle_one_event obtain e where "evs = [e]" by blast
    with Ok Return accepted_applies [OF assms] that(2) show thesis by blast
  qed (use Return that(1) in blast)
qed (use handle_returns in blast)

lemma issue_from:
  assumes "inv s h"
  shows "\<exists>s' es. issue handle app cs (s, h) = Return (s', h @ es) \<and> inv s' (h @ es) \<and>
           replay app s es = Return s' \<and> length es \<le> length cs"
  using assms
proof (induction cs arbitrary: s h)
  case (Cons c cs)
  from Cons.prems show ?case
  proof (cases rule: one_command [where c = c])
    case rejected
    with Cons.IH [OF Cons.prems] show ?thesis by fastforce
  next
    case (accepted e s')
    from Cons.IH [OF accepted(3)] obtain t es where
      "issue handle app cs (s', h @ [e]) = Return (t, (h @ [e]) @ es)" "inv t ((h @ [e]) @ es)"
      "replay app s' es = Return t" "length es \<le> length cs"
      by blast
    with accepted show ?thesis by (intro exI [of _ t] exI [of _ "e # es"]) simp
  qed
qed simp

lemma issue_initial:
  "\<exists>s h. issue handle app cs (initial, []) = Return (s, h) \<and> inv s h \<and>
     replay app initial h = Return s \<and> length h \<le> length cs"
  using issue_from [OF inv_initial, of cs] by simp

lemma issued_inv:
  assumes "issue handle app cs (initial, []) = Return (s, h)"
  shows "inv s h" "replay app initial h = Return s"
  using issue_initial [of cs] assms by auto

lemma issued_extends:
  assumes "issue handle app cs (initial, []) = Return (s, h)"
    and "issue handle app cs' (s, h) = Return (s', h')"
  shows "\<exists>es. h' = h @ es \<and> replay app s es = Return s'"
  using issue_from [OF issued_inv(1) [OF assms(1)], of cs'] assms(2) by auto

end

end
