(* ===== verification/Email_Reservation.thy ===== *)
theory Email_Reservation
  imports Domain_Values Aggregates
begin

text \<open>
  The \<open>EmailReservation\<close> aggregate (\<open>domain/email_reservation.rs\<close> and its modules
  \<open>aggregate\<close>, \<open>commands\<close>, \<open>events\<close>, \<open>errors\<close>): one stream per mailbox, from the reservation
  through the verification code and the profile to the creation of the account.

  A handler returns the events it passes to \<open>EventSink::write\<close>. \<open>legal_history\<close> is an
  abstract specification of the streams: which event may follow which. The theory shows that
  the command sequences produce exactly the legal streams, that no accepted event makes
  \<open>apply\<close> panic, and what a stream says about later verification, submission and completion
  commands. The last part is about applying one event twice.
\<close>

section \<open>State, commands, events and errors\<close>

datatype ReservationPhase =
    Absent
  | AwaitingCode UserAccountId u32
  | AwaitingProfile UserAccountId rstring
  | CreatingAccount UserAccountId rstring RegistrationProfile
  | AccountCreated UserAccountId rstring RegistrationProfile DateTime

record EmailReservation =
  phase :: ReservationPhase

definition EmailReservation_default :: EmailReservation where
  "EmailReservation_default = \<lparr> phase = Absent \<rparr>"

fun phase_account_id :: "ReservationPhase \<Rightarrow> UserAccountId option" where
  "phase_account_id Absent = None"
| "phase_account_id (AwaitingCode account_id _) = Some account_id"
| "phase_account_id (AwaitingProfile account_id _) = Some account_id"
| "phase_account_id (CreatingAccount account_id _ _) = Some account_id"
| "phase_account_id (AccountCreated account_id _ _ _) = Some account_id"

definition EmailReservation_account_id :: "EmailReservation \<Rightarrow> UserAccountId option" where
  "EmailReservation_account_id self = phase_account_id (phase self)"

definition is_reserved :: "EmailReservation \<Rightarrow> bool" where
  "is_reserved self \<longleftrightarrow> phase self \<noteq> Absent"

datatype EmailReservationCommand =
    ReserveEmail Email UserAccountId u32
  | RequestVerificationCode Email UserAccountId u32
  | VerifyEmail Email UserAccountId u32 rstring
  | SubmitRegistrationProfile Email UserAccountId rstring RegistrationProfile
  | RecordAccountCreated Email UserAccountId RegistrationProfile DateTime

datatype EmailReservationEvent =
    EmailReserved Email UserAccountId u32
  | VerificationCodeRequested Email UserAccountId u32
  | VerificationRestarted Email UserAccountId u32
  | EmailVerified Email UserAccountId rstring
  | RegistrationProfileAccepted Email UserAccountId rstring RegistrationProfile
  | AccountCreationCompleted Email UserAccountId DateTime

datatype EmailReservationError =
    AlreadyReserved
  | NotReserved
  | NotCurrentAccountId
  | AlreadyVerified
  | InvalidVerificationCode
  | InvalidVerificationCodeFormat
  | AccountIdUnchanged
  | NotAwaitingProfile
  | InvalidAccountCreationToken
  | ProfileAlreadySubmitted
  | EmptyFirstName
  | EmptyLastName
  | FutureDateOfBirth
  | AccountCreationStarted
  | AccountCreationMismatch
  | AccountCreationAlreadyCompleted

fun EmailReservationEvent_event_type :: "EmailReservationEvent \<Rightarrow> string" where
  "EmailReservationEvent_event_type (EmailReserved _ _ _) = ''email_reserved''"
| "EmailReservationEvent_event_type (VerificationCodeRequested _ _ _) = ''verification_code_requested''"
| "EmailReservationEvent_event_type (VerificationRestarted _ _ _) = ''verification_restarted''"
| "EmailReservationEvent_event_type (EmailVerified _ _ _) = ''email_verified''"
| "EmailReservationEvent_event_type (RegistrationProfileAccepted _ _ _ _) =
     ''registration_profile_accepted''"
| "EmailReservationEvent_event_type (AccountCreationCompleted _ _ _) = ''account_creation_completed''"

definition EmailReservationEvent_event_version :: "EmailReservationEvent \<Rightarrow> string" where
  "EmailReservationEvent_event_version event =
     (case event of
        EmailReserved _ _ _ \<Rightarrow> ''1''
      | VerificationCodeRequested _ _ _ \<Rightarrow> ''1''
      | EmailVerified _ _ _ \<Rightarrow> ''1''
      | VerificationRestarted _ _ _ \<Rightarrow> ''1''
      | RegistrationProfileAccepted _ _ _ _ \<Rightarrow> ''1''
      | AccountCreationCompleted _ _ _ \<Rightarrow> ''1'')"

definition EmailReservation_TYPE :: string where
  "EmailReservation_TYPE = ''email_reservation''"

section \<open>Command handlers\<close>

definition ensure_code_format :: "u32 \<Rightarrow> (unit, EmailReservationError) result" where
  "ensure_code_format code =
     (if 1000000 \<le> code \<and> code \<le> 9999999 then Ok () else Err InvalidVerificationCodeFormat)"

definition handle_reserve ::
  "EmailReservation \<Rightarrow> Email \<Rightarrow> UserAccountId \<Rightarrow> u32
     \<Rightarrow> (EmailReservationEvent list, EmailReservationError) result" where
  "handle_reserve self email account_id verification_code =
     (if is_reserved self then Err AlreadyReserved
      else bind_result (ensure_code_format verification_code) (\<lambda>_.
        Ok [EmailReserved email account_id verification_code]))"

definition handle_request_verification_code ::
  "EmailReservation \<Rightarrow> Email \<Rightarrow> UserAccountId \<Rightarrow> u32
     \<Rightarrow> (EmailReservationEvent list, EmailReservationError) result run" where
  "handle_request_verification_code self email account_id verification_code =
     (case EmailReservation_account_id self of
        None \<Rightarrow> Return (Err NotReserved)
      | Some current \<Rightarrow>
          if current = account_id then Return (Err AccountIdUnchanged)
          else (case ensure_code_format verification_code of
              Err e \<Rightarrow> Return (Err e)
            | Ok _ \<Rightarrow>
                (case phase self of
                   AwaitingCode _ _ \<Rightarrow>
                     Return (Ok [VerificationCodeRequested email account_id verification_code])
                 | AwaitingProfile _ _ \<Rightarrow>
                     Return (Ok [VerificationRestarted email account_id verification_code])
                 | CreatingAccount _ _ _ \<Rightarrow> Return (Err AccountCreationStarted)
                 | AccountCreated _ _ _ _ \<Rightarrow> Return (Err AccountCreationStarted)
                 | Absent \<Rightarrow> Panic)))"

definition handle_verify ::
  "EmailReservation \<Rightarrow> Email \<Rightarrow> UserAccountId \<Rightarrow> u32 \<Rightarrow> rstring
     \<Rightarrow> (EmailReservationEvent list, EmailReservationError) result" where
  "handle_verify self email account_id code token_digest =
     (case phase self of
        Absent \<Rightarrow> Err NotReserved
      | AwaitingCode current verification_code \<Rightarrow>
          if current \<noteq> account_id then Err NotCurrentAccountId
          else if verification_code \<noteq> code then Err InvalidVerificationCode
          else Ok [EmailVerified email account_id token_digest]
      | AwaitingProfile current _ \<Rightarrow>
          if current = account_id then Err AlreadyVerified else Err NotCurrentAccountId
      | CreatingAccount _ _ _ \<Rightarrow> Err AccountCreationStarted
      | AccountCreated _ _ _ _ \<Rightarrow> Err AccountCreationStarted)"

text \<open>The phase check of \<open>handle_submit_profile\<close>, before the profile itself is looked at.\<close>

definition submit_phase_check ::
  "ReservationPhase \<Rightarrow> UserAccountId \<Rightarrow> rstring \<Rightarrow> (unit, EmailReservationError) result" where
  "submit_phase_check ph account_id token_digest =
     (case ph of
        Absent \<Rightarrow> Err NotReserved
      | AwaitingCode current _ \<Rightarrow>
          if current = account_id then Err NotAwaitingProfile else Err NotCurrentAccountId
      | AwaitingProfile current expected \<Rightarrow>
          if current \<noteq> account_id then Err NotCurrentAccountId
          else if expected \<noteq> token_digest then Err InvalidAccountCreationToken
          else Ok ()
      | CreatingAccount current consumed_token_digest _ \<Rightarrow>
          if current \<noteq> account_id then Err NotCurrentAccountId
          else if consumed_token_digest \<noteq> token_digest then Err InvalidAccountCreationToken
          else Err ProfileAlreadySubmitted
      | AccountCreated current consumed_token_digest _ _ \<Rightarrow>
          if current \<noteq> account_id then Err NotCurrentAccountId
          else if consumed_token_digest \<noteq> token_digest then Err InvalidAccountCreationToken
          else Err ProfileAlreadySubmitted)"

definition handle_submit_profile ::
  "EmailReservation \<Rightarrow> Email \<Rightarrow> UserAccountId \<Rightarrow> rstring \<Rightarrow> RegistrationProfile
     \<Rightarrow> (EmailReservationEvent list, EmailReservationError) result" where
  "handle_submit_profile self email account_id token_digest profile0 =
     (let profile = RegistrationProfile_new (rp_first_name profile0) (rp_last_name profile0)
                      (rp_date_of_birth profile0) (rp_validation_date profile0) in
      bind_result (submit_phase_check (phase self) account_id token_digest) (\<lambda>_.
        if rp_first_name profile = [] then Err EmptyFirstName
        else if rp_last_name profile = [] then Err EmptyLastName
        else if rp_date_of_birth profile > rp_validation_date profile then Err FutureDateOfBirth
        else Ok [RegistrationProfileAccepted email account_id token_digest profile]))"

definition handle_record_account_created ::
  "EmailReservation \<Rightarrow> Email \<Rightarrow> UserAccountId \<Rightarrow> RegistrationProfile \<Rightarrow> DateTime
     \<Rightarrow> (EmailReservationEvent list, EmailReservationError) result" where
  "handle_record_account_created self email account_id profile created_at =
     (case phase self of
        CreatingAccount current _ accepted_profile \<Rightarrow>
          if current = account_id \<and> accepted_profile = profile
          then Ok [AccountCreationCompleted email account_id created_at]
          else Err AccountCreationMismatch
      | AccountCreated current _ accepted_profile original \<Rightarrow>
          if current = account_id \<and> accepted_profile = profile \<and> original = created_at
          then Err AccountCreationAlreadyCompleted
          else Err AccountCreationMismatch
      | Absent \<Rightarrow> Err NotReserved
      | AwaitingCode _ _ \<Rightarrow> Err NotAwaitingProfile
      | AwaitingProfile _ _ \<Rightarrow> Err NotAwaitingProfile)"

section \<open>The aggregate\<close>

fun EmailReservation_handle ::
  "EmailReservation \<Rightarrow> EmailReservationCommand
     \<Rightarrow> (EmailReservationEvent list, EmailReservationError) result run" where
  "EmailReservation_handle self (ReserveEmail email account_id verification_code) =
     Return (handle_reserve self email account_id verification_code)"
| "EmailReservation_handle self (RequestVerificationCode email account_id verification_code) =
     handle_request_verification_code self email account_id verification_code"
| "EmailReservation_handle self (VerifyEmail email account_id code token_digest) =
     Return (handle_verify self email account_id code token_digest)"
| "EmailReservation_handle self (SubmitRegistrationProfile email account_id token_digest profile) =
     Return (handle_submit_profile self email account_id token_digest profile)"
| "EmailReservation_handle self (RecordAccountCreated email account_id profile created_at) =
     Return (handle_record_account_created self email account_id profile created_at)"

fun EmailReservation_apply ::
  "EmailReservation \<Rightarrow> EmailReservationEvent \<Rightarrow> EmailReservation run" where
  "EmailReservation_apply self (EmailReserved _ account_id verification_code) =
     Return (self\<lparr>phase := AwaitingCode account_id verification_code\<rparr>)"
| "EmailReservation_apply self (VerificationCodeRequested _ account_id verification_code) =
     Return (self\<lparr>phase := AwaitingCode account_id verification_code\<rparr>)"
| "EmailReservation_apply self (VerificationRestarted _ account_id verification_code) =
     Return (self\<lparr>phase := AwaitingCode account_id verification_code\<rparr>)"
| "EmailReservation_apply self (EmailVerified _ account_id token_digest) =
     Return (self\<lparr>phase := AwaitingProfile account_id token_digest\<rparr>)"
| "EmailReservation_apply self (RegistrationProfileAccepted _ account_id consumed_token_digest profile) =
     Return (self\<lparr>phase := CreatingAccount account_id consumed_token_digest profile\<rparr>)"
| "EmailReservation_apply self (AccountCreationCompleted _ account_id created_at) =
     (case phase self of
        CreatingAccount _ consumed_token_digest accepted_profile \<Rightarrow>
          Return (self\<lparr>phase := AccountCreated account_id consumed_token_digest accepted_profile
                            created_at\<rparr>)
      | _ \<Rightarrow> Panic)"

lemmas email_handler_defs [handler_defs] =
  ensure_code_format_def handle_reserve_def handle_request_verification_code_def handle_verify_def
  submit_phase_check_def handle_submit_profile_def handle_record_account_created_def
  EmailReservation_account_id_def is_reserved_def RegistrationProfile_new_def

section \<open>Legal streams\<close>

text \<open>
  The specification of a mailbox's stream. An event that issues a code carries the account
  identifier and the code; \<open>legal_next\<close> says which event may follow the last one (none, at
  the start), and \<open>phase_after\<close> reads the phase off the last events.
\<close>

fun issued_pair :: "EmailReservationEvent \<Rightarrow> (UserAccountId \<times> u32) option" where
  "issued_pair (EmailReserved _ i c) = Some (i, c)"
| "issued_pair (VerificationCodeRequested _ i c) = Some (i, c)"
| "issued_pair (VerificationRestarted _ i c) = Some (i, c)"
| "issued_pair _ = None"

definition code_ok :: "u32 \<Rightarrow> bool" where
  "code_ok c \<longleftrightarrow> 1000000 \<le> c \<and> c \<le> 9999999"

fun legal_next :: "EmailReservationEvent option \<Rightarrow> EmailReservationEvent \<Rightarrow> bool" where
  "legal_next prev (EmailReserved _ i c) \<longleftrightarrow> prev = None \<and> code_ok c"
| "legal_next prev (VerificationCodeRequested _ i c) \<longleftrightarrow>
     code_ok c \<and>
     (case Option.bind prev issued_pair of Some (j, _) \<Rightarrow> j \<noteq> i | None \<Rightarrow> False)"
| "legal_next prev (VerificationRestarted _ i c) \<longleftrightarrow>
     code_ok c \<and> (case prev of Some (EmailVerified _ j _) \<Rightarrow> j \<noteq> i | _ \<Rightarrow> False)"
| "legal_next prev (EmailVerified _ i d) \<longleftrightarrow>
     (case Option.bind prev issued_pair of Some (j, _) \<Rightarrow> j = i | None \<Rightarrow> False)"
| "legal_next prev (RegistrationProfileAccepted _ i d p) \<longleftrightarrow>
     profile_ok p \<and> (case prev of Some (EmailVerified _ j d') \<Rightarrow> j = i \<and> d' = d | _ \<Rightarrow> False)"
| "legal_next prev (AccountCreationCompleted _ i t) \<longleftrightarrow>
     (case prev of Some (RegistrationProfileAccepted _ j _ _) \<Rightarrow> j = i | _ \<Rightarrow> False)"

fun legal_from :: "EmailReservationEvent option \<Rightarrow> EmailReservationEvent list \<Rightarrow> bool" where
  "legal_from prev [] = True"
| "legal_from prev (e # es) = (legal_next prev e \<and> legal_from (Some e) es)"

definition legal_history :: "EmailReservationEvent list \<Rightarrow> bool" where
  "legal_history h = legal_from None h"

fun last_event :: "EmailReservationEvent option \<Rightarrow> EmailReservationEvent list \<Rightarrow> EmailReservationEvent option" where
  "last_event prev [] = prev"
| "last_event prev (e # es) = last_event (Some e) es"

fun phase_after :: "EmailReservationEvent list \<Rightarrow> ReservationPhase" where
  "phase_after [] = Absent"
| "phase_after (EmailReserved _ i c # _) = AwaitingCode i c"
| "phase_after (VerificationCodeRequested _ i c # _) = AwaitingCode i c"
| "phase_after (VerificationRestarted _ i c # _) = AwaitingCode i c"
| "phase_after (EmailVerified _ i d # _) = AwaitingProfile i d"
| "phase_after (RegistrationProfileAccepted _ i d p # _) = CreatingAccount i d p"
| "phase_after (AccountCreationCompleted _ i t # es) =
     (case phase_after es of CreatingAccount _ d p \<Rightarrow> AccountCreated i d p t | ph \<Rightarrow> ph)"

definition reservation_inv :: "EmailReservation \<Rightarrow> EmailReservationEvent list \<Rightarrow> bool" where
  "reservation_inv s h \<longleftrightarrow>
     legal_history h \<and> replay EmailReservation_apply EmailReservation_default h = Return s"

abbreviation issue_email where
  "issue_email cs \<equiv> issue EmailReservation_handle EmailReservation_apply cs
     (EmailReservation_default, [])"

lemma last_event_append [simp]: "last_event prev (es @ es') = last_event (last_event prev es) es'"
  by (induction es arbitrary: prev) auto

lemma legal_from_append:
  "legal_from prev (es @ es') \<longleftrightarrow> legal_from prev es \<and> legal_from (last_event prev es) es'"
  by (induction es arbitrary: prev) auto

lemma legal_history_Nil [simp]: "legal_history []"
  by (simp add: legal_history_def)

lemma legal_history_snoc:
  "legal_history (h @ [e]) \<longleftrightarrow> legal_history h \<and> legal_next (last_event None h) e"
  by (simp add: legal_history_def legal_from_append)

lemma last_event_None [simp]: "last_event None h = None \<longleftrightarrow> h = []"
  by (cases h rule: rev_cases) auto

text \<open>A legal event never makes \<open>apply\<close> panic, and the phase is the one read off the stream.\<close>

lemma legal_replay:
  assumes "legal_history h"
  shows "replay EmailReservation_apply EmailReservation_default h =
    Return \<lparr>phase = phase_after (rev h)\<rparr>"
  using assms
proof (induction h rule: rev_induct)
  case (snoc e h)
  then have next_ok: "legal_next (last_event None h) e"
    and IH: "replay EmailReservation_apply EmailReservation_default h =
      Return \<lparr>phase = phase_after (rev h)\<rparr>"
    by (simp_all add: legal_history_snoc)
  show ?case
  proof (cases e)
    case (AccountCreationCompleted em i t)
    with next_ok obtain em' d p h' where "h = h' @ [RegistrationProfileAccepted em' i d p]"
      by (cases h rule: rev_cases) (auto split: EmailReservationEvent.splits)
    with AccountCreationCompleted IH show ?thesis by simp
  qed (use IH in simp_all)
qed (simp add: EmailReservation_default_def)

lemma reservation_inv_iff:
  "reservation_inv s h \<longleftrightarrow> legal_history h \<and> s = \<lparr>phase = phase_after (rev h)\<rparr>"
  by (auto simp: reservation_inv_def legal_replay)

lemma ensure_code_format_Ok [simp]: "ensure_code_format c = Ok u \<longleftrightarrow> code_ok c"
  by (simp add: ensure_code_format_def code_ok_def)

text \<open>The phase of a legal stream decides its last event.\<close>

lemma completed_predecessor:
  assumes "legal_history (h @ [AccountCreationCompleted em i t])"
  obtains h' em' d p where "h = h' @ [RegistrationProfileAccepted em' i d p]" "profile_ok p"
proof -
  from assms have "legal_history h" "legal_next (last_event None h) (AccountCreationCompleted em i t)"
    by (simp_all add: legal_history_snoc)
  then show thesis
    by (cases h rule: rev_cases)
      (auto simp: legal_history_snoc split: EmailReservationEvent.splits intro: that)
qed

lemma legal_phase:
  assumes "legal_history h"
  shows "case phase_after (rev h) of
      Absent \<Rightarrow> h = []
    | AwaitingCode i c \<Rightarrow> code_ok c \<and> Option.bind (last_event None h) issued_pair = Some (i, c)
    | AwaitingProfile i d \<Rightarrow> (\<exists>em. last_event None h = Some (EmailVerified em i d))
    | CreatingAccount i d p \<Rightarrow>
        profile_ok p \<and> (\<exists>em. last_event None h = Some (RegistrationProfileAccepted em i d p))
    | AccountCreated i d p t \<Rightarrow> profile_ok p \<and>
        (\<exists>h' em em'. h = h' @ [RegistrationProfileAccepted em i d p, AccountCreationCompleted em' i t])"
proof (cases h rule: rev_cases)
  case (snoc h' e)
  show ?thesis
  proof (cases e)
    case (AccountCreationCompleted em i t)
    with assms snoc obtain h'' em' d p where
      "h' = h'' @ [RegistrationProfileAccepted em' i d p]" "profile_ok p"
      using completed_predecessor by blast
    with snoc AccountCreationCompleted show ?thesis by auto
  qed (use snoc assms in \<open>auto simp: legal_history_snoc\<close>)
qed simp

text \<open>What each command's acceptance means for the stream it extends.\<close>

lemma accepted_extends_legal:
  assumes h: "legal_history h" and s: "phase s = phase_after (rev h)"
    and acc: "EmailReservation_handle s c = Return (Ok [e])"
  shows "legal_history (h @ [e])"
proof (cases c)
  case (ReserveEmail em i code)
  with acc s legal_phase [OF h] show ?thesis
    by (auto simp: handle_reserve_def is_reserved_def legal_history_snoc split: if_splits)
next
  case (RequestVerificationCode em i code)
  with acc s legal_phase [OF h] h show ?thesis
    by (auto simp: handle_request_verification_code_def EmailReservation_account_id_def
        legal_history_snoc split: if_splits option.splits result.splits ReservationPhase.splits)
next
  case (VerifyEmail em i code d)
  with acc s legal_phase [OF h] h show ?thesis
    by (auto simp: handle_verify_def legal_history_snoc split: if_splits ReservationPhase.splits)
next
  case (SubmitRegistrationProfile em i d p)
  with acc s legal_phase [OF h] h show ?thesis
    by (auto simp: handle_submit_profile_def submit_phase_check_def RegistrationProfile_new_def
        legal_history_snoc profile_ok_def Let_def split: if_splits ReservationPhase.splits)
next
  case (RecordAccountCreated em i p t)
  with acc s legal_phase [OF h] h show ?thesis
    by (auto simp: handle_record_account_created_def legal_history_snoc
        split: if_splits ReservationPhase.splits)
qed

lemma EmailReservation_handle_returns: "EmailReservation_handle s c \<noteq> Panic"
  by (cases c) (auto simp: handle_request_verification_code_def EmailReservation_account_id_def
      split: option.splits result.splits ReservationPhase.splits)

lemma EmailReservation_handle_one_event:
  "EmailReservation_handle s c = Return (Ok evs) \<Longrightarrow> \<exists>e. evs = [e]"
  by (cases c) (auto simp: email_handler_defs Let_def
      split: option.splits result.splits ReservationPhase.splits if_splits)

interpretation email: event_sourced EmailReservation_handle EmailReservation_apply
  EmailReservation_default reservation_inv
proof
  fix s h c e
  assume inv: "reservation_inv s h" and acc: "EmailReservation_handle s c = Return (Ok [e])"
  then have "legal_history (h @ [e])"
    using accepted_extends_legal [of h s c e] by (simp add: reservation_inv_iff)
  with legal_replay [OF this] inv
  show "\<exists>s'. EmailReservation_apply s e = Return s' \<and> reservation_inv s' (h @ [e])"
    by (auto simp: reservation_inv_def)
qed (auto simp: reservation_inv_def EmailReservation_handle_returns EmailReservation_handle_one_event)

section \<open>Facts about the streams that commands produce\<close>

lemma issued_state:
  assumes "issue_email cs = Return (s, h)"
  shows "legal_history h" "phase s = phase_after (rev h)"
  using email.issued_inv(1) [OF assms] by (simp_all add: reservation_inv_iff)

lemma handle_submit_profile_Ok:
  "handle_submit_profile s em i d p = Ok evs \<longleftrightarrow>
     phase s = AwaitingProfile i d \<and> profile_ok (normalize_profile p) \<and>
     evs = [RegistrationProfileAccepted em i d (normalize_profile p)]"
proof -
  have check: "submit_phase_check (phase s) i d = Ok u \<longleftrightarrow> phase s = AwaitingProfile i d" for u
    by (auto simp: submit_phase_check_def split: ReservationPhase.splits)
  show ?thesis
    unfolding handle_submit_profile_def Let_def normalize_profile_def [symmetric] bind_result_eq_Ok check
    by (auto simp: profile_ok_def)
qed

text \<open>Every event that is legal next is written by some command.\<close>

lemma legal_event_command:
  assumes "legal_history (h @ [e])"
  shows "\<exists>c. EmailReservation_handle \<lparr>phase = phase_after (rev h)\<rparr> c = Return (Ok [e])"
proof -
  from assms have h: "legal_history h" and e: "legal_next (last_event None h) e"
    by (simp_all add: legal_history_snoc)
  show ?thesis
  proof (cases e)
    case (EmailReserved em i c)
    with e show ?thesis
      by (intro exI [of _ "ReserveEmail em i c"])
        (auto simp: handle_reserve_def is_reserved_def ensure_code_format_def code_ok_def)
  next
    case (VerificationCodeRequested em i c)
    with e obtain h' e' j c' where "h = h' @ [e']" "issued_pair e' = Some (j, c')" "j \<noteq> i"
      by (cases h rule: rev_cases) (auto split: option.splits)
    with VerificationCodeRequested e show ?thesis
      by (intro exI [of _ "RequestVerificationCode em i c"], cases e')
        (simp_all add: handle_request_verification_code_def EmailReservation_account_id_def
          ensure_code_format_def code_ok_def)
  next
    case (VerificationRestarted em i c)
    with e show ?thesis
      by (intro exI [of _ "RequestVerificationCode em i c"], cases h rule: rev_cases)
        (auto simp: handle_request_verification_code_def EmailReservation_account_id_def
          ensure_code_format_def code_ok_def split: EmailReservationEvent.splits)
  next
    case (EmailVerified em i d)
    with e obtain h' e' c where "h = h' @ [e']" "issued_pair e' = Some (i, c)"
      by (cases h rule: rev_cases) (auto split: option.splits)
    with EmailVerified show ?thesis
      by (intro exI [of _ "VerifyEmail em i c d"], cases e') (simp_all add: handle_verify_def)
  next
    case (RegistrationProfileAccepted em i d p)
    with e obtain h' em' where "h = h' @ [EmailVerified em' i d]" "profile_ok p"
      by (cases h rule: rev_cases) (auto split: EmailReservationEvent.splits)
    with RegistrationProfileAccepted show ?thesis
      by (intro exI [of _ "SubmitRegistrationProfile em i d p"]) (simp add: handle_submit_profile_Ok)
  next
    case (AccountCreationCompleted em i t)
    from assms [unfolded AccountCreationCompleted] obtain h' em' d p where
      "h = h' @ [RegistrationProfileAccepted em' i d p]" by (rule completed_predecessor)
    with AccountCreationCompleted show ?thesis
      by (intro exI [of _ "RecordAccountCreated em i p t"])
        (simp add: handle_record_account_created_def)
  qed
qed

lemma legal_history_issued:
  assumes "legal_history h"
  shows "\<exists>cs. issue_email cs = Return (\<lparr>phase = phase_after (rev h)\<rparr>, h)"
  using assms
proof (induction h rule: rev_induct)
  case Nil
  show ?case by (intro exI [of _ "[]"]) (simp add: EmailReservation_default_def)
next
  case (snoc e h)
  then have "legal_history h" by (simp add: legal_history_snoc)
  with snoc.IH obtain cs where cs: "issue_email cs = Return (\<lparr>phase = phase_after (rev h)\<rparr>, h)"
    by blast
  from legal_event_command [OF snoc.prems] obtain c where
    c: "EmailReservation_handle \<lparr>phase = phase_after (rev h)\<rparr> c = Return (Ok [e])" by blast
  from legal_replay [OF snoc.prems] legal_replay [OF \<open>legal_history h\<close>]
  have "EmailReservation_apply \<lparr>phase = phase_after (rev h)\<rparr> e =
      Return \<lparr>phase = phase_after (rev (h @ [e]))\<rparr>" by simp
  with cs c show ?case by (intro exI [of _ "cs @ [c]"]) (simp add: issue_append)
qed

text \<open>After an accepted profile only the completion of that account may follow, and nothing after it.\<close>

lemma legal_after_completed: "legal_from (Some (AccountCreationCompleted em i t)) es \<longleftrightarrow> es = []"
proof (cases es)
  case (Cons e es')
  then show ?thesis by (cases e) auto
qed simp

lemma legal_after_accepted:
  assumes "legal_from (Some (RegistrationProfileAccepted em i d p)) es"
  shows "es = [] \<or> (\<exists>em' t. es = [AccountCreationCompleted em' i t])"
proof (cases es)
  case (Cons e es')
  with assms show ?thesis by (cases e) (auto simp: legal_after_completed)
qed simp

fun is_acceptance :: "EmailReservationEvent \<Rightarrow> bool" where
  "is_acceptance (RegistrationProfileAccepted _ _ _ _) = True"
| "is_acceptance _ = False"

lemma acceptance_split:
  assumes h: "legal_history h" and e: "RegistrationProfileAccepted em i d p \<in> set h"
  obtains h0 where "h = h0 @ [RegistrationProfileAccepted em i d p]"
  | h0 em' t where "h = h0 @ [RegistrationProfileAccepted em i d p, AccountCreationCompleted em' i t]"
proof -
  from e obtain h0 es where split: "h = h0 @ RegistrationProfileAccepted em i d p # es"
    by (auto simp: in_set_conv_decomp)
  with h have "legal_from (Some (RegistrationProfileAccepted em i d p)) es"
    by (simp add: legal_history_def legal_from_append)
  with legal_after_accepted split that show thesis by blast
qed

lemma acceptance_unique:
  assumes "legal_history h"
  shows "length (filter is_acceptance h) \<le> 1"
proof (cases "\<exists>e\<in>set h. is_acceptance e")
  case True
  then obtain e h0 es where h: "h = h0 @ e # es" "is_acceptance e" "\<forall>x\<in>set h0. \<not> is_acceptance x"
    using split_list_first_prop [of h is_acceptance] by blast
  then obtain em i d p where e: "e = RegistrationProfileAccepted em i d p"
    by (cases e) auto
  from assms h have "legal_from (Some e) es" by (simp add: legal_history_def legal_from_append)
  with e legal_after_accepted have "filter is_acceptance es = []" by fastforce
  with h show ?thesis by (simp add: filter_empty_conv)
qed (simp add: filter_empty_conv)

text \<open>A registration up to the verification, and one to the end, for the witnesses.\<close>

definition demo_profile :: RegistrationProfile where
  "demo_profile = \<lparr> rp_first_name = lit ''Ada'', rp_last_name = lit ''Byron'',
     rp_date_of_birth = 10, rp_validation_date = 20 \<rparr>"

definition demo_commands :: "EmailReservationCommand list" where
  "demo_commands =
     [ReserveEmail (Email (lit ''a@b.c'')) (UserAccountId 1) 1234567,
      RequestVerificationCode (Email (lit ''a@b.c'')) (UserAccountId 2) 7654321]"

definition demo_registration :: "EmailReservationCommand list" where
  "demo_registration = demo_commands @
     [VerifyEmail (Email (lit ''a@b.c'')) (UserAccountId 1) 1234567 (lit ''d''),
      VerifyEmail (Email (lit ''a@b.c'')) (UserAccountId 2) 7654321 (lit ''d''),
      SubmitRegistrationProfile (Email (lit ''a@b.c'')) (UserAccountId 2) (lit ''d'') demo_profile]"

lemmas demo_defs = demo_commands_def demo_registration_def demo_profile_def lit_def
  EmailReservation_default_def email_handler_defs

lemma demo_issued:
  "issue_email demo_commands = Return (\<lparr>phase = AwaitingCode (UserAccountId 2) 7654321\<rparr>,
     [EmailReserved (Email (lit ''a@b.c'')) (UserAccountId 1) 1234567,
      VerificationCodeRequested (Email (lit ''a@b.c'')) (UserAccountId 2) 7654321])"
  by (simp add: demo_defs)

lemma demo_registered:
  "issue_email (take 4 demo_registration) =
     Return (\<lparr>phase = AwaitingProfile (UserAccountId 2) (lit ''d'')\<rparr>,
     [EmailReserved (Email (lit ''a@b.c'')) (UserAccountId 1) 1234567,
      VerificationCodeRequested (Email (lit ''a@b.c'')) (UserAccountId 2) 7654321,
      EmailVerified (Email (lit ''a@b.c'')) (UserAccountId 2) (lit ''d'')])"
  "issue_email demo_registration =
     Return (\<lparr>phase = CreatingAccount (UserAccountId 2) (lit ''d'') demo_profile\<rparr>,
     [EmailReserved (Email (lit ''a@b.c'')) (UserAccountId 1) 1234567,
      VerificationCodeRequested (Email (lit ''a@b.c'')) (UserAccountId 2) 7654321,
      EmailVerified (Email (lit ''a@b.c'')) (UserAccountId 2) (lit ''d''),
      RegistrationProfileAccepted (Email (lit ''a@b.c'')) (UserAccountId 2) (lit ''d'') demo_profile])"
  by (simp_all add: demo_defs trim_def is_whitespace_def)

section \<open>Properties\<close>

text \<open>
  C13. The streams that command sequences produce from a fresh reservation are exactly the
  legal histories, and the reservation's phase is the one its stream's last events say.
\<close>

theorem email_streams_are_legal_histories:
  "(\<exists>cs. issue_email cs = Return (s, h)) \<longleftrightarrow>
     legal_history h \<and> s = \<lparr>phase = phase_after (rev h)\<rparr>"
  using issued_state legal_history_issued by (metis EmailReservation.surjective unit.exhaust
      EmailReservation.select_convs(1) old.unit.exhaust)


text \<open>
  C31. A verification command is accepted exactly when the last event of the stream issued this
  very pair of account identifier and code: a superseded, mismatched or used pair is rejected.
\<close>

theorem verify_accepts_only_latest_pair:
  assumes "issue_email cs = Return (s, h)"
  shows "EmailReservation_handle s (VerifyEmail em i code d) = Return (Ok [EmailVerified em i d])
    \<longleftrightarrow> Option.bind (last_event None h) issued_pair = Some (i, code)"
  using issued_state(2) [OF assms] legal_phase [OF issued_state(1) [OF assms]]
  by (auto simp: handle_verify_def split: ReservationPhase.splits)

theorem verify_accepts_only_latest_pair_witness:
  "EmailReservation_handle \<lparr>phase = AwaitingCode (UserAccountId 2) 7654321\<rparr>
     (VerifyEmail (Email (lit ''a@b.c'')) (UserAccountId 2) 7654321 (lit ''t'')) =
     Return (Ok [EmailVerified (Email (lit ''a@b.c'')) (UserAccountId 2) (lit ''t'')]) \<and>
   EmailReservation_handle \<lparr>phase = AwaitingCode (UserAccountId 2) 7654321\<rparr>
     (VerifyEmail (Email (lit ''a@b.c'')) (UserAccountId 1) 1234567 (lit ''t'')) \<noteq>
     Return (Ok [EmailVerified (Email (lit ''a@b.c'')) (UserAccountId 1) (lit ''t'')])"
  unfolding verify_accepts_only_latest_pair [OF demo_issued] by simp

text \<open>
  A profile is accepted exactly when the last event of the stream is the verification of
  this account identifier with this token digest and the normalised profile is well formed;
  the event then carries the normalised profile.
\<close>

theorem submit_accepts_only_current_token:
  assumes "issue_email cs = Return (s, h)"
  shows "EmailReservation_handle s (SubmitRegistrationProfile em i d p) =
      Return (Ok [RegistrationProfileAccepted em i d (normalize_profile p)])
    \<longleftrightarrow> (\<exists>em'. last_event None h = Some (EmailVerified em' i d)) \<and> profile_ok (normalize_profile p)"
  using issued_state(2) [OF assms] legal_phase [OF issued_state(1) [OF assms]]
  by (auto simp: handle_submit_profile_Ok split: ReservationPhase.splits)

theorem submit_accepts_only_current_token_witness:
  "EmailReservation_handle \<lparr>phase = AwaitingProfile (UserAccountId 2) (lit ''d'')\<rparr>
     (SubmitRegistrationProfile (Email (lit ''a@b.c'')) (UserAccountId 2) (lit ''d'') demo_profile) =
     Return (Ok [RegistrationProfileAccepted (Email (lit ''a@b.c'')) (UserAccountId 2) (lit ''d'')
       (normalize_profile demo_profile)])"
  unfolding submit_accepts_only_current_token [OF demo_registered(1)]
  by (simp add: demo_profile_def profile_ok_def trimmed_def normalize_profile_def RegistrationProfile_new_def
      lit_def is_whitespace_def trim_def)



text \<open>
  A completed reservation is terminal: every command is rejected, so its state and stream
  never change again, and repeating the recorded completion is reported as already completed.
\<close>

theorem completed_reservation_is_terminal:
  assumes "phase s = AccountCreated i d p t"
  shows "issue EmailReservation_handle EmailReservation_apply cs (s, h) = Return (s, h) \<and>
    EmailReservation_handle s (RecordAccountCreated em i p t) =
      Return (Err AccountCreationAlreadyCompleted)"
proof -
  have rejected: "\<exists>err. EmailReservation_handle s c = Return (Err err)" for c
    using assms by (cases c) (auto simp: email_handler_defs Let_def split: result.splits)
  have "issue EmailReservation_handle EmailReservation_apply cs (s, h) = Return (s, h)"
  proof (induction cs)
    case (Cons c cs)
    from rejected [of c] obtain err where "EmailReservation_handle s c = Return (Err err)" by blast
    with Cons.IH show ?case by simp
  qed simp
  with assms show ?thesis by (simp add: handle_record_account_created_def)
qed

theorem completed_reservation_is_terminal_witness:
  "EmailReservation_handle \<lparr>phase = AccountCreated (UserAccountId 2) (lit ''d'') demo_profile 99\<rparr>
     (RecordAccountCreated (Email (lit ''a@b.c'')) (UserAccountId 2) demo_profile 99) =
     Return (Err AccountCreationAlreadyCompleted) \<and>
   issue EmailReservation_handle EmailReservation_apply demo_commands
     (\<lparr>phase = AccountCreated (UserAccountId 2) (lit ''d'') demo_profile 99\<rparr>, []) =
     Return (\<lparr>phase = AccountCreated (UserAccountId 2) (lit ''d'') demo_profile 99\<rparr>, [])"
  using completed_reservation_is_terminal
    [of "\<lparr>phase = AccountCreated (UserAccountId 2) (lit ''d'') demo_profile 99\<rparr>"]
  by simp

text \<open>
  Applying one event twice gives the state of applying it once for every event but
  \<open>AccountCreationCompleted\<close>, whose second application panics: the aggregate does not
  tolerate the repeated \<open>apply\<close> of the snapshot path.
\<close>

theorem apply_twice:
  assumes "EmailReservation_apply s e = Return s'"
  shows "EmailReservation_apply s' e =
    (case e of AccountCreationCompleted _ _ _ \<Rightarrow> Panic | _ \<Rightarrow> Return s')"
  using assms by (cases e) (auto split: ReservationPhase.splits)

theorem apply_twice_witness:
  "EmailReservation_apply \<lparr>phase = AccountCreated (UserAccountId 2) (lit ''d'') demo_profile 99\<rparr>
     (AccountCreationCompleted (Email (lit ''a@b.c'')) (UserAccountId 2) 99) = Panic"
  using apply_twice [of "\<lparr>phase = CreatingAccount (UserAccountId 2) (lit ''d'') demo_profile\<rparr>"
      "AccountCreationCompleted (Email (lit ''a@b.c'')) (UserAccountId 2) 99"
      "\<lparr>phase = AccountCreated (UserAccountId 2) (lit ''d'') demo_profile 99\<rparr>"]
  by simp

text \<open>
  C40. What the snapshot path of the framework makes of an accepted command. It applies the accepted events to
  a state that has them already: for every command but \<open>RecordAccountCreated\<close> this changes nothing, and
  for every accepted \<open>RecordAccountCreated\<close> it panics, so that a completion can never be written together with a snapshot.
\<close>

theorem snapshot_reapplication:
  assumes "EmailReservation_handle s command = Return (Ok evs)" "replay EmailReservation_apply s evs = Return s'"
  shows "replay EmailReservation_apply s' evs = (case command of RecordAccountCreated _ _ _ _ \<Rightarrow> Panic | _ \<Rightarrow> Return s')"
  using assms by (cases command) (auto simp: email_handler_defs Let_def split: ReservationPhase.splits if_splits result.splits)

theorem snapshot_reapplication_witness:
  "replay EmailReservation_apply \<lparr>phase = AccountCreated (UserAccountId 2) (lit ''d'') demo_profile 99\<rparr>
     [AccountCreationCompleted (Email (lit ''a@b.c'')) (UserAccountId 2) 99] = Panic"
  using snapshot_reapplication [of "\<lparr>phase = CreatingAccount (UserAccountId 2) (lit ''d'') demo_profile\<rparr>"
      "RecordAccountCreated (Email (lit ''a@b.c'')) (UserAccountId 2) demo_profile 99"
      "[AccountCreationCompleted (Email (lit ''a@b.c'')) (UserAccountId 2) 99]"
      "\<lparr>phase = AccountCreated (UserAccountId 2) (lit ''d'') demo_profile 99\<rparr>"]
  by (simp add: handle_record_account_created_def)

end
