(* ===== verification/User_Account.thy ===== *)
theory User_Account
  imports Domain_Values Aggregates
begin

text \<open>
  The \<open>UserAccount\<close> aggregate (\<open>domain/user_account.rs\<close> and its modules \<open>aggregate\<close>,
  \<open>commands\<close>, \<open>events\<close>, \<open>errors\<close>): one stream per account identifier, holding at most the
  creation of the account. The theory shows that a stream never has a second creation, that
  repeating a creation is recognised by everything but its time, and that the stored account
  keeps the normalised data and the time of the first one.
\<close>

section \<open>State, commands, events and errors\<close>

record CreatedAccount =
  ca_account_id :: UserAccountId
  ca_email :: Email
  ca_first_name :: rstring
  ca_last_name :: rstring
  ca_date_of_birth :: NaiveDate
  ca_validation_date :: NaiveDate
  ca_created_at :: DateTime

record UserAccount =
  created :: "CreatedAccount option"

definition UserAccount_default :: UserAccount where
  "UserAccount_default = \<lparr> created = None \<rparr>"

datatype UserAccountCommand =
  CreateAccount UserAccountId Email rstring rstring NaiveDate NaiveDate DateTime

datatype UserAccountEvent =
  AccountCreated UserAccountId Email rstring rstring NaiveDate NaiveDate DateTime

datatype UserAccountError =
    EmptyFirstName
  | EmptyLastName
  | FutureDateOfBirth NaiveDate NaiveDate
  | AlreadyExistsWithDifferentData
  | AlreadyCreated

definition UserAccountEvent_event_type :: "UserAccountEvent \<Rightarrow> string" where
  "UserAccountEvent_event_type event = ''account_created''"

definition UserAccountEvent_event_version :: "UserAccountEvent \<Rightarrow> string" where
  "UserAccountEvent_event_version event = ''1''"

definition UserAccount_TYPE :: string where
  "UserAccount_TYPE = ''user_account''"

section \<open>The handler and the aggregate\<close>

definition handle_create_account ::
  "UserAccount \<Rightarrow> UserAccountId \<Rightarrow> Email \<Rightarrow> rstring \<Rightarrow> rstring \<Rightarrow> NaiveDate \<Rightarrow> NaiveDate \<Rightarrow> DateTime
     \<Rightarrow> (UserAccountEvent list, UserAccountError) result" where
  "handle_create_account self account_id email first_name0 last_name0 date_of_birth
       validation_date created_at =
     (let first_name = trim first_name0; last_name = trim last_name0 in
      case created self of
        Some existing \<Rightarrow>
          if ca_account_id existing = account_id \<and> ca_email existing = email
             \<and> ca_first_name existing = first_name \<and> ca_last_name existing = last_name
             \<and> ca_date_of_birth existing = date_of_birth
             \<and> ca_validation_date existing = validation_date
          then Err AlreadyCreated
          else Err AlreadyExistsWithDifferentData
      | None \<Rightarrow>
          if first_name = [] then Err EmptyFirstName
          else if last_name = [] then Err EmptyLastName
          else if date_of_birth > validation_date
          then Err (FutureDateOfBirth date_of_birth validation_date)
          else Ok [AccountCreated account_id email first_name last_name date_of_birth
                     validation_date created_at])"

fun UserAccount_handle ::
  "UserAccount \<Rightarrow> UserAccountCommand \<Rightarrow> (UserAccountEvent list, UserAccountError) result run" where
  "UserAccount_handle self
       (CreateAccount account_id email first_name last_name date_of_birth validation_date created_at) =
     Return (handle_create_account self account_id email first_name last_name date_of_birth
       validation_date created_at)"

fun UserAccount_apply :: "UserAccount \<Rightarrow> UserAccountEvent \<Rightarrow> UserAccount run" where
  "UserAccount_apply self
       (AccountCreated account_id email first_name last_name date_of_birth validation_date created_at) =
     Return (self\<lparr>created := Some \<lparr>
       ca_account_id = account_id, ca_email = email, ca_first_name = first_name,
       ca_last_name = last_name, ca_date_of_birth = date_of_birth,
       ca_validation_date = validation_date, ca_created_at = created_at \<rparr>\<rparr>)"

lemmas account_handler_defs [handler_defs] = handle_create_account_def Let_def

section \<open>The stream of an account\<close>

definition account_profile :: "CreatedAccount \<Rightarrow> RegistrationProfile" where
  "account_profile a = \<lparr> rp_first_name = ca_first_name a, rp_last_name = ca_last_name a,
     rp_date_of_birth = ca_date_of_birth a, rp_validation_date = ca_validation_date a \<rparr>"

definition creation_event :: "CreatedAccount \<Rightarrow> UserAccountEvent" where
  "creation_event a = AccountCreated (ca_account_id a) (ca_email a) (ca_first_name a)
     (ca_last_name a) (ca_date_of_birth a) (ca_validation_date a) (ca_created_at a)"

definition account_inv :: "UserAccount \<Rightarrow> UserAccountEvent list \<Rightarrow> bool" where
  "account_inv s h \<longleftrightarrow>
     (case created s of None \<Rightarrow> h = []
      | Some a \<Rightarrow> h = [creation_event a] \<and> profile_ok (account_profile a))"

text \<open>The command a stored account answers to: its identity, its mailbox and its profile.\<close>

definition create_command ::
  "UserAccountId \<Rightarrow> Email \<Rightarrow> RegistrationProfile \<Rightarrow> DateTime \<Rightarrow> UserAccountCommand" where
  "create_command account_id email profile created_at =
     CreateAccount account_id email (rp_first_name profile) (rp_last_name profile)
       (rp_date_of_birth profile) (rp_validation_date profile) created_at"

definition created_account ::
  "UserAccountId \<Rightarrow> Email \<Rightarrow> RegistrationProfile \<Rightarrow> DateTime \<Rightarrow> CreatedAccount" where
  "created_account account_id email profile created_at =
     \<lparr> ca_account_id = account_id, ca_email = email, ca_first_name = rp_first_name profile,
       ca_last_name = rp_last_name profile, ca_date_of_birth = rp_date_of_birth profile,
       ca_validation_date = rp_validation_date profile, ca_created_at = created_at \<rparr>"

abbreviation issue_account where
  "issue_account cs \<equiv> issue UserAccount_handle UserAccount_apply cs (UserAccount_default, [])"

lemma account_profile_created [simp]: "account_profile (created_account i e p t) = p"
  by (simp add: account_profile_def created_account_def)

lemma created_account_sel [simp]:
  "ca_account_id (created_account i e p t) = i" "ca_email (created_account i e p t) = e"
  "ca_created_at (created_account i e p t) = t"
  by (simp_all add: created_account_def)

lemma apply_creation_event [simp]:
  "UserAccount_apply s (creation_event a) = Return (s\<lparr>created := Some a\<rparr>)"
  by (simp add: creation_event_def)

lemma command_as_create_command:
  "c = create_command i e p t \<longleftrightarrow>
     c = CreateAccount i e (rp_first_name p) (rp_last_name p) (rp_date_of_birth p)
           (rp_validation_date p) t"
  by (simp add: create_command_def)

lemma command_exhaust: obtains i e p t where "c = create_command i e p t"
proof (cases c)
  case (CreateAccount i e f l b v t)
  then have "c = create_command i e
      \<lparr> rp_first_name = f, rp_last_name = l, rp_date_of_birth = b, rp_validation_date = v \<rparr> t"
    by (simp add: create_command_def)
  then show thesis by (rule that)
qed

text \<open>The handler's decision, over profiles.\<close>

lemma create_fresh:
  assumes "created s = None"
  shows "UserAccount_handle s (create_command i e p t) = Return (Ok evs) \<longleftrightarrow>
    profile_ok (normalize_profile p) \<and> evs = [creation_event (created_account i e (normalize_profile p) t)]"
  using assms
  by (auto simp: create_command_def handle_create_account_def Let_def profile_ok_def
      creation_event_def created_account_def split: if_splits)

lemma create_existing:
  assumes "created s = Some a"
  shows "UserAccount_handle s (create_command i e p t) = Return (Err
    (if ca_account_id a = i \<and> ca_email a = e \<and> account_profile a = normalize_profile p
     then AlreadyCreated else AlreadyExistsWithDifferentData))"
  using assms
  by (auto simp: create_command_def handle_create_account_def Let_def account_profile_def
      normalize_profile_def RegistrationProfile_new_def)

interpretation account: event_sourced UserAccount_handle UserAccount_apply
  UserAccount_default account_inv
proof
  show "account_inv UserAccount_default []" by (simp add: account_inv_def UserAccount_default_def)
next
  fix s c
  show "UserAccount_handle s c \<noteq> Panic" by (cases c) simp
next
  fix s c evs
  assume "UserAccount_handle s c = Return (Ok evs)"
  then show "\<exists>e. evs = [e]"
    by (cases c) (auto simp: account_handler_defs split: option.splits if_splits)
next
  fix s h c e
  assume inv: "account_inv s h" and acc: "UserAccount_handle s c = Return (Ok [e])"
  obtain i em p t where c: "c = create_command i em p t" by (rule command_exhaust)
  show "\<exists>s'. UserAccount_apply s e = Return s' \<and> account_inv s' (h @ [e])"
  proof (cases "created s")
    case None
    with inv acc c create_fresh [OF None] show ?thesis by (auto simp: account_inv_def)
  next
    case (Some a)
    with acc c create_existing [OF Some] show ?thesis by simp
  qed
qed

section \<open>Properties\<close>

definition demo_account :: CreatedAccount where
  "demo_account = \<lparr>ca_account_id = UserAccountId 7, ca_email = Email (lit ''a@b.c''),
     ca_first_name = lit ''Ada'', ca_last_name = lit ''Byron'', ca_date_of_birth = 1,
     ca_validation_date = 2, ca_created_at = 3\<rparr>"

text \<open>
  Whatever creation commands arrive, in whatever order and number, a stream holds at most
  one creation; the stored account is the one of that event, its names are trimmed and not
  empty and its date of birth is not after the validation date.
\<close>

theorem account_is_created_at_most_once:
  "\<exists>s h. issue_account cs = Return (s, h) \<and>
     (case created s of None \<Rightarrow> h = []
      | Some a \<Rightarrow> h = [creation_event a] \<and> profile_ok (account_profile a))"
  using account.issue_initial [of cs] by (auto simp: account_inv_def)

text \<open>
  C33. Creation is idempotent in its data: once an account exists, every later sequence of
  commands leaves it as it is, first creation time included; a command with the same identity,
  mailbox and normalised profile is answered \<open>AlreadyCreated\<close>, whatever its time, and every
  other one \<open>AlreadyExistsWithDifferentData\<close>.
\<close>

theorem account_creation_is_idempotent:
  assumes "created s = Some a"
  shows "issue UserAccount_handle UserAccount_apply cs (s, h) = Return (s, h) \<and>
    UserAccount_handle s (create_command i em p t) = Return (Err
      (if ca_account_id a = i \<and> ca_email a = em \<and> account_profile a = normalize_profile p
       then AlreadyCreated else AlreadyExistsWithDifferentData))"
proof -
  have "issue UserAccount_handle UserAccount_apply cs (s, h) = Return (s, h)"
  proof (induction cs)
    case (Cons c cs)
    obtain i em p t where "c = create_command i em p t" by (rule command_exhaust)
    with Cons.IH create_existing [OF assms] show ?case by simp
  qed simp
  with create_existing [OF assms] show ?thesis by blast
qed

theorem account_creation_is_idempotent_witness:
  "UserAccount_handle \<lparr>created = Some demo_account\<rparr>
     (create_command (UserAccountId 7) (Email (lit ''a@b.c''))
        \<lparr>rp_first_name = lit '' Ada'', rp_last_name = lit ''Byron '', rp_date_of_birth = 1,
         rp_validation_date = 2\<rparr> 99) = Return (Err AlreadyCreated)"
  using account_creation_is_idempotent [of "\<lparr>created = Some demo_account\<rparr>" demo_account]
  by (simp add: demo_account_def account_profile_def normalize_profile_def
      RegistrationProfile_new_def lit_def trim_def is_whitespace_def)

end
