(* ===== verification/Application.thy ===== *)
theory Application
  imports Email_Reservation User_Account Command_Execution Task_Handling
begin

text \<open>
  The application layer of the service: the use cases of \<open>application/email_reservation\<close>, the
  registration service and the task handlers of \<open>application/user_account\<close>, and the adapters
  behind them in \<open>infrastructure\<close>.

  A gateway and an executor are functions that change a world and return their result; every use
  case makes exactly one call of a gateway. What a generator or the clock returns during a call is
  an argument of the call (\<open>material\<close>, \<open>now\<close>). Serialisation of the task DTOs is a \<open>codec\<close> whose
  laws are \<open>codec_ok\<close>: derived serde implementations write an object and read it back. The hex
  digest of SHA-256 is the argument \<open>sha256_hex\<close>.
\<close>

section \<open>Task DTOs\<close>

record SendVerificationCodeTaskV1 =
  sv_email :: Email
  sv_account_id :: UserAccountId
  sv_verification_code :: u32

record CreateAccountTaskV1 =
  ct_email :: Email
  ct_account_id :: UserAccountId
  ct_profile :: RegistrationProfile

record RecordAccountCreatedTaskV1 =
  rt_email :: Email
  rt_account_id :: UserAccountId
  rt_profile :: RegistrationProfile
  rt_created_at :: DateTime

record 'v codec =
  cd_is_object :: "'v \<Rightarrow> bool"
  cd_empty :: 'v
  cd_send :: "SendVerificationCodeTaskV1 \<Rightarrow> 'v option"
  cd_create :: "CreateAccountTaskV1 \<Rightarrow> 'v option"
  cd_record :: "RecordAccountCreatedTaskV1 \<Rightarrow> 'v option"
  cd_read_send :: "'v \<Rightarrow> SendVerificationCodeTaskV1 option"
  cd_read_create :: "'v \<Rightarrow> CreateAccountTaskV1 option"
  cd_read_record :: "'v \<Rightarrow> RecordAccountCreatedTaskV1 option"

definition codec_ok :: "'v codec \<Rightarrow> bool" where
  "codec_ok c \<longleftrightarrow> cd_is_object c (cd_empty c) \<and>
     (\<forall>x. \<exists>v. cd_send c x = Some v \<and> cd_is_object c v \<and> cd_read_send c v = Some x) \<and>
     (\<forall>x. \<exists>v. cd_create c x = Some v \<and> cd_is_object c v \<and> cd_read_create c v = Some x) \<and>
     (\<forall>x. \<exists>v. cd_record c x = Some v \<and> cd_is_object c v \<and> cd_read_record c v = Some x)"

definition SendVerificationCodeTaskV1_payload :: "'v codec \<Rightarrow> SendVerificationCodeTaskV1 \<Rightarrow> 'v TaskPayload" where
  "SendVerificationCodeTaskV1_payload c x =
     \<lparr> TASK_TYPE = lit ''send_verification_code'', TASK_VERSION = 1, to_value = cd_send c x \<rparr>"

definition CreateAccountTaskV1_payload :: "'v codec \<Rightarrow> CreateAccountTaskV1 \<Rightarrow> 'v TaskPayload" where
  "CreateAccountTaskV1_payload c x =
     \<lparr> TASK_TYPE = lit ''create_account'', TASK_VERSION = 1, to_value = cd_create c x \<rparr>"

definition RecordAccountCreatedTaskV1_payload :: "'v codec \<Rightarrow> RecordAccountCreatedTaskV1 \<Rightarrow> 'v TaskPayload" where
  "RecordAccountCreatedTaskV1_payload c x =
     \<lparr> TASK_TYPE = lit ''record_account_created'', TASK_VERSION = 1, to_value = cd_record c x \<rparr>"

section \<open>Gateways\<close>

type_synonym ('w, 'c, 'v, 'd) gateway =
  "'c \<Rightarrow> 'v NewTask list \<Rightarrow> 'w \<Rightarrow> 'w \<times> (unit, 'd CommandGatewayError) result"

type_synonym ('w, 'c, 'v, 'd) executor =
  "rstring \<Rightarrow> 'c \<Rightarrow> 'v NewTask list \<Rightarrow> 'w \<Rightarrow> 'w \<times> (unit, 'd CommandGatewayError) result"

fun aggregate_id :: "EmailReservationCommand \<Rightarrow> rstring" where
  "aggregate_id (ReserveEmail email _ _) = Email_to_string email"
| "aggregate_id (RequestVerificationCode email _ _) = Email_to_string email"
| "aggregate_id (VerifyEmail email _ _ _) = Email_to_string email"
| "aggregate_id (SubmitRegistrationProfile email _ _ _) = Email_to_string email"
| "aggregate_id (RecordAccountCreated email _ _ _) = Email_to_string email"

definition CqrsEmailReservationGateway_execute_with_outbox ::
  "('w, EmailReservationCommand, 'v, EmailReservationError) executor
     \<Rightarrow> ('w, EmailReservationCommand, 'v, EmailReservationError) gateway" where
  "CqrsEmailReservationGateway_execute_with_outbox executor command tasks =
     executor (aggregate_id command) command tasks"

definition CqrsEmailReservationGateway_execute ::
  "('w, EmailReservationCommand, 'v, EmailReservationError) executor
     \<Rightarrow> EmailReservationCommand \<Rightarrow> 'w \<Rightarrow> 'w \<times> (unit, EmailReservationError CommandGatewayError) result" where
  "CqrsEmailReservationGateway_execute executor command =
     CqrsEmailReservationGateway_execute_with_outbox executor command []"

fun account_id_of :: "UserAccountCommand \<Rightarrow> UserAccountId" where
  "account_id_of (CreateAccount account_id _ _ _ _ _ _) = account_id"

definition CqrsUserAccountGateway_execute_with_outbox ::
  "(Uuid \<Rightarrow> rstring) \<Rightarrow> ('w, UserAccountCommand, 'v, UserAccountError) executor
     \<Rightarrow> ('w, UserAccountCommand, 'v, UserAccountError) gateway" where
  "CqrsUserAccountGateway_execute_with_outbox uuid_fmt executor command tasks =
     executor (UserAccountId_to_string uuid_fmt (account_id_of command)) command tasks"

section \<open>The email reservation service\<close>

datatype EmailReservationServiceError =
    AlreadyReserved
  | NotReserved
  | NotCurrentAccountId
  | AlreadyVerified
  | AccountCreationStarted
  | InvalidVerificationCode
  | Conflict
  | Unavailable
  | UnexpectedDomainRejection EmailReservationError

record ReservedEmail =
  re_email :: Email
  re_account_id :: UserAccountId

record VerifiedEmail =
  ve_email :: Email
  ve_account_id :: UserAccountId
  ve_account_creation_token :: rstring

record material =
  rm_account_id :: UserAccountId
  rm_verification_code :: u32
  rm_account_creation_token :: rstring

fun reserve_error :: "EmailReservationError CommandGatewayError \<Rightarrow> EmailReservationServiceError" where
  "reserve_error (Domain EmailReservationError.AlreadyReserved) = AlreadyReserved"
| "reserve_error CommandGatewayError.Conflict = Conflict"
| "reserve_error (Domain e) = UnexpectedDomainRejection e"
| "reserve_error CommandGatewayError.Unavailable = Unavailable"

text \<open>\<open>use_cases::reserve_email::execute\<close>; \<open>v4\<close> is the identifier of the new task.\<close>

definition reserve_email ::
  "'v codec \<Rightarrow> ('w, EmailReservationCommand, 'v, EmailReservationError) gateway \<Rightarrow> material \<Rightarrow> Uuid \<Rightarrow> Email
     \<Rightarrow> 'w \<Rightarrow> 'w \<times> (ReservedEmail, EmailReservationServiceError) result" where
  "reserve_email c gateway generator v4 email w =
     (let account_id = rm_account_id generator; verification_code = rm_verification_code generator in
      case NewTask_new (cd_is_object c) (cd_empty c) v4 (SendVerificationCodeTaskV1_payload c
             \<lparr> sv_email = email, sv_account_id = account_id, sv_verification_code = verification_code \<rparr>) of
        Err _ \<Rightarrow> (w, Err Unavailable)
      | Ok task \<Rightarrow>
          (case gateway (ReserveEmail email account_id verification_code) [task] w of
             (w', Err e) \<Rightarrow> (w', Err (reserve_error e))
           | (w', Ok _) \<Rightarrow> (w', Ok \<lparr> re_email = email, re_account_id = account_id \<rparr>)))"

fun request_code_error :: "EmailReservationError CommandGatewayError \<Rightarrow> EmailReservationServiceError" where
  "request_code_error (Domain EmailReservationError.AccountIdUnchanged) = Conflict"
| "request_code_error CommandGatewayError.Conflict = Conflict"
| "request_code_error (Domain EmailReservationError.NotReserved) = NotReserved"
| "request_code_error (Domain EmailReservationError.AccountCreationStarted) = AccountCreationStarted"
| "request_code_error (Domain e) = UnexpectedDomainRejection e"
| "request_code_error CommandGatewayError.Unavailable = Unavailable"

definition request_new_verification_code ::
  "'v codec \<Rightarrow> ('w, EmailReservationCommand, 'v, EmailReservationError) gateway \<Rightarrow> material \<Rightarrow> Uuid \<Rightarrow> Email
     \<Rightarrow> 'w \<Rightarrow> 'w \<times> (unit, EmailReservationServiceError) result" where
  "request_new_verification_code c gateway generator v4 email w =
     (let account_id = rm_account_id generator; verification_code = rm_verification_code generator in
      case NewTask_new (cd_is_object c) (cd_empty c) v4 (SendVerificationCodeTaskV1_payload c
             \<lparr> sv_email = email, sv_account_id = account_id, sv_verification_code = verification_code \<rparr>) of
        Err _ \<Rightarrow> (w, Err Unavailable)
      | Ok task \<Rightarrow>
          (case gateway (RequestVerificationCode email account_id verification_code) [task] w of
             (w', r) \<Rightarrow> (w', map_err request_code_error r)))"

fun confirm_error :: "EmailReservationError CommandGatewayError \<Rightarrow> EmailReservationServiceError" where
  "confirm_error (Domain EmailReservationError.NotReserved) = NotReserved"
| "confirm_error (Domain EmailReservationError.NotCurrentAccountId) = NotCurrentAccountId"
| "confirm_error (Domain EmailReservationError.AlreadyVerified) = AlreadyVerified"
| "confirm_error (Domain EmailReservationError.AccountCreationStarted) = AccountCreationStarted"
| "confirm_error (Domain EmailReservationError.InvalidVerificationCode) = InvalidVerificationCode"
| "confirm_error (Domain e) = UnexpectedDomainRejection e"
| "confirm_error CommandGatewayError.Conflict = Conflict"
| "confirm_error CommandGatewayError.Unavailable = Unavailable"

definition confirm_email ::
  "(rstring \<Rightarrow> rstring)
     \<Rightarrow> (EmailReservationCommand \<Rightarrow> 'w \<Rightarrow> 'w \<times> (unit, EmailReservationError CommandGatewayError) result)
     \<Rightarrow> material \<Rightarrow> Email \<Rightarrow> UserAccountId \<Rightarrow> u32
     \<Rightarrow> 'w \<Rightarrow> 'w \<times> (VerifiedEmail, EmailReservationServiceError) result" where
  "confirm_email sha256_hex gateway_execute generator email account_id code w =
     (if \<not> (1000000 \<le> code \<and> code \<le> 9999999) then (w, Err InvalidVerificationCode)
      else
        let account_creation_token = rm_account_creation_token generator;
            token_digest = sha256_hex account_creation_token in
        case gateway_execute (VerifyEmail email account_id code token_digest) w of
          (w', Err e) \<Rightarrow> (w', Err (confirm_error e))
        | (w', Ok _) \<Rightarrow> (w', Ok \<lparr> ve_email = email, ve_account_id = account_id,
            ve_account_creation_token = account_creation_token \<rparr>))"

section \<open>The registration service\<close>

record ProfileSubmission =
  ps_email :: Email
  ps_account_id :: UserAccountId
  ps_account_creation_token :: rstring
  ps_first_name :: rstring
  ps_last_name :: rstring
  ps_date_of_birth :: NaiveDate

record AcceptedSubmission =
  as_email :: Email
  as_account_id :: UserAccountId

datatype SubmissionError = Domain EmailReservationError | Conflict | Unavailable

datatype ContinuationError = Retry | Permanent

text \<open>\<open>date_naive\<close> is the day a time falls on.\<close>

definition submit_profile ::
  "(rstring \<Rightarrow> rstring) \<Rightarrow> (DateTime \<Rightarrow> NaiveDate) \<Rightarrow> 'v codec
     \<Rightarrow> ('w, EmailReservationCommand, 'v, EmailReservationError) gateway \<Rightarrow> DateTime \<Rightarrow> Uuid \<Rightarrow> ProfileSubmission
     \<Rightarrow> 'w \<Rightarrow> 'w \<times> (AcceptedSubmission, SubmissionError) result" where
  "submit_profile sha256_hex date_naive c email_gateway now v4 submission w =
     (let profile = RegistrationProfile_new (ps_first_name submission) (ps_last_name submission)
            (ps_date_of_birth submission) (date_naive now);
          command = SubmitRegistrationProfile (ps_email submission) (ps_account_id submission)
            (sha256_hex (ps_account_creation_token submission)) profile in
      case NewTask_new (cd_is_object c) (cd_empty c) v4 (CreateAccountTaskV1_payload c
             \<lparr> ct_email = ps_email submission, ct_account_id = ps_account_id submission, ct_profile = profile \<rparr>) of
        Err _ \<Rightarrow> (w, Err Unavailable)
      | Ok task \<Rightarrow>
          (case email_gateway command [task] w of
             (w', Ok _) \<Rightarrow> (w', Ok \<lparr> as_email = ps_email submission, as_account_id = ps_account_id submission \<rparr>)
           | (w', Err CommandGatewayError.Conflict) \<Rightarrow> (w', Err Conflict)
           | (w', Err CommandGatewayError.Unavailable) \<Rightarrow> (w', Err Unavailable)
           | (w', Err (CommandGatewayError.Domain e)) \<Rightarrow> (w', Err (Domain e))))"

definition create_account ::
  "'v codec \<Rightarrow> ('w, UserAccountCommand, 'v, UserAccountError) gateway \<Rightarrow> DateTime \<Rightarrow> Uuid \<Rightarrow> CreateAccountTaskV1
     \<Rightarrow> 'w \<Rightarrow> 'w \<times> (unit, ContinuationError) result" where
  "create_account c account_gateway now v4 task w =
     (let created_at = now in
      case NewTask_new (cd_is_object c) (cd_empty c) v4 (RecordAccountCreatedTaskV1_payload c
             \<lparr> rt_email = ct_email task, rt_account_id = ct_account_id task, rt_profile = ct_profile task,
               rt_created_at = created_at \<rparr>) of
        Err _ \<Rightarrow> (w, Err Permanent)
      | Ok completion \<Rightarrow>
          (let command = CreateAccount (ct_account_id task) (ct_email task) (rp_first_name (ct_profile task))
                 (rp_last_name (ct_profile task)) (rp_date_of_birth (ct_profile task))
                 (rp_validation_date (ct_profile task)) created_at in
           case account_gateway command [completion] w of
             (w', Ok _) \<Rightarrow> (w', Ok ())
           | (w', Err (CommandGatewayError.Domain AlreadyCreated)) \<Rightarrow> (w', Ok ())
           | (w', Err CommandGatewayError.Conflict) \<Rightarrow> (w', Err Retry)
           | (w', Err CommandGatewayError.Unavailable) \<Rightarrow> (w', Err Retry)
           | (w', Err (CommandGatewayError.Domain _)) \<Rightarrow> (w', Err Permanent)))"

definition record_account_created ::
  "(EmailReservationCommand \<Rightarrow> 'w \<Rightarrow> 'w \<times> (unit, EmailReservationError CommandGatewayError) result)
     \<Rightarrow> RecordAccountCreatedTaskV1 \<Rightarrow> 'w \<Rightarrow> 'w \<times> (unit, ContinuationError) result" where
  "record_account_created gateway_execute task w =
     (case gateway_execute (RecordAccountCreated (rt_email task) (rt_account_id task) (rt_profile task)
             (rt_created_at task)) w of
        (w', Ok _) \<Rightarrow> (w', Ok ())
      | (w', Err (CommandGatewayError.Domain AccountCreationAlreadyCompleted)) \<Rightarrow> (w', Ok ())
      | (w', Err CommandGatewayError.Conflict) \<Rightarrow> (w', Err Retry)
      | (w', Err CommandGatewayError.Unavailable) \<Rightarrow> (w', Err Retry)
      | (w', Err (CommandGatewayError.Domain _)) \<Rightarrow> (w', Err Permanent))"

section \<open>Task handlers\<close>

fun delivery_error :: "ContinuationError \<Rightarrow> TaskHandlerError" where
  "delivery_error Retry = TaskHandlerError.Retry (lit ''registration continuation temporarily unavailable'') None"
| "delivery_error Permanent = TaskHandlerError.Permanent (lit ''registration continuation data does not match'')"

definition create_account_task_adapter ::
  "'v codec \<Rightarrow> (CreateAccountTaskV1 \<Rightarrow> 'w \<Rightarrow> 'w \<times> (unit, ContinuationError) result)
     \<Rightarrow> (('v, 'w) TaskAdapter, TaskFormatError) result" where
  "create_account_task_adapter c service_create_account =
     task_adapter (lit ''create_account'') 1 (cd_read_create c)
       (\<lambda>payload _ w. apsnd (map_err delivery_error) (service_create_account payload w))"

definition record_account_created_task_adapter ::
  "'v codec \<Rightarrow> (RecordAccountCreatedTaskV1 \<Rightarrow> 'w \<Rightarrow> 'w \<times> (unit, ContinuationError) result)
     \<Rightarrow> (('v, 'w) TaskAdapter, TaskFormatError) result" where
  "record_account_created_task_adapter c service_record_account_created =
     task_adapter (lit ''record_account_created'') 1 (cd_read_record c)
       (\<lambda>payload _ w. apsnd (map_err delivery_error) (service_record_account_created payload w))"

record VerificationCodeDelivery =
  vd_email :: Email
  vd_account_id :: UserAccountId
  vd_verification_code :: u32

definition VerificationCodeDelivery_from :: "SendVerificationCodeTaskV1 \<Rightarrow> VerificationCodeDelivery" where
  "VerificationCodeDelivery_from task =
     \<lparr> vd_email = sv_email task, vd_account_id = sv_account_id task,
       vd_verification_code = sv_verification_code task \<rparr>"

definition SendVerificationCodeTaskHandler_handle ::
  "(VerificationCodeDelivery \<Rightarrow> 'v TaskAttempt \<Rightarrow> 'w \<Rightarrow> 'w \<times> (unit, TaskHandlerError) result)
     \<Rightarrow> SendVerificationCodeTaskV1 \<Rightarrow> 'v TaskAttempt \<Rightarrow> 'w \<Rightarrow> 'w \<times> (unit, TaskHandlerError) result" where
  "SendVerificationCodeTaskHandler_handle send payload delivery w =
     (if \<not> (1000000 \<le> sv_verification_code payload \<and> sv_verification_code payload \<le> 9999999)
      then (w, Err (TaskHandlerError.Permanent (lit ''invalid verification code'')))
      else send (VerificationCodeDelivery_from payload) delivery w)"

definition send_verification_code_task_adapter ::
  "'v codec \<Rightarrow> (VerificationCodeDelivery \<Rightarrow> 'v TaskAttempt \<Rightarrow> 'w \<Rightarrow> 'w \<times> (unit, TaskHandlerError) result)
     \<Rightarrow> (('v, 'w) TaskAdapter, TaskFormatError) result" where
  "send_verification_code_task_adapter c send =
     task_adapter (lit ''send_verification_code'') 1 (cd_read_send c) (SendVerificationCodeTaskHandler_handle send)"

section \<open>Infrastructure adapters\<close>

text \<open>
  The console sender: one line to the writer, then a flush; \<open>write_all\<close> and \<open>flush\<close> change the
  world and say whether they succeeded.
\<close>

definition console_line :: "(Uuid \<Rightarrow> rstring) \<Rightarrow> VerificationCodeDelivery \<Rightarrow> 'v TaskAttempt \<Rightarrow> rstring" where
  "console_line uuid_fmt message delivery =
     lit ''Verification code '' @ digits (unat (vd_verification_code message)) @
     lit '' for account_id '' @ UserAccountId_to_string uuid_fmt (vd_account_id message) @
     lit '' sent to '' @ Email_to_string (vd_email message) @
     lit ''; task_id='' @ uuid_fmt (ta_id delivery) @
     lit ''; attempt='' @ int_to_string (ta_number delivery) @ [10]"

definition ConsoleVerificationCodeSender_send ::
  "(Uuid \<Rightarrow> rstring) \<Rightarrow> (rstring \<Rightarrow> 'w \<Rightarrow> 'w \<times> bool) \<Rightarrow> ('w \<Rightarrow> 'w \<times> bool)
     \<Rightarrow> VerificationCodeDelivery \<Rightarrow> 'v TaskAttempt \<Rightarrow> 'w \<Rightarrow> 'w \<times> (unit, TaskHandlerError) result" where
  "ConsoleVerificationCodeSender_send uuid_fmt write_all flush message delivery w =
     (let failed = Err (TaskHandlerError.Retry (lit ''console write failed'') None) in
      case write_all (console_line uuid_fmt message delivery) w of
        (w1, False) \<Rightarrow> (w1, failed)
      | (w1, True) \<Rightarrow>
          (case flush w1 of
             (w2, False) \<Rightarrow> (w2, failed)
           | (w2, True) \<Rightarrow> (w2, Ok ())))"

text \<open>\<open>random_range low high\<close> returns a number from \<open>low\<close> up to but not \<open>high\<close>.\<close>

definition random_verification_code :: "(u32 \<Rightarrow> u32 \<Rightarrow> u32) \<Rightarrow> u32" where
  "random_verification_code random_range = random_range 1000000 10000000"

definition RandomRegistrationMaterialGenerator ::
  "Uuid \<Rightarrow> (u32 \<Rightarrow> u32 \<Rightarrow> u32) \<Rightarrow> (nat list \<Rightarrow> rstring) \<Rightarrow> nat list \<Rightarrow> material" where
  "RandomRegistrationMaterialGenerator v4 random_range url_safe_no_pad_encode random_bytes =
     \<lparr> rm_account_id = UserAccountId_new v4,
       rm_verification_code = random_verification_code random_range,
       rm_account_creation_token = url_safe_no_pad_encode random_bytes \<rparr>"

definition material_ok :: "material \<Rightarrow> bool" where
  "material_ok g \<longleftrightarrow> code_ok (rm_verification_code g)"

section \<open>Facts\<close>

lemma random_material_ok:
  assumes "\<And>low high. low < high \<Longrightarrow> low \<le> random_range low high \<and> random_range low high < high"
  shows "material_ok (RandomRegistrationMaterialGenerator v4 random_range enc bytes)"
proof -
  have "(1000000 :: u32) < 10000000" by simp
  from assms [OF this] have "1000000 \<le> random_range 1000000 10000000" "random_range 1000000 10000000 < 10000000" by auto
  then have "random_range 1000000 10000000 \<le> 9999999" by (simp add: word_less_nat_alt word_le_nat_alt)
  then show ?thesis using \<open>1000000 \<le> random_range 1000000 10000000\<close>
    by (simp add: material_ok_def code_ok_def RandomRegistrationMaterialGenerator_def random_verification_code_def)
qed

text \<open>A task of a DTO is always built, with its fixed format and a payload that reads back.\<close>

definition published :: "'v codec \<Rightarrow> Uuid \<Rightarrow> rstring \<Rightarrow> 'v \<Rightarrow> 'v NewTask" where
  "published c v4 ty v = \<lparr> nt_id = v4, nt_format = \<lparr> task_type = ty, task_version = 1 \<rparr>, nt_payload = v,
     nt_metadata = cd_empty c, nt_schedule = Now, nt_max_attempts = 10 \<rparr>"

lemma send_task_built:
  assumes "codec_ok c"
  shows "\<exists>v. NewTask_new (cd_is_object c) (cd_empty c) v4 (SendVerificationCodeTaskV1_payload c x) =
    Ok (published c v4 (lit ''send_verification_code'') v) \<and> cd_read_send c v = Some x"
proof -
  from assms obtain v where "cd_send c x = Some v" "cd_is_object c v" "cd_read_send c v = Some x"
    unfolding codec_ok_def by blast
  then show ?thesis
    by (simp add: SendVerificationCodeTaskV1_payload_def task_data_defs published_def lit_def)
qed

lemma create_task_built:
  assumes "codec_ok c"
  shows "\<exists>v. NewTask_new (cd_is_object c) (cd_empty c) v4 (CreateAccountTaskV1_payload c x) =
    Ok (published c v4 (lit ''create_account'') v) \<and> cd_read_create c v = Some x"
proof -
  from assms obtain v where "cd_create c x = Some v" "cd_is_object c v" "cd_read_create c v = Some x"
    unfolding codec_ok_def by blast
  then show ?thesis
    by (simp add: CreateAccountTaskV1_payload_def task_data_defs published_def lit_def)
qed

lemma record_task_built:
  assumes "codec_ok c"
  shows "\<exists>v. NewTask_new (cd_is_object c) (cd_empty c) v4 (RecordAccountCreatedTaskV1_payload c x) =
    Ok (published c v4 (lit ''record_account_created'') v) \<and> cd_read_record c v = Some x"
proof -
  from assms obtain v where "cd_record c x = Some v" "cd_is_object c v" "cd_read_record c v = Some x"
    unfolding codec_ok_def by blast
  then show ?thesis
    by (simp add: RecordAccountCreatedTaskV1_payload_def task_data_defs published_def lit_def)
qed

end
