(* ===== verification/Registration.thy ===== *)
theory Registration
  imports Application
begin

text \<open>
  The whole registration: the streams of all mailboxes and accounts and the published tasks, under
  the requests of any clients and the deliveries of any workers, in any order and any number of
  times.

  \<open>executes\<close> is the contract of a \<open>CommandExecutor\<close> (\<open>command.rs\<close>, \<open>postgres/command_factory.rs\<close>):
  an accepted event and the tasks of the command are committed together, a rejected command
  changes nothing, and a failure of storage leaves the outcome open. A use case makes one call of
  an executor, so a request is one step; what other users do before its commit are other steps.
  \<open>Registration_Guarantees\<close> shows that the retrying executor of \<open>Command_Execution\<close> meets this
  contract when each attempt of the framework does.

  Tasks are delivered through the dispatcher that \<open>startup/wiring.rs\<close> builds. The invariant ties
  published tasks, created accounts and completed reservations to the profile a mailbox accepted.
\<close>

section \<open>The contract of a command executor\<close>

inductive executes ::
  "('s \<Rightarrow> 'c \<Rightarrow> ('e list, 'd) result run) \<Rightarrow> ('s \<Rightarrow> 'e \<Rightarrow> 's run) \<Rightarrow> 's \<Rightarrow> ('w \<Rightarrow> 'e list)
     \<Rightarrow> ('e list \<Rightarrow> 'w \<Rightarrow> 'w) \<Rightarrow> 'c \<Rightarrow> 'w \<Rightarrow> 'w \<Rightarrow> (unit, 'd CommandGatewayError) result \<Rightarrow> bool"
  for handle app initial events_of commit command where
  accepted: "replay app initial (events_of w) = Return s \<Longrightarrow> handle s command = Return (Ok evs) \<Longrightarrow>
     executes handle app initial events_of commit command w (commit evs w) (Ok ())"
| outcome_unknown: "replay app initial (events_of w) = Return s \<Longrightarrow> handle s command = Return (Ok evs) \<Longrightarrow>
     executes handle app initial events_of commit command w (commit evs w) (Err CommandGatewayError.Unavailable)"
| rejected: "replay app initial (events_of w) = Return s \<Longrightarrow> handle s command = Return (Err d) \<Longrightarrow>
     executes handle app initial events_of commit command w w (Err (CommandGatewayError.Domain d))"
| conflicted: "executes handle app initial events_of commit command w w (Err CommandGatewayError.Conflict)"
| unavailable: "executes handle app initial events_of commit command w w (Err CommandGatewayError.Unavailable)"

text \<open>What a call comes to for an aggregate with the contract \<open>event_sourced\<close>.\<close>

context event_sourced
begin

lemma executed:
  assumes "executes handle app initial events_of commit command w w' r" "replay app initial (events_of w) = Return s"
  obtains (committed) e where "handle s command = Return (Ok [e])" "w' = commit [e] w"
      "r = Ok () \<or> r = Err CommandGatewayError.Unavailable"
  | (rejected) d where "handle s command = Return (Err d)" "w' = w" "r = Err (CommandGatewayError.Domain d)"
  | (failed) "w' = w" "r = Err CommandGatewayError.Conflict \<or> r = Err CommandGatewayError.Unavailable"
  using assms(1)
proof cases
  case (accepted s' evs)
  with assms(2) have h: "handle s command = Return (Ok evs)" by simp
  from handle_one_event [OF h] obtain e where "evs = [e]" by blast
  with accepted h show ?thesis by (intro that(1) [of e]) simp_all
next
  case (outcome_unknown s' evs)
  with assms(2) have h: "handle s command = Return (Ok evs)" by simp
  from handle_one_event [OF h] obtain e where "evs = [e]" by blast
  with outcome_unknown h show ?thesis by (intro that(1) [of e]) simp_all
next
  case (rejected s' d)
  with assms(2) show ?thesis by (intro that(2)) simp_all
qed (use that(3) in simp_all)

end

section \<open>The state of the system\<close>

record 'v system =
  sy_mailboxes :: "rstring \<Rightarrow> EmailReservationEvent list"
  sy_accounts :: "rstring \<Rightarrow> UserAccountEvent list"
  sy_tasks :: "'v NewTask list"
  sy_console :: rstring

definition empty_system :: "'v system" where
  "empty_system = \<lparr> sy_mailboxes = (\<lambda>_. []), sy_accounts = (\<lambda>_. []), sy_tasks = [], sy_console = [] \<rparr>"

definition commit_mailbox :: "rstring \<Rightarrow> 'v NewTask list \<Rightarrow> EmailReservationEvent list \<Rightarrow> 'v system \<Rightarrow> 'v system" where
  "commit_mailbox k tasks evs w = w\<lparr> sy_mailboxes := (sy_mailboxes w)(k := sy_mailboxes w k @ evs),
     sy_tasks := sy_tasks w @ tasks \<rparr>"

definition commit_account :: "rstring \<Rightarrow> 'v NewTask list \<Rightarrow> UserAccountEvent list \<Rightarrow> 'v system \<Rightarrow> 'v system" where
  "commit_account k tasks evs w = w\<lparr> sy_accounts := (sy_accounts w)(k := sy_accounts w k @ evs),
     sy_tasks := sy_tasks w @ tasks \<rparr>"

type_synonym 'v email_executor = "('v system, EmailReservationCommand, 'v, EmailReservationError) executor"
type_synonym 'v account_executor = "('v system, UserAccountCommand, 'v, UserAccountError) executor"

definition email_executor_ok :: "'v email_executor \<Rightarrow> bool" where
  "email_executor_ok ex \<longleftrightarrow> (\<forall>k command tasks w.
     executes EmailReservation_handle EmailReservation_apply EmailReservation_default (\<lambda>w. sy_mailboxes w k)
       (commit_mailbox k tasks) command w (fst (ex k command tasks w)) (snd (ex k command tasks w)))"

definition account_executor_ok :: "'v account_executor \<Rightarrow> bool" where
  "account_executor_ok ex \<longleftrightarrow> (\<forall>k command tasks w.
     executes UserAccount_handle UserAccount_apply UserAccount_default (\<lambda>w. sy_accounts w k)
       (commit_account k tasks) command w (fst (ex k command tasks w)) (snd (ex k command tasks w)))"

section \<open>Wiring\<close>

text \<open>
  The dispatcher factory of \<open>wiring::build\<close>, over the world the executors and the console act on.
  \<open>write_all\<close> and \<open>flush\<close> are those of the process's standard output.
\<close>

definition build_dispatcher ::
  "'v codec \<Rightarrow> (Uuid \<Rightarrow> rstring) \<Rightarrow> (rstring \<Rightarrow> 'w \<Rightarrow> 'w \<times> bool) \<Rightarrow> ('w \<Rightarrow> 'w \<times> bool)
     \<Rightarrow> ('w, EmailReservationCommand, 'v, EmailReservationError) executor
     \<Rightarrow> ('w, UserAccountCommand, 'v, UserAccountError) executor \<Rightarrow> DateTime \<Rightarrow> Uuid
     \<Rightarrow> (('v, 'w) TaskDispatcher, TaskDispatcherError) result" where
  "build_dispatcher c uuid_fmt write_all flush email_executor account_executor now v4 =
     bind_result (map_err InvalidFormat (send_verification_code_task_adapter c
       (ConsoleVerificationCodeSender_send uuid_fmt write_all flush))) (\<lambda>send_adapter.
     bind_result (map_err InvalidFormat (create_account_task_adapter c
       (create_account c (CqrsUserAccountGateway_execute_with_outbox uuid_fmt account_executor) now v4))) (\<lambda>create_adapter.
     bind_result (map_err InvalidFormat (record_account_created_task_adapter c
       (record_account_created (CqrsEmailReservationGateway_execute email_executor)))) (\<lambda>record_adapter.
       TaskDispatcher_try_new [send_adapter, create_adapter, record_adapter])))"

text \<open>Writing to the console of the system; a failed write leaves some other text behind.\<close>

definition console_write :: "bool \<Rightarrow> rstring \<Rightarrow> rstring \<Rightarrow> 'v system \<Rightarrow> 'v system \<times> bool" where
  "console_write ok partial text w = (w\<lparr> sy_console := sy_console w @ (if ok then text else partial) \<rparr>, ok)"

definition console_flush :: "bool \<Rightarrow> 'v system \<Rightarrow> 'v system \<times> bool" where
  "console_flush ok w = (w, ok)"

definition attempt_of :: "'v NewTask \<Rightarrow> int \<Rightarrow> 'v TaskAttempt" where
  "attempt_of t number = \<lparr> ta_id = nt_id t, ta_format = nt_format t, ta_payload = nt_payload t,
     ta_metadata = nt_metadata t, ta_number = number \<rparr>"

section \<open>Steps\<close>

inductive sys_step ::
  "(rstring \<Rightarrow> rstring) \<Rightarrow> (DateTime \<Rightarrow> NaiveDate) \<Rightarrow> (Uuid \<Rightarrow> rstring) \<Rightarrow> 'v codec \<Rightarrow> 'v system \<Rightarrow> 'v system \<Rightarrow> bool"
  for sha256_hex date_naive uuid_fmt c where
  reserves: "email_executor_ok ex \<Longrightarrow> material_ok generator \<Longrightarrow>
     reserve_email c (CqrsEmailReservationGateway_execute_with_outbox ex) generator v4 email w = (w', reserved) \<Longrightarrow>
     sys_step sha256_hex date_naive uuid_fmt c w w'"
| requests_code: "email_executor_ok ex \<Longrightarrow> material_ok generator \<Longrightarrow>
     request_new_verification_code c (CqrsEmailReservationGateway_execute_with_outbox ex) generator v4 email w = (w', requested) \<Longrightarrow>
     sys_step sha256_hex date_naive uuid_fmt c w w'"
| confirms: "email_executor_ok ex \<Longrightarrow>
     confirm_email sha256_hex (CqrsEmailReservationGateway_execute ex) generator email account_id code w = (w', confirmed) \<Longrightarrow>
     sys_step sha256_hex date_naive uuid_fmt c w w'"
| submits: "email_executor_ok ex \<Longrightarrow>
     submit_profile sha256_hex date_naive c (CqrsEmailReservationGateway_execute_with_outbox ex) now v4 submission w = (w', submitted) \<Longrightarrow>
     sys_step sha256_hex date_naive uuid_fmt c w w'"
| delivers: "t \<in> set (sy_tasks w) \<Longrightarrow> email_executor_ok ex \<Longrightarrow> account_executor_ok ax \<Longrightarrow>
     build_dispatcher c uuid_fmt (console_write written partial) (console_flush flushed) ex ax now v4 = Ok d \<Longrightarrow>
     TaskDispatcher_dispatch d (attempt_of t number) w = Return (w', handled) \<Longrightarrow>
     sys_step sha256_hex date_naive uuid_fmt c w w'"

section \<open>The dispatcher of the service\<close>

abbreviation send_format :: TaskFormat where
  "send_format \<equiv> \<lparr> task_type = lit ''send_verification_code'', task_version = 1 \<rparr>"
abbreviation create_format :: TaskFormat where
  "create_format \<equiv> \<lparr> task_type = lit ''create_account'', task_version = 1 \<rparr>"
abbreviation record_format :: TaskFormat where
  "record_format \<equiv> \<lparr> task_type = lit ''record_account_created'', task_version = 1 \<rparr>"

lemma dispatch_service:
  assumes "build_dispatcher c uuid_fmt write_all flush ex ax now v4 = Ok d"
  shows "TaskDispatcher_dispatch d a w = Return (
    if ta_format a = send_format
    then JsonTaskAdapter_invoke send_format (cd_read_send c) (SendVerificationCodeTaskHandler_handle
      (ConsoleVerificationCodeSender_send uuid_fmt write_all flush)) a w
    else if ta_format a = create_format
    then JsonTaskAdapter_invoke create_format (cd_read_create c) (\<lambda>payload _ w. apsnd (map_err delivery_error)
      (create_account c (CqrsUserAccountGateway_execute_with_outbox uuid_fmt ax) now v4 payload w)) a w
    else if ta_format a = record_format
    then JsonTaskAdapter_invoke record_format (cd_read_record c) (\<lambda>payload _ w. apsnd (map_err delivery_error)
      (record_account_created (CqrsEmailReservationGateway_execute ex) payload w)) a w
    else (w, Err (TaskHandlerError.Permanent (lit ''unsupported task format''))))"
  using assms
  by (auto simp: build_dispatcher_def send_verification_code_task_adapter_def create_account_task_adapter_def
      record_account_created_task_adapter_def task_adapter_def TaskFormat_new_def TaskDispatcher_try_new_def
      indexed_formats_def TaskDispatcher_dispatch_def lit_def)

lemma dispatcher_built: "\<exists>d. build_dispatcher c uuid_fmt write_all flush ex ax now v4 = Ok d"
  by (simp add: build_dispatcher_def send_verification_code_task_adapter_def create_account_task_adapter_def
      record_account_created_task_adapter_def task_adapter_def TaskFormat_new_def TaskDispatcher_try_new_def
      indexed_formats_def lit_def)

section \<open>The invariant\<close>

fun event_email :: "EmailReservationEvent \<Rightarrow> Email" where
  "event_email (EmailReserved e _ _) = e"
| "event_email (VerificationCodeRequested e _ _) = e"
| "event_email (VerificationRestarted e _ _) = e"
| "event_email (EmailVerified e _ _) = e"
| "event_email (RegistrationProfileAccepted e _ _ _) = e"
| "event_email (AccountCreationCompleted e _ _) = e"

definition accepted_in :: "'v system \<Rightarrow> Email \<Rightarrow> UserAccountId \<Rightarrow> RegistrationProfile \<Rightarrow> bool" where
  "accepted_in w e i p \<longleftrightarrow> (\<exists>d. RegistrationProfileAccepted e i d p \<in> set (sy_mailboxes w (as_str e)))"

definition created_in ::
  "(Uuid \<Rightarrow> rstring) \<Rightarrow> 'v system \<Rightarrow> Email \<Rightarrow> UserAccountId \<Rightarrow> RegistrationProfile \<Rightarrow> DateTime \<Rightarrow> bool" where
  "created_in uuid_fmt w e i p t \<longleftrightarrow>
     creation_event (created_account i e p t) \<in> set (sy_accounts w (uuid_fmt (as_uuid i)))"

definition mailboxes_ok :: "'v system \<Rightarrow> bool" where
  "mailboxes_ok w \<longleftrightarrow> (\<forall>k. legal_history (sy_mailboxes w k) \<and> (\<forall>e\<in>set (sy_mailboxes w k). event_email e = Email k))"

definition accounts_ok :: "(Uuid \<Rightarrow> rstring) \<Rightarrow> 'v system \<Rightarrow> bool" where
  "accounts_ok uuid_fmt w \<longleftrightarrow> (\<forall>k. sy_accounts w k \<noteq> [] \<longrightarrow>
     (\<exists>i e p t. sy_accounts w k = [creation_event (created_account i e p t)] \<and> profile_ok p \<and>
        k = uuid_fmt (as_uuid i) \<and> accepted_in w e i p))"

definition task_ok :: "(Uuid \<Rightarrow> rstring) \<Rightarrow> 'v codec \<Rightarrow> 'v system \<Rightarrow> 'v NewTask \<Rightarrow> bool" where
  "task_ok uuid_fmt c w t \<longleftrightarrow>
     nt_format t \<in> {send_format, create_format, record_format} \<and>
     (nt_format t = send_format \<longrightarrow> (\<exists>x. cd_read_send c (nt_payload t) = Some x \<and> code_ok (sv_verification_code x))) \<and>
     (nt_format t = create_format \<longrightarrow> (\<exists>x. cd_read_create c (nt_payload t) = Some x \<and>
        accepted_in w (ct_email x) (ct_account_id x) (ct_profile x))) \<and>
     (nt_format t = record_format \<longrightarrow> (\<exists>x. cd_read_record c (nt_payload t) = Some x \<and>
        created_in uuid_fmt w (rt_email x) (rt_account_id x) (rt_profile x) (rt_created_at x)))"

definition completions_ok :: "(Uuid \<Rightarrow> rstring) \<Rightarrow> 'v system \<Rightarrow> bool" where
  "completions_ok uuid_fmt w \<longleftrightarrow> (\<forall>k i t. AccountCreationCompleted (Email k) i t \<in> set (sy_mailboxes w k) \<longrightarrow>
     (\<exists>p. created_in uuid_fmt w (Email k) i p t))"

text \<open>The task that follows an accepted profile, and the one that follows a created account.\<close>

definition create_task_for :: "'v codec \<Rightarrow> Email \<Rightarrow> UserAccountId \<Rightarrow> RegistrationProfile \<Rightarrow> 'v NewTask \<Rightarrow> bool" where
  "create_task_for c e i p t \<longleftrightarrow> nt_format t = create_format \<and>
     cd_read_create c (nt_payload t) = Some \<lparr> ct_email = e, ct_account_id = i, ct_profile = p \<rparr>"

definition record_task_for ::
  "'v codec \<Rightarrow> Email \<Rightarrow> UserAccountId \<Rightarrow> RegistrationProfile \<Rightarrow> DateTime \<Rightarrow> 'v NewTask \<Rightarrow> bool" where
  "record_task_for c e i p ts t \<longleftrightarrow> nt_format t = record_format \<and>
     cd_read_record c (nt_payload t) = Some \<lparr> rt_email = e, rt_account_id = i, rt_profile = p, rt_created_at = ts \<rparr>"

definition followups_ok :: "(Uuid \<Rightarrow> rstring) \<Rightarrow> 'v codec \<Rightarrow> 'v system \<Rightarrow> bool" where
  "followups_ok uuid_fmt c w \<longleftrightarrow>
     (\<forall>e i p. accepted_in w e i p \<longrightarrow> (\<exists>t\<in>set (sy_tasks w). create_task_for c e i p t)) \<and>
     (\<forall>e i p ts. created_in uuid_fmt w e i p ts \<longrightarrow> (\<exists>t\<in>set (sy_tasks w). record_task_for c e i p ts t))"

definition sys_inv :: "(Uuid \<Rightarrow> rstring) \<Rightarrow> 'v codec \<Rightarrow> 'v system \<Rightarrow> bool" where
  "sys_inv uuid_fmt c w \<longleftrightarrow> mailboxes_ok w \<and> accounts_ok uuid_fmt w \<and> (\<forall>t\<in>set (sy_tasks w). task_ok uuid_fmt c w t) \<and>
     completions_ok uuid_fmt w \<and> followups_ok uuid_fmt c w"

lemmas sys_inv_defs = sys_inv_def mailboxes_ok_def accounts_ok_def completions_ok_def followups_ok_def

lemma empty_system_inv: "sys_inv uuid_fmt c empty_system"
  by (simp add: sys_inv_defs empty_system_def accepted_in_def created_in_def)

lemma commit_mailbox_sel [simp]:
  "sy_mailboxes (commit_mailbox k tasks evs w) = (sy_mailboxes w)(k := sy_mailboxes w k @ evs)"
  "sy_accounts (commit_mailbox k tasks evs w) = sy_accounts w"
  "sy_tasks (commit_mailbox k tasks evs w) = sy_tasks w @ tasks"
  by (simp_all add: commit_mailbox_def)

lemma commit_account_sel [simp]:
  "sy_mailboxes (commit_account k tasks evs w) = sy_mailboxes w"
  "sy_accounts (commit_account k tasks evs w) = (sy_accounts w)(k := sy_accounts w k @ evs)"
  "sy_tasks (commit_account k tasks evs w) = sy_tasks w @ tasks"
  by (simp_all add: commit_account_def)

text \<open>Commits only add: what was accepted or created stays so.\<close>

lemma accepted_in_commit [intro]:
  "accepted_in w e i p \<Longrightarrow> accepted_in (commit_mailbox k tasks evs w) e i p"
  "accepted_in w e i p \<Longrightarrow> accepted_in (commit_account k tasks' evs' w) e i p"
  by (auto simp: accepted_in_def)

lemma created_in_commit [intro]:
  "created_in uuid_fmt w e i p t \<Longrightarrow> created_in uuid_fmt (commit_mailbox k tasks evs w) e i p t"
  "created_in uuid_fmt w e i p t \<Longrightarrow> created_in uuid_fmt (commit_account k tasks' evs' w) e i p t"
  by (auto simp: created_in_def)

lemma task_ok_commit [intro]:
  "task_ok uuid_fmt c w t \<Longrightarrow> task_ok uuid_fmt c (commit_mailbox k tasks evs w) t"
  "task_ok uuid_fmt c w t \<Longrightarrow> task_ok uuid_fmt c (commit_account k tasks' evs' w) t"
  unfolding task_ok_def by blast+

lemma sys_inv_console [simp]: "sys_inv uuid_fmt c (w\<lparr> sy_console := x \<rparr>) \<longleftrightarrow> sys_inv uuid_fmt c w"
  by (simp add: sys_inv_defs task_ok_def accepted_in_def created_in_def)

text \<open>An event of a mailbox carries the address of the command.\<close>

lemma accepted_event_email:
  assumes "EmailReservation_handle s command = Return (Ok [e])"
  shows "event_email e = Email (aggregate_id command)"
  using assms
  by (cases command)
    (auto simp: email_handler_defs Let_def Email_to_string_def
      split: option.splits result.splits ReservationPhase.splits if_splits)

lemma accounts_ok_commit:
  "accounts_ok uuid_fmt w \<Longrightarrow> accounts_ok uuid_fmt (commit_mailbox k tasks evs w)"
  unfolding accounts_ok_def commit_mailbox_sel by blast

lemma followups_commit:
  assumes "followups_ok uuid_fmt c w"
    and accepts: "\<And>em i d p. e = RegistrationProfileAccepted em i d p \<Longrightarrow> \<exists>t\<in>set tasks. create_task_for c em i p t"
  shows "followups_ok uuid_fmt c (commit_mailbox k tasks [e] w)"
proof -
  have "\<exists>t\<in>set (sy_tasks w @ tasks). create_task_for c em i p t" if a: "accepted_in (commit_mailbox k tasks [e] w) em i p" for em i p
  proof (cases "accepted_in w em i p")
    case True
    with assms(1) have "\<exists>t\<in>set (sy_tasks w). create_task_for c em i p t" unfolding followups_ok_def by blast
    then show ?thesis by auto
  next
    case False
    with a obtain d where "e = RegistrationProfileAccepted em i d p" by (auto simp: accepted_in_def split: if_splits)
    from accepts [OF this] show ?thesis by auto
  qed
  moreover have "\<exists>t\<in>set (sy_tasks w @ tasks). record_task_for c em i p ts t"
    if "created_in uuid_fmt (commit_mailbox k tasks [e] w) em i p ts" for em i p ts
  proof -
    from that have "created_in uuid_fmt w em i p ts" by (simp add: created_in_def)
    with assms(1) have "\<exists>t\<in>set (sy_tasks w). record_task_for c em i p ts t" unfolding followups_ok_def by blast
    then show ?thesis by auto
  qed
  ultimately show ?thesis unfolding followups_ok_def commit_mailbox_sel by blast
qed

lemma email_commit_inv:
  assumes inv: "sys_inv uuid_fmt c w"
    and h: "EmailReservation_handle \<lparr>phase = phase_after (rev (sy_mailboxes w (aggregate_id command)))\<rparr> command = Return (Ok [e])"
    and tasks: "\<forall>t\<in>set tasks. task_ok uuid_fmt c (commit_mailbox (aggregate_id command) tasks [e] w) t"
    and completes: "\<And>em i t. e = AccountCreationCompleted em i t \<Longrightarrow> \<exists>p. created_in uuid_fmt w em i p t"
    and accepts: "\<And>em i d p. e = RegistrationProfileAccepted em i d p \<Longrightarrow> \<exists>t\<in>set tasks. create_task_for c em i p t"
  shows "sys_inv uuid_fmt c (commit_mailbox (aggregate_id command) tasks [e] w)"
proof -
  let ?k = "aggregate_id command"
  from inv have m: "mailboxes_ok w" "accounts_ok uuid_fmt w" "\<forall>t\<in>set (sy_tasks w). task_ok uuid_fmt c w t" "completions_ok uuid_fmt w"
    "followups_ok uuid_fmt c w" by (simp_all add: sys_inv_def)
  have "legal_history (sy_mailboxes w ?k @ [e])"
    using accepted_extends_legal [OF _ _ h] m(1) by (simp add: mailboxes_ok_def)
  then have "mailboxes_ok (commit_mailbox ?k tasks [e] w)"
    using m(1) accepted_event_email [OF h] by (auto simp: mailboxes_ok_def)
  moreover have "completions_ok uuid_fmt (commit_mailbox ?k tasks [e] w)"
    using m(4) completes unfolding completions_ok_def by (auto simp: created_in_def)
  moreover have "followups_ok uuid_fmt c (commit_mailbox ?k tasks [e] w)"
    using followups_commit [OF m(5) accepts] .
  ultimately show ?thesis
    using m(3) tasks accounts_ok_commit [OF m(2)] by (auto simp: sys_inv_def)
qed

text \<open>A call of an executor, from a state with the invariant.\<close>

lemma email_call_outcome:
  assumes ex: "email_executor_ok ex" and inv: "sys_inv uuid_fmt c w"
    and "ex (aggregate_id command) command tasks w = (w', r)"
  obtains (committed) e where "r = Ok () \<or> r = Err CommandGatewayError.Unavailable"
      "w' = commit_mailbox (aggregate_id command) tasks [e] w"
      "EmailReservation_handle \<lparr>phase = phase_after (rev (sy_mailboxes w (aggregate_id command)))\<rparr> command = Return (Ok [e])"
  | (rejected) d where "r = Err (CommandGatewayError.Domain d)" "w' = w"
      "EmailReservation_handle \<lparr>phase = phase_after (rev (sy_mailboxes w (aggregate_id command)))\<rparr> command = Return (Err d)"
  | (failed) "r = Err CommandGatewayError.Conflict \<or> r = Err CommandGatewayError.Unavailable" "w' = w"
proof -
  let ?k = "aggregate_id command"
  from inv have "legal_history (sy_mailboxes w ?k)" by (simp add: sys_inv_defs)
  note replayed = legal_replay [OF this]
  from ex assms(3) have call: "executes EmailReservation_handle EmailReservation_apply EmailReservation_default
      (\<lambda>w. sy_mailboxes w ?k) (commit_mailbox ?k tasks) command w w' r"
    unfolding email_executor_ok_def by (metis fst_conv snd_conv)
  from call replayed show thesis
  proof (cases rule: email.executed)
    case (committed e)
    with that(1) show ?thesis by blast
  next
    case (rejected d)
    with that(2) show ?thesis by blast
  qed (rule that(3))
qed

lemma email_call:
  assumes "email_executor_ok ex" "sys_inv uuid_fmt c w" "ex (aggregate_id command) command tasks w = (w', r)"
  obtains "w' = w" "\<And>u. r \<noteq> Ok u"
  | e where "w' = commit_mailbox (aggregate_id command) tasks [e] w"
      "EmailReservation_handle \<lparr>phase = phase_after (rev (sy_mailboxes w (aggregate_id command)))\<rparr> command = Return (Ok [e])"
  using assms
proof (cases rule: email_call_outcome)
  case (committed e)
  then show ?thesis by (intro that(2))
qed (use that(1) in auto)

lemma account_call:
  assumes ex: "account_executor_ok ax" and inv: "sys_inv uuid_fmt c w"
    and "ax k (create_command i em p t) tasks w = (w', r)"
  obtains "w' = w" "\<And>u. r \<noteq> Ok u"
  | "w' = commit_account k tasks [creation_event (created_account i em (normalize_profile p) t)] w" "sy_accounts w k = []"
      "profile_ok (normalize_profile p)"
proof -
  from ex assms(3) have "executes UserAccount_handle UserAccount_apply UserAccount_default
      (\<lambda>w. sy_accounts w k) (commit_account k tasks) (create_command i em p t) w w' r"
    unfolding account_executor_ok_def by (metis fst_conv snd_conv)
  then show thesis
  proof (cases "sy_accounts w k")
    case Nil
    then have "replay UserAccount_apply UserAccount_default (sy_accounts w k) = Return UserAccount_default" by simp
    from \<open>executes _ _ _ _ _ _ _ _ _\<close> this show ?thesis
    proof (cases rule: account.executed)
      case (committed e)
      have "created UserAccount_default = None" by (simp add: UserAccount_default_def)
      from create_fresh [OF this] committed(1) have "profile_ok (normalize_profile p)"
        "e = creation_event (created_account i em (normalize_profile p) t)" by auto
      with committed(2) Nil show ?thesis by (intro that(2)) simp_all
    qed (auto intro: that(1))
  next
    case (Cons x xs)
    moreover from inv have "accounts_ok uuid_fmt w" by (simp add: sys_inv_def)
    ultimately obtain a where "sy_accounts w k = [creation_event a]" unfolding accounts_ok_def by (metis list.distinct(1))
    then have s: "replay UserAccount_apply UserAccount_default (sy_accounts w k) = Return \<lparr> created = Some a \<rparr>"
      "created \<lparr> created = Some a \<rparr> = Some a" by (simp_all add: UserAccount_default_def)
    from \<open>executes _ _ _ _ _ _ _ _ _\<close> s(1) show ?thesis
    proof (cases rule: account.executed)
      case (committed e)
      with create_existing [OF s(2)] show ?thesis by simp
    qed (auto intro: that(1))
  qed
qed

section \<open>Every step keeps the invariant\<close>

lemma send_task_ok:
  assumes "cd_read_send c v = Some x" "code_ok (sv_verification_code x)"
  shows "task_ok uuid_fmt c w (published c v4 (lit ''send_verification_code'') v)"
  using assms by (simp add: task_ok_def published_def lit_def)

lemma issue_code_inv:
  assumes "email_executor_ok ex" "sys_inv uuid_fmt c w"
    and v: "cd_read_send c v = Some x" "code_ok (sv_verification_code x)"
    and "command = ReserveEmail em i code \<or> command = RequestVerificationCode em i code"
    and "CqrsEmailReservationGateway_execute_with_outbox ex command [published c v4 (lit ''send_verification_code'') v] w = (w', r)"
  shows "sys_inv uuid_fmt c w'"
proof -
  from assms(6) have "ex (aggregate_id command) command [published c v4 (lit ''send_verification_code'') v] w = (w', r)"
    by (simp add: CqrsEmailReservationGateway_execute_with_outbox_def)
  from assms(1,2) this show ?thesis
  proof (cases rule: email_call)
    case (2 e)
    have "e \<noteq> AccountCreationCompleted em' i' t" "e \<noteq> RegistrationProfileAccepted em' i' d p" for em' i' t d p
      using 2(2) assms(5)
      by (auto simp: email_handler_defs split: option.splits result.splits ReservationPhase.splits if_splits)
    with 2 assms(2) show ?thesis unfolding 2(1) by (intro email_commit_inv) (auto intro: send_task_ok [OF v])
  qed (use assms(2) in simp)
qed

lemma reserve_inv:
  assumes "codec_ok c" "email_executor_ok ex" "sys_inv uuid_fmt c w" "material_ok generator"
    and "reserve_email c (CqrsEmailReservationGateway_execute_with_outbox ex) generator v4 email w = (w', r)"
  shows "sys_inv uuid_fmt c w'"
proof -
  from send_task_built [OF assms(1), of v4] obtain v where
    t: "NewTask_new (cd_is_object c) (cd_empty c) v4 (SendVerificationCodeTaskV1_payload c
      \<lparr> sv_email = email, sv_account_id = rm_account_id generator, sv_verification_code = rm_verification_code generator \<rparr>) =
      Ok (published c v4 (lit ''send_verification_code'') v)"
    and v: "cd_read_send c v = Some \<lparr> sv_email = email, sv_account_id = rm_account_id generator,
      sv_verification_code = rm_verification_code generator \<rparr>" by blast
  obtain r' where "CqrsEmailReservationGateway_execute_with_outbox ex
      (ReserveEmail email (rm_account_id generator) (rm_verification_code generator))
      [published c v4 (lit ''send_verification_code'') v] w = (w', r')"
    using assms(5) by (auto simp: reserve_email_def t Let_def split: prod.splits result.splits)
  from issue_code_inv [OF assms(2,3) v _ _ this] assms(4) show ?thesis by (simp add: material_ok_def)
qed

lemma request_code_inv:
  assumes "codec_ok c" "email_executor_ok ex" "sys_inv uuid_fmt c w" "material_ok generator"
    and "request_new_verification_code c (CqrsEmailReservationGateway_execute_with_outbox ex) generator v4 email w = (w', r)"
  shows "sys_inv uuid_fmt c w'"
proof -
  from send_task_built [OF assms(1), of v4] obtain v where
    t: "NewTask_new (cd_is_object c) (cd_empty c) v4 (SendVerificationCodeTaskV1_payload c
      \<lparr> sv_email = email, sv_account_id = rm_account_id generator, sv_verification_code = rm_verification_code generator \<rparr>) =
      Ok (published c v4 (lit ''send_verification_code'') v)"
    and v: "cd_read_send c v = Some \<lparr> sv_email = email, sv_account_id = rm_account_id generator,
      sv_verification_code = rm_verification_code generator \<rparr>" by blast
  obtain r' where "CqrsEmailReservationGateway_execute_with_outbox ex
      (RequestVerificationCode email (rm_account_id generator) (rm_verification_code generator))
      [published c v4 (lit ''send_verification_code'') v] w = (w', r')"
    using assms(5) by (auto simp: request_new_verification_code_def t Let_def split: prod.splits result.splits)
  from issue_code_inv [OF assms(2,3) v _ _ this] assms(4) show ?thesis by (simp add: material_ok_def)
qed

lemma confirm_inv:
  assumes "email_executor_ok ex" "sys_inv uuid_fmt c w"
    and "confirm_email sha256_hex (CqrsEmailReservationGateway_execute ex) generator email account_id code w = (w', r)"
  shows "sys_inv uuid_fmt c w'"
proof (cases "1000000 \<le> code \<and> code \<le> 9999999")
  case True
  let ?command = "VerifyEmail email account_id code (sha256_hex (rm_account_creation_token generator))"
  obtain r' where "ex (aggregate_id ?command) ?command [] w = (w', r')"
    using assms(3) True
    by (auto simp: confirm_email_def Let_def CqrsEmailReservationGateway_execute_def
        CqrsEmailReservationGateway_execute_with_outbox_def split: prod.splits result.splits)
  from assms(1,2) this show ?thesis
  proof (cases rule: email_call)
    case (2 e)
    have "e \<noteq> AccountCreationCompleted em' i' t" "e \<noteq> RegistrationProfileAccepted em' i' d p" for em' i' t d p
      using 2(2) by (auto simp: email_handler_defs split: ReservationPhase.splits if_splits)
    with 2 assms(2) show ?thesis unfolding 2(1) by (intro email_commit_inv) auto
  qed (use assms(2) in simp)
qed (use assms(2,3) in \<open>auto simp: confirm_email_def\<close>)

lemma submit_inv:
  assumes "codec_ok c" "email_executor_ok ex" "sys_inv uuid_fmt c w"
    and "submit_profile sha256_hex date_naive c (CqrsEmailReservationGateway_execute_with_outbox ex) now v4 submission w = (w', r)"
  shows "sys_inv uuid_fmt c w'"
proof -
  define profile where "profile = RegistrationProfile_new (ps_first_name submission) (ps_last_name submission)
    (ps_date_of_birth submission) (date_naive now)"
  let ?x = "\<lparr> ct_email = ps_email submission, ct_account_id = ps_account_id submission, ct_profile = profile \<rparr>"
  let ?command = "SubmitRegistrationProfile (ps_email submission) (ps_account_id submission)
    (sha256_hex (ps_account_creation_token submission)) profile"
  from create_task_built [OF assms(1), of v4 ?x] obtain v where
    t: "NewTask_new (cd_is_object c) (cd_empty c) v4 (CreateAccountTaskV1_payload c ?x) = Ok (published c v4 (lit ''create_account'') v)"
    and v: "cd_read_create c v = Some ?x" by blast
  obtain r' where "ex (aggregate_id ?command) ?command [published c v4 (lit ''create_account'') v] w = (w', r')"
    using assms(4) t
    by (auto simp: submit_profile_def Let_def profile_def [symmetric] CqrsEmailReservationGateway_execute_with_outbox_def
        split: prod.splits result.splits CommandGatewayError.splits)
  from assms(2,3) this show ?thesis
  proof (cases rule: email_call)
    case (2 e)
    have norm: "normalize_profile profile = profile" by (simp add: profile_def normalize_profile_def RegistrationProfile_new_def)
    from 2(2) have e: "e = RegistrationProfileAccepted (ps_email submission) (ps_account_id submission)
        (sha256_hex (ps_account_creation_token submission)) profile"
      by (simp add: handle_submit_profile_Ok norm)
    then have "accepted_in w' (ps_email submission) (ps_account_id submission) profile"
      unfolding 2(1) accepted_in_def by (auto simp: Email_to_string_def)
    then have "task_ok uuid_fmt c w' (published c v4 (lit ''create_account'') v)"
      by (simp add: task_ok_def published_def v lit_def)
    moreover have "create_task_for c (ps_email submission) (ps_account_id submission) profile (published c v4 (lit ''create_account'') v)"
      by (simp add: create_task_for_def published_def v)
    ultimately show ?thesis using 2 assms(3) e unfolding 2(1) by (intro email_commit_inv) auto
  qed (use assms(3) in simp)
qed

text \<open>What an acceptance in a mailbox says: the profile is valid, and it is the only one.\<close>

lemma accepted_after_verification:
  assumes "mailboxes_ok w" "accepted_in w e i p"
  obtains h em d es where "sy_mailboxes w (as_str e) = h @ EmailVerified em i d # RegistrationProfileAccepted e i d p # es"
    "profile_ok p"
proof -
  let ?h = "sy_mailboxes w (as_str e)"
  from assms(2) obtain d where "RegistrationProfileAccepted e i d p \<in> set ?h" by (auto simp: accepted_in_def)
  then obtain h0 es where split: "?h = h0 @ RegistrationProfileAccepted e i d p # es" by (auto simp: in_set_conv_decomp)
  moreover have "legal_history ?h" using assms(1) by (simp add: mailboxes_ok_def)
  ultimately have l: "legal_next (last_event None h0) (RegistrationProfileAccepted e i d p)"
    by (simp add: legal_history_def legal_from_append)
  then obtain em where "last_event None h0 = Some (EmailVerified em i d)"
    by (auto split: option.splits EmailReservationEvent.splits)
  then obtain h where "h0 = h @ [EmailVerified em i d]" by (cases h0 rule: rev_cases) auto
  with split l show thesis by (intro that [of h em d es]) auto
qed

lemma accepted_once:
  assumes "mailboxes_ok w" "accepted_in w e i p" "accepted_in w e i' p'"
  shows "i = i' \<and> p = p'"
proof -
  let ?h = "sy_mailboxes w (as_str e)"
  from assms(2,3) obtain d d' where "RegistrationProfileAccepted e i d p \<in> set (filter is_acceptance ?h)"
    "RegistrationProfileAccepted e i' d' p' \<in> set (filter is_acceptance ?h)" by (auto simp: accepted_in_def)
  moreover have "length (filter is_acceptance ?h) \<le> 1"
    using assms(1) by (intro acceptance_unique) (simp add: mailboxes_ok_def)
  ultimately show ?thesis by (cases "filter is_acceptance ?h") auto
qed

lemma creation_event_inj:
  "creation_event (created_account i e p t) = creation_event (created_account i' e' p' t') \<longleftrightarrow>
     i = i' \<and> e = e' \<and> p = p' \<and> t = t'"
  by (auto simp: creation_event_def created_account_def intro: RegistrationProfile.equality)

lemma followups_create:
  assumes "followups_ok uuid_fmt c w" "record_task_for c e i p ts t"
  shows "followups_ok uuid_fmt c (commit_account k [t] [creation_event (created_account i e p ts)] w)"
proof -
  let ?w' = "commit_account k [t] [creation_event (created_account i e p ts)] w"
  have "\<exists>t'\<in>set (sy_tasks w @ [t]). record_task_for c e' i' p' ts' t'" if a: "created_in uuid_fmt ?w' e' i' p' ts'" for e' i' p' ts'
  proof (cases "created_in uuid_fmt w e' i' p' ts'")
    case True
    with assms(1) have "\<exists>t'\<in>set (sy_tasks w). record_task_for c e' i' p' ts' t'" unfolding followups_ok_def by blast
    then show ?thesis by auto
  next
    case False
    with a have "i = i' \<and> e = e' \<and> p = p' \<and> ts = ts'" by (auto simp: created_in_def creation_event_inj split: if_splits)
    with assms(2) show ?thesis by simp
  qed
  moreover have "\<exists>t'\<in>set (sy_tasks w @ [t]). create_task_for c e' i' p' t'" if "accepted_in ?w' e' i' p'" for e' i' p'
  proof -
    from that have "accepted_in w e' i' p'" by (simp add: accepted_in_def)
    with assms(1) have "\<exists>t'\<in>set (sy_tasks w). create_task_for c e' i' p' t'" unfolding followups_ok_def by blast
    then show ?thesis by auto
  qed
  ultimately show ?thesis unfolding followups_ok_def commit_account_sel by blast
qed

lemma account_commit_inv:
  assumes inv: "sys_inv uuid_fmt c w" and a: "accepted_in w e i p" "profile_ok p"
    and fresh: "sy_accounts w (uuid_fmt (as_uuid i)) = []" and t: "record_task_for c e i p ts t"
  shows "sys_inv uuid_fmt c (commit_account (uuid_fmt (as_uuid i)) [t] [creation_event (created_account i e p ts)] w)"
    (is "sys_inv _ _ ?w'")
proof -
  from inv have m: "mailboxes_ok w" "accounts_ok uuid_fmt w" "\<forall>t\<in>set (sy_tasks w). task_ok uuid_fmt c w t" "completions_ok uuid_fmt w"
    "followups_ok uuid_fmt c w" by (simp_all add: sys_inv_def)
  have "mailboxes_ok ?w'" using m(1) by (simp add: mailboxes_ok_def)
  moreover have "accounts_ok uuid_fmt ?w'" unfolding accounts_ok_def
  proof (intro allI impI)
    fix k
    assume "sy_accounts ?w' k \<noteq> []"
    then show "\<exists>i e p t. sy_accounts ?w' k = [creation_event (created_account i e p t)] \<and> profile_ok p \<and>
        k = uuid_fmt (as_uuid i) \<and> accepted_in ?w' e i p"
    proof (cases "k = uuid_fmt (as_uuid i)")
      case True
      with fresh have "sy_accounts ?w' k = [creation_event (created_account i e p ts)]" by simp
      with True a show ?thesis by blast
    next
      case False
      then have "sy_accounts ?w' k = sy_accounts w k" by simp
      with m(2) \<open>sy_accounts ?w' k \<noteq> []\<close> show ?thesis unfolding accounts_ok_def by (metis accepted_in_commit(2))
    qed
  qed
  moreover have "task_ok uuid_fmt c ?w' t"
    using t by (auto simp: task_ok_def record_task_for_def created_in_def lit_def)
  then have "\<forall>t\<in>set (sy_tasks ?w'). task_ok uuid_fmt c ?w' t" using m(3) by auto
  moreover have "completions_ok uuid_fmt ?w'"
    using m(4) unfolding completions_ok_def commit_account_sel by blast
  ultimately show ?thesis using followups_create [OF m(5) t] by (simp add: sys_inv_def)
qed

text \<open>Creating an account commits the account of the task's profile, or nothing.\<close>

lemma create_outcome:
  assumes "codec_ok c" "account_executor_ok ax" "sys_inv uuid_fmt c w"
    and a: "accepted_in w (ct_email x) (ct_account_id x) (ct_profile x)"
    and "create_account c (CqrsUserAccountGateway_execute_with_outbox uuid_fmt ax) now v4 x w = (w', r)"
  obtains "w' = w"
  | t where "w' = commit_account (uuid_fmt (as_uuid (ct_account_id x))) [t]
        [creation_event (created_account (ct_account_id x) (ct_email x) (ct_profile x) now)] w"
      "record_task_for c (ct_email x) (ct_account_id x) (ct_profile x) now t"
      "sy_accounts w (uuid_fmt (as_uuid (ct_account_id x))) = []" "profile_ok (ct_profile x)"
proof -
  let ?y = "\<lparr> rt_email = ct_email x, rt_account_id = ct_account_id x, rt_profile = ct_profile x, rt_created_at = now \<rparr>"
  let ?k = "uuid_fmt (as_uuid (ct_account_id x))"
  let ?command = "create_command (ct_account_id x) (ct_email x) (ct_profile x) now"
  from record_task_built [OF assms(1), of v4 ?y] obtain v where
    t: "NewTask_new (cd_is_object c) (cd_empty c) v4 (RecordAccountCreatedTaskV1_payload c ?y) =
      Ok (published c v4 (lit ''record_account_created'') v)"
    and v: "cd_read_record c v = Some ?y" by blast
  obtain r' where call: "ax ?k ?command [published c v4 (lit ''record_account_created'') v] w = (w', r')"
    using assms(5) t
    by (auto simp: create_account_def create_command_def Let_def CqrsUserAccountGateway_execute_with_outbox_def
        UserAccountId_to_string_def split: prod.splits result.splits CommandGatewayError.splits UserAccountError.splits)
  have p: "profile_ok (ct_profile x)"
    using accepted_after_verification [OF _ a] assms(3) by (auto simp: sys_inv_def)
  from assms(2,3) call show thesis
  proof (cases rule: account_call)
    case 1
    then show ?thesis by (intro that(1))
  next
    case 2
    with p show ?thesis by (intro that(2)) (auto simp: record_task_for_def published_def v)
  qed
qed

lemma create_inv:
  assumes "codec_ok c" "account_executor_ok ax" "sys_inv uuid_fmt c w"
    and "accepted_in w (ct_email x) (ct_account_id x) (ct_profile x)"
    and "create_account c (CqrsUserAccountGateway_execute_with_outbox uuid_fmt ax) now v4 x w = (w', r)"
  shows "sys_inv uuid_fmt c w'"
  using assms
proof (cases rule: create_outcome)
  case (2 t)
  from account_commit_inv [OF assms(3,4) 2(4,3,2)] show ?thesis unfolding 2(1) .
qed (use assms(3) in simp)

lemma record_inv:
  assumes "email_executor_ok ex" "sys_inv uuid_fmt c w"
    and "created_in uuid_fmt w (rt_email x) (rt_account_id x) (rt_profile x) (rt_created_at x)"
    and "record_account_created (CqrsEmailReservationGateway_execute ex) x w = (w', r)"
  shows "sys_inv uuid_fmt c w'"
proof -
  let ?command = "RecordAccountCreated (rt_email x) (rt_account_id x) (rt_profile x) (rt_created_at x)"
  obtain r' where "ex (aggregate_id ?command) ?command [] w = (w', r')"
    using assms(4)
    by (auto simp: record_account_created_def CqrsEmailReservationGateway_execute_def
        CqrsEmailReservationGateway_execute_with_outbox_def
        split: prod.splits result.splits CommandGatewayError.splits EmailReservationError.splits)
  from assms(1,2) this show ?thesis
  proof (cases rule: email_call)
    case (2 e)
    from 2(2) have e: "e = AccountCreationCompleted (rt_email x) (rt_account_id x) (rt_created_at x)"
      by (auto simp: handle_record_account_created_def split: ReservationPhase.splits if_splits)
    with 2 assms(2,3) show ?thesis unfolding 2(1) by (intro email_commit_inv) auto
  qed (use assms(2) in simp)
qed

lemma send_inv:
  assumes "sys_inv uuid_fmt c w"
    and "SendVerificationCodeTaskHandler_handle (ConsoleVerificationCodeSender_send uuid_fmt
      (console_write written partial) (console_flush flushed)) x a w = (w', r)"
  shows "sys_inv uuid_fmt c w'"
  using assms
  by (auto simp: SendVerificationCodeTaskHandler_handle_def ConsoleVerificationCodeSender_send_def Let_def
      console_write_def console_flush_def split: if_splits bool.splits)

lemma delivery_inv:
  assumes "codec_ok c" "sys_inv uuid_fmt c w" "t \<in> set (sy_tasks w)" "email_executor_ok ex" "account_executor_ok ax"
    and "build_dispatcher c uuid_fmt (console_write written partial) (console_flush flushed) ex ax now v4 = Ok d"
    and step: "TaskDispatcher_dispatch d (attempt_of t number) w = Return (w', handled)"
  shows "sys_inv uuid_fmt c w'"
proof -
  have f: "ta_format (attempt_of t number) = nt_format t" "ta_payload (attempt_of t number) = nt_payload t"
    by (simp_all add: attempt_of_def)
  note step = step [unfolded dispatch_service [OF assms(6)] f JsonTaskAdapter_invoke_def]
  from assms(2,3) have ok: "task_ok uuid_fmt c w t" by (simp add: sys_inv_def)
  consider (send) "nt_format t = send_format" | (create) "nt_format t = create_format"
    | (completion) "nt_format t = record_format" | (other) "nt_format t \<notin> {send_format, create_format, record_format}" by blast
  then show ?thesis
  proof cases
    case send
    with step assms(2) show ?thesis by (auto split: option.splits intro: send_inv)
  next
    case create
    with ok obtain x where x: "cd_read_create c (nt_payload t) = Some x"
      "accepted_in w (ct_email x) (ct_account_id x) (ct_profile x)" by (auto simp: task_ok_def)
    with create step obtain r where
      "create_account c (CqrsUserAccountGateway_execute_with_outbox uuid_fmt ax) now v4 x w = (w', r)"
      by (auto simp: lit_def apsnd_def map_prod_def split: prod.splits)
    from create_inv [OF assms(1,5,2) x(2) this] show ?thesis .
  next
    case completion
    with ok obtain x where x: "cd_read_record c (nt_payload t) = Some x"
      "created_in uuid_fmt w (rt_email x) (rt_account_id x) (rt_profile x) (rt_created_at x)" by (auto simp: task_ok_def)
    with completion step obtain r where "record_account_created (CqrsEmailReservationGateway_execute ex) x w = (w', r)"
      by (auto simp: lit_def apsnd_def map_prod_def split: prod.splits)
    from record_inv [OF assms(4,2) x(2) this] show ?thesis .
  next
    case other
    with step assms(2) show ?thesis by simp
  qed
qed

lemma sys_step_inv:
  assumes "codec_ok c" "sys_step sha256_hex date_naive uuid_fmt c w w'" "sys_inv uuid_fmt c w"
  shows "sys_inv uuid_fmt c w'"
  using assms(2)
proof cases
  case (reserves ex generator v4 email reserved)
  from reserve_inv [OF assms(1) reserves(1) assms(3) reserves(2,3)] show ?thesis .
next
  case (requests_code ex generator v4 email requested)
  from request_code_inv [OF assms(1) requests_code(1) assms(3) requests_code(2,3)] show ?thesis .
next
  case (confirms ex generator email account_id code confirmed)
  from confirm_inv [OF confirms(1) assms(3) confirms(2)] show ?thesis .
next
  case (submits ex now v4 submission submitted)
  from submit_inv [OF assms(1) submits(1) assms(3) submits(2)] show ?thesis .
next
  case (delivers t ex ax written partial flushed now v4 d number handled)
  from delivery_inv [OF assms(1,3) delivers] show ?thesis .
qed

text \<open>What is reachable from the empty system.\<close>

abbreviation reaches where
  "reaches sha256_hex date_naive uuid_fmt c w w' \<equiv> (sys_step sha256_hex date_naive uuid_fmt c)\<^sup>*\<^sup>* w w'"

lemma reaches_inv:
  assumes "codec_ok c" "reaches sha256_hex date_naive uuid_fmt c w w'" "sys_inv uuid_fmt c w"
  shows "sys_inv uuid_fmt c w'"
  using assms(2,3) by (induction rule: rtranclp_induct) (blast intro: sys_step_inv [OF assms(1)])+

end
