(* ===== verification/Registration_Guarantees.thy ===== *)
theory Registration_Guarantees
  imports Registration
begin

text \<open>
  The guarantees of the whole registration, over the steps and the invariant of \<open>Registration\<close>:
  accounts come only from verified mailboxes and are never doubled, an accepted profile can always
  be brought to its account, published tasks are never rejected, and a retried command takes effect
  once.

  The executors that never fail (\<open>reliable\<close>) serve the claims that something can happen; the claims
  that something never happens hold for every executor with the contract \<open>executes\<close>.
\<close>

section \<open>Executors that do not fail\<close>

text \<open>The executor whose storage never fails: it replays, decides and commits.\<close>

definition reliable ::
  "('s \<Rightarrow> 'c \<Rightarrow> ('e list, 'd) result run) \<Rightarrow> ('s \<Rightarrow> 'e \<Rightarrow> 's run) \<Rightarrow> 's \<Rightarrow> ('w \<Rightarrow> 'e list)
     \<Rightarrow> ('e list \<Rightarrow> 'w \<Rightarrow> 'w) \<Rightarrow> 'c \<Rightarrow> 'w \<Rightarrow> 'w \<times> (unit, 'd CommandGatewayError) result" where
  "reliable handle app initial events_of commit command w =
     (case replay app initial (events_of w) of Panic \<Rightarrow> (w, Err CommandGatewayError.Unavailable)
      | Return s \<Rightarrow> (case handle s command of Panic \<Rightarrow> (w, Err CommandGatewayError.Unavailable)
          | Return (Err d) \<Rightarrow> (w, Err (CommandGatewayError.Domain d))
          | Return (Ok evs) \<Rightarrow> (commit evs w, Ok ())))"

lemma reliable_executes:
  "executes handle app initial events_of commit command w (fst (reliable handle app initial events_of commit command w))
     (snd (reliable handle app initial events_of commit command w))"
  by (auto simp: reliable_def intro: executes.intros split: run.splits result.splits)

definition reliable_email :: "'v email_executor" where
  "reliable_email k command tasks = reliable EmailReservation_handle EmailReservation_apply EmailReservation_default
     (\<lambda>w. sy_mailboxes w k) (commit_mailbox k tasks) command"

definition reliable_account :: "'v account_executor" where
  "reliable_account k command tasks = reliable UserAccount_handle UserAccount_apply UserAccount_default
     (\<lambda>w. sy_accounts w k) (commit_account k tasks) command"

lemma reliable_ok: "email_executor_ok reliable_email" "account_executor_ok reliable_account"
  by (simp_all add: email_executor_ok_def account_executor_ok_def reliable_email_def reliable_account_def reliable_executes)

section \<open>Accepted registrations can be completed\<close>

lemma created_singleton:
  assumes "sys_inv uuid_fmt c w" "created_in uuid_fmt w e i p t"
  shows "sy_accounts w (uuid_fmt (as_uuid i)) = [creation_event (created_account i e p t)]" "accepted_in w e i p"
proof -
  let ?k = "uuid_fmt (as_uuid i)"
  from assms(2) have "sy_accounts w ?k \<noteq> []" by (auto simp: created_in_def)
  with assms(1) obtain i' e' p' t' where "sy_accounts w ?k = [creation_event (created_account i' e' p' t')]" "accepted_in w e' i' p'"
    unfolding sys_inv_def accounts_ok_def by blast
  with assms(2) show "sy_accounts w ?k = [creation_event (created_account i e p t)]" "accepted_in w e i p"
    by (auto simp: created_in_def creation_event_inj)
qed

lemma completed_created:
  assumes "sys_inv uuid_fmt c w" "AccountCreationCompleted e i t \<in> set (sy_mailboxes w (as_str e))"
  obtains p where "created_in uuid_fmt w e i p t"
proof -
  from assms have "completions_ok uuid_fmt w" "AccountCreationCompleted (Email (as_str e)) i t \<in> set (sy_mailboxes w (as_str e))"
    by (simp_all add: sys_inv_def)
  then have "\<exists>p. created_in uuid_fmt w (Email (as_str e)) i p t" unfolding completions_ok_def by blast
  with that show thesis by auto
qed

lemma accepted_phase:
  assumes inv: "sys_inv uuid_fmt c w" and k: "created_in uuid_fmt w e i p ts"
  obtains dg where "phase_after (rev (sy_mailboxes w (as_str e))) = CreatingAccount i dg p"
  | dg where "phase_after (rev (sy_mailboxes w (as_str e))) = ReservationPhase.AccountCreated i dg p ts"
    "AccountCreationCompleted e i ts \<in> set (sy_mailboxes w (as_str e))"
proof -
  let ?h = "sy_mailboxes w (as_str e)"
  from inv have h: "legal_history ?h" "\<forall>y\<in>set ?h. event_email y = Email (as_str e)" by (simp_all add: sys_inv_defs)
  from created_singleton(2) [OF inv k] obtain dg where "RegistrationProfileAccepted e i dg p \<in> set ?h"
    by (auto simp: accepted_in_def)
  with h(1) show thesis
  proof (cases rule: acceptance_split)
    case (2 h0 em' t)
    with h(2) have "em' = e" by simp
    with 2 have t: "AccountCreationCompleted e i t \<in> set ?h" by simp
    from completed_created [OF inv t] obtain p' where "created_in uuid_fmt w e i p' t" .
    from created_singleton(1) [OF inv this] created_singleton(1) [OF inv k] have "t = ts" by (simp add: creation_event_inj)
    with 2 t that(2) show thesis by simp
  qed (use that(1) in simp)
qed

lemma deliver_create:
  assumes "codec_ok c" "sys_inv uuid_fmt c w" and a: "accepted_in w e i p"
    and fresh: "sy_accounts w (uuid_fmt (as_uuid i)) = []"
  shows "\<exists>w'. sys_step sha256_hex date_naive uuid_fmt c w w' \<and> created_in uuid_fmt w' e i p now \<and>
    sy_mailboxes w' = sy_mailboxes w"
proof -
  let ?x = "\<lparr> ct_email = e, ct_account_id = i, ct_profile = p \<rparr>"
  let ?ev = "creation_event (created_account i e p now)"
  from assms(2) a obtain t where t: "t \<in> set (sy_tasks w)" "create_task_for c e i p t"
    unfolding sys_inv_def followups_ok_def by blast
  from dispatcher_built obtain d where
    d: "build_dispatcher c uuid_fmt (console_write True []) (console_flush True) reliable_email reliable_account now 0 = Ok d" by blast
  from record_task_built [OF assms(1), of 0 "\<lparr> rt_email = e, rt_account_id = i, rt_profile = p, rt_created_at = now \<rparr>"] obtain v where
    v: "NewTask_new (cd_is_object c) (cd_empty c) 0 (RecordAccountCreatedTaskV1_payload c
      \<lparr> rt_email = e, rt_account_id = i, rt_profile = p, rt_created_at = now \<rparr>) = Ok (published c 0 (lit ''record_account_created'') v)" by blast
  let ?w' = "commit_account (uuid_fmt (as_uuid i)) [published c 0 (lit ''record_account_created'') v] [?ev] w"
  have p: "profile_ok p" using accepted_after_verification [OF _ a] assms(2) by (auto simp: sys_inv_def)
  with create_fresh [of UserAccount_default i e p now]
  have h: "UserAccount_handle UserAccount_default (create_command i e p now) = Return (Ok [?ev])"
    by (simp add: UserAccount_default_def)
  have "create_account c (CqrsUserAccountGateway_execute_with_outbox uuid_fmt reliable_account) now 0 ?x w = (?w', Ok ())"
    using h [unfolded create_command_def] fresh
    by (simp add: create_account_def v CqrsUserAccountGateway_execute_with_outbox_def UserAccountId_to_string_def
        reliable_account_def reliable_def del: UserAccount_handle.simps)
  then have "TaskDispatcher_dispatch d (attempt_of t 1) w = Return (?w', Ok ())"
    using t(2) by (simp add: dispatch_service [OF d] JsonTaskAdapter_invoke_def create_task_for_def attempt_of_def lit_def)
  with sys_step.delivers [OF t(1) reliable_ok d] have "sys_step sha256_hex date_naive uuid_fmt c w ?w'" by blast
  then show ?thesis by (auto simp: created_in_def)
qed

lemma deliver_record:
  assumes "codec_ok c" "sys_inv uuid_fmt c w" and k: "created_in uuid_fmt w e i p ts"
    and unfinished: "AccountCreationCompleted e i ts \<notin> set (sy_mailboxes w (as_str e))"
  shows "\<exists>w'. sys_step sha256_hex date_naive uuid_fmt c w w' \<and> created_in uuid_fmt w' e i p ts \<and>
    AccountCreationCompleted e i ts \<in> set (sy_mailboxes w' (as_str e))"
proof -
  let ?h = "sy_mailboxes w (as_str e)"
  let ?x = "\<lparr> rt_email = e, rt_account_id = i, rt_profile = p, rt_created_at = ts \<rparr>"
  from assms(2) k obtain t where t: "t \<in> set (sy_tasks w)" "record_task_for c e i p ts t"
    unfolding sys_inv_def followups_ok_def by blast
  from dispatcher_built obtain d where
    d: "build_dispatcher c uuid_fmt (console_write True []) (console_flush True) reliable_email reliable_account 0 0 = Ok d" by blast
  let ?w' = "commit_mailbox (as_str e) [] [AccountCreationCompleted e i ts] w"
  from assms(2) have h: "legal_history ?h" by (simp add: sys_inv_defs)
  from accepted_phase [OF assms(2) k] unfinished obtain dg where "phase_after (rev ?h) = CreatingAccount i dg p" by metis
  with legal_replay [OF h]
  have "record_account_created (CqrsEmailReservationGateway_execute reliable_email) ?x w = (?w', Ok ())"
    by (simp add: record_account_created_def CqrsEmailReservationGateway_execute_def Email_to_string_def
        CqrsEmailReservationGateway_execute_with_outbox_def reliable_email_def reliable_def handle_record_account_created_def)
  then have "TaskDispatcher_dispatch d (attempt_of t 1) w = Return (?w', Ok ())"
    using t(2) by (simp add: dispatch_service [OF d] JsonTaskAdapter_invoke_def record_task_for_def attempt_of_def lit_def)
  with sys_step.delivers [OF t(1) reliable_ok d] have "sys_step sha256_hex date_naive uuid_fmt c w ?w'" by blast
  with k show ?thesis by (auto simp: created_in_def)
qed

lemma account_origin:
  assumes inv: "sys_inv uuid_fmt c w" and k: "sy_accounts w k \<noteq> []"
  shows "\<exists>i e p t h d es. sy_accounts w k = [creation_event (created_account i e p t)] \<and> k = uuid_fmt (as_uuid i) \<and>
    profile_ok p \<and> sy_mailboxes w (as_str e) = h @ EmailVerified e i d # RegistrationProfileAccepted e i d p # es"
proof -
  from inv have m: "mailboxes_ok w" "accounts_ok uuid_fmt w" by (simp_all add: sys_inv_def)
  from m(2) k obtain i e p t where a: "sy_accounts w k = [creation_event (created_account i e p t)]"
    "k = uuid_fmt (as_uuid i)" "accepted_in w e i p" unfolding accounts_ok_def by blast
  from accepted_after_verification [OF m(1) a(3)] obtain h em d es where
    h: "sy_mailboxes w (as_str e) = h @ EmailVerified em i d # RegistrationProfileAccepted e i d p # es" "profile_ok p" by blast
  have "EmailVerified em i d \<in> set (sy_mailboxes w (as_str e))" by (simp add: h(1))
  with m(1) have "event_email (EmailVerified em i d) = Email (as_str e)" unfolding mailboxes_ok_def by blast
  then have "em = e" by simp
  with a(1,2) h show ?thesis by blast
qed

lemma existing_account:
  assumes "inj uuid_fmt" "sys_inv uuid_fmt c w" "accepted_in w e i p" and only: "\<forall>e' p'. accepted_in w e' i p' \<longrightarrow> e' = e"
    and "sy_accounts w (uuid_fmt (as_uuid i)) \<noteq> []"
  obtains t where "sy_accounts w (uuid_fmt (as_uuid i)) = [creation_event (created_account i e p t)]"
proof -
  from assms(2,5) obtain i' e' p' t where k: "sy_accounts w (uuid_fmt (as_uuid i)) = [creation_event (created_account i' e' p' t)]"
    "uuid_fmt (as_uuid i) = uuid_fmt (as_uuid i')" "accepted_in w e' i' p'"
    unfolding sys_inv_def accounts_ok_def by blast
  then have i: "i' = i" using assms(1) by (simp add: inj_eq UserAccountId.expand)
  with k(3) only have "e' = e" by blast
  with i k(3) assms(2,3) have "p' = p" using accepted_once [of w e i p' i p] by (simp add: sys_inv_def)
  with i \<open>e' = e\<close> k(1) that show thesis by simp
qed

lemma can_complete:
  assumes "codec_ok c" "inj uuid_fmt" and inv: "sys_inv uuid_fmt c w" and a: "accepted_in w e i p"
    and only: "\<And>e' p'. accepted_in w e' i p' \<Longrightarrow> e' = e"
  shows "\<exists>w' ts. reaches sha256_hex date_naive uuid_fmt c w w' \<and> created_in uuid_fmt w' e i p ts \<and>
    AccountCreationCompleted e i ts \<in> set (sy_mailboxes w' (as_str e))"
proof -
  have finish: "\<exists>w' ts. reaches sha256_hex date_naive uuid_fmt c w1 w' \<and> created_in uuid_fmt w' e i p ts \<and>
      AccountCreationCompleted e i ts \<in> set (sy_mailboxes w' (as_str e))"
    if "sys_inv uuid_fmt c w1" "created_in uuid_fmt w1 e i p ts" for w1 ts
    using deliver_record [OF assms(1) that, of sha256_hex date_naive] that(2) by blast
  show ?thesis
  proof (cases "sy_accounts w (uuid_fmt (as_uuid i)) = []")
    case True
    from deliver_create [OF assms(1) inv a True, of sha256_hex date_naive 0] obtain w1 where
      w1: "sys_step sha256_hex date_naive uuid_fmt c w w1" "created_in uuid_fmt w1 e i p 0" "sy_mailboxes w1 = sy_mailboxes w" by blast
    from finish [OF sys_step_inv [OF assms(1) w1(1) inv] w1(2)] w1(1) show ?thesis
      by (meson converse_rtranclp_into_rtranclp)
  next
    case False
    have "\<forall>e' p'. accepted_in w e' i p' \<longrightarrow> e' = e" using only by blast
    then obtain t where "sy_accounts w (uuid_fmt (as_uuid i)) = [creation_event (created_account i e p t)]"
      by (rule existing_account [OF assms(2) inv a _ False])
    then have "created_in uuid_fmt w e i p t" by (simp add: created_in_def)
    from finish [OF inv this] show ?thesis .
  qed
qed

section \<open>Published tasks are never rejected\<close>

definition ids_unique :: "'v system \<Rightarrow> bool" where
  "ids_unique w \<longleftrightarrow> (\<forall>e e' i p p'. accepted_in w e i p \<longrightarrow> accepted_in w e' i p' \<longrightarrow> e = e')"

lemma create_not_permanent:
  assumes "codec_ok c" "inj uuid_fmt" "account_executor_ok ax" "sys_inv uuid_fmt c w" "ids_unique w"
    and a: "accepted_in w (ct_email x) (ct_account_id x) (ct_profile x)"
    and "create_account c (CqrsUserAccountGateway_execute_with_outbox uuid_fmt ax) now v4 x w = (w', r)"
  shows "r \<noteq> Err Permanent"
proof -
  let ?k = "uuid_fmt (as_uuid (ct_account_id x))"
  let ?command = "create_command (ct_account_id x) (ct_email x) (ct_profile x) now"
  let ?y = "\<lparr> rt_email = ct_email x, rt_account_id = ct_account_id x, rt_profile = ct_profile x, rt_created_at = now \<rparr>"
  from record_task_built [OF assms(1), of v4 ?y] obtain v where
    t: "NewTask_new (cd_is_object c) (cd_empty c) v4 (RecordAccountCreatedTaskV1_payload c ?y) =
      Ok (published c v4 (lit ''record_account_created'') v)" by blast
  obtain r' where call: "ax ?k ?command [published c v4 (lit ''record_account_created'') v] w = (w', r')"
    and r: "r = Err Permanent \<Longrightarrow> \<exists>d. r' = Err (CommandGatewayError.Domain d) \<and> d \<noteq> AlreadyCreated"
    using assms(7) t
    by (auto simp: create_account_def create_command_def Let_def CqrsUserAccountGateway_execute_with_outbox_def
        UserAccountId_to_string_def split: prod.splits result.splits CommandGatewayError.splits UserAccountError.splits)
  from assms(3) call have ex: "executes UserAccount_handle UserAccount_apply UserAccount_default
      (\<lambda>w. sy_accounts w ?k) (commit_account ?k [published c v4 (lit ''record_account_created'') v]) ?command w w' r'"
    unfolding account_executor_ok_def by (metis fst_conv snd_conv)
  have p: "profile_ok (ct_profile x)" using accepted_after_verification [OF _ a] assms(4) by (auto simp: sys_inv_def)
  have "d = AlreadyCreated" if "r' = Err (CommandGatewayError.Domain d)" for d
  proof -
    from ex that obtain s where s: "replay UserAccount_apply UserAccount_default (sy_accounts w ?k) = Return s"
      "UserAccount_handle s ?command = Return (Err d)" by cases auto
    show ?thesis
    proof (cases "sy_accounts w ?k = []")
      case True
      with s(1) have "created s = None" by (auto simp: UserAccount_default_def)
      from create_fresh [OF this, of "ct_account_id x" "ct_email x" "ct_profile x" now
          "[creation_event (created_account (ct_account_id x) (ct_email x) (ct_profile x) now)]"] p s(2) show ?thesis by simp
    next
      case False
      have "\<forall>e' p'. accepted_in w e' (ct_account_id x) p' \<longrightarrow> e' = ct_email x" using assms(5) a unfolding ids_unique_def by blast
      from existing_account [OF assms(2,4) a this False] obtain ts where
        "sy_accounts w ?k = [creation_event (created_account (ct_account_id x) (ct_email x) (ct_profile x) ts)]" .
      with s(1) have "created s = Some (created_account (ct_account_id x) (ct_email x) (ct_profile x) ts)"
        by (auto simp: UserAccount_default_def)
      from create_existing [OF this] s(2) p show ?thesis by simp
    qed
  qed
  with r show ?thesis by blast
qed

lemma record_not_permanent:
  assumes "email_executor_ok ex" "sys_inv uuid_fmt c w"
    and k: "created_in uuid_fmt w (rt_email x) (rt_account_id x) (rt_profile x) (rt_created_at x)"
    and "record_account_created (CqrsEmailReservationGateway_execute ex) x w = (w', r)"
  shows "r \<noteq> Err Permanent"
proof -
  let ?e = "rt_email x" and ?i = "rt_account_id x" and ?p = "rt_profile x"
  let ?h = "sy_mailboxes w (as_str ?e)"
  let ?command = "RecordAccountCreated ?e ?i ?p (rt_created_at x)"
  obtain r' where call: "ex (aggregate_id ?command) ?command [] w = (w', r')"
    and r: "r = Err Permanent \<Longrightarrow> \<exists>d. r' = Err (CommandGatewayError.Domain d) \<and> d \<noteq> AccountCreationAlreadyCompleted"
    using assms(4)
    by (auto simp: record_account_created_def CqrsEmailReservationGateway_execute_def
        CqrsEmailReservationGateway_execute_with_outbox_def
        split: prod.splits result.splits CommandGatewayError.splits EmailReservationError.splits)
  obtain dg where "phase_after (rev ?h) = CreatingAccount ?i dg ?p \<or> phase_after (rev ?h) = ReservationPhase.AccountCreated ?i dg ?p (rt_created_at x)"
    using accepted_phase [OF assms(2) k] by metis
  then have d: "d = AccountCreationAlreadyCompleted"
    if "EmailReservation_handle \<lparr>phase = phase_after (rev ?h)\<rparr> ?command = Return (Err d)" for d
    using that by (auto simp: handle_record_account_created_def split: if_splits)
  from assms(1,2) call have "d = AccountCreationAlreadyCompleted" if "r' = Err (CommandGatewayError.Domain d)" for d
    by (cases rule: email_call_outcome) (use that d in \<open>auto simp: Email_to_string_def\<close>)
  with r show ?thesis by blast
qed

lemma delivery_error_Permanent:
  "map_err delivery_error r = Err (TaskHandlerError.Permanent reason) \<Longrightarrow> r = Err Permanent"
  by (cases r) (auto elim: delivery_error.elims)

section \<open>What a completed task has done\<close>

text \<open>
  The effect of a task: the line on the console, the account of the profile, or the completion of the
  reservation.
\<close>

definition task_done :: "(Uuid \<Rightarrow> rstring) \<Rightarrow> 'v codec \<Rightarrow> 'v system \<Rightarrow> 'v NewTask \<Rightarrow> bool" where
  "task_done uuid_fmt c w t \<longleftrightarrow>
     (nt_format t = send_format \<longrightarrow> (\<exists>x n pre post. cd_read_send c (nt_payload t) = Some x \<and>
        sy_console w = pre @ console_line uuid_fmt (VerificationCodeDelivery_from x) (attempt_of t n) @ post)) \<and>
     (nt_format t = create_format \<longrightarrow> (\<exists>x ts. cd_read_create c (nt_payload t) = Some x \<and>
        created_in uuid_fmt w (ct_email x) (ct_account_id x) (ct_profile x) ts)) \<and>
     (nt_format t = record_format \<longrightarrow> (\<exists>x. cd_read_record c (nt_payload t) = Some x \<and>
        AccountCreationCompleted (rt_email x) (rt_account_id x) (rt_created_at x) \<in> set (sy_mailboxes w (as_str (rt_email x)))))"

lemma create_done:
  assumes "codec_ok c" "account_executor_ok ax" "sys_inv uuid_fmt c w"
    and a: "accepted_in w (ct_email x) (ct_account_id x) (ct_profile x)"
    and "create_account c (CqrsUserAccountGateway_execute_with_outbox uuid_fmt ax) now v4 x w = (w', Ok ())"
  shows "\<exists>ts. created_in uuid_fmt w' (ct_email x) (ct_account_id x) (ct_profile x) ts"
proof -
  let ?k = "uuid_fmt (as_uuid (ct_account_id x))"
  let ?command = "create_command (ct_account_id x) (ct_email x) (ct_profile x) now"
  let ?y = "\<lparr> rt_email = ct_email x, rt_account_id = ct_account_id x, rt_profile = ct_profile x, rt_created_at = now \<rparr>"
  from record_task_built [OF assms(1), of v4 ?y] obtain v where
    t: "NewTask_new (cd_is_object c) (cd_empty c) v4 (RecordAccountCreatedTaskV1_payload c ?y) =
      Ok (published c v4 (lit ''record_account_created'') v)" by blast
  obtain r where call: "ax ?k ?command [published c v4 (lit ''record_account_created'') v] w = (w', r)"
    and r: "r = Ok () \<or> r = Err (CommandGatewayError.Domain AlreadyCreated)"
    using assms(5) t
    by (auto simp: create_account_def create_command_def Let_def CqrsUserAccountGateway_execute_with_outbox_def
        UserAccountId_to_string_def split: prod.splits result.splits CommandGatewayError.splits UserAccountError.splits)
  from assms(3) have "mailboxes_ok w" by (simp add: sys_inv_def)
  from accepted_after_verification [OF this a] have p: "profile_ok (ct_profile x)" by blast
  from r show ?thesis
  proof
    assume "r = Ok ()"
    from assms(2,3) call show ?thesis
      by (cases rule: account_call) (use \<open>r = Ok ()\<close> p in \<open>auto simp: created_in_def\<close>)
  next
    assume rej: "r = Err (CommandGatewayError.Domain AlreadyCreated)"
    from assms(2) call have ex: "executes UserAccount_handle UserAccount_apply UserAccount_default (\<lambda>w. sy_accounts w ?k)
        (commit_account ?k [published c v4 (lit ''record_account_created'') v]) ?command w w' r"
      unfolding account_executor_ok_def by (metis fst_conv snd_conv)
    from ex rej obtain s where s: "replay UserAccount_apply UserAccount_default (sy_accounts w ?k) = Return s"
      "UserAccount_handle s ?command = Return (Err AlreadyCreated)" "w' = w" by cases auto
    have "sy_accounts w ?k \<noteq> []"
    proof
      assume "sy_accounts w ?k = []"
      with s(1) have "created s = None" by (auto simp: UserAccount_default_def)
      with s(2) show False by (auto simp: create_command_def handle_create_account_def Let_def split: if_splits)
    qed
    then obtain i e p ts where k: "sy_accounts w ?k = [creation_event (created_account i e p ts)]" "profile_ok p"
      using assms(3) unfolding sys_inv_def accounts_ok_def by blast
    with s(1) have "created s = Some (created_account i e p ts)" by (auto simp: UserAccount_default_def)
    from create_existing [OF this, of "ct_account_id x" "ct_email x" "ct_profile x" now] s(2)
    have "i = ct_account_id x" "e = ct_email x" "p = normalize_profile (ct_profile x)" by (auto split: if_splits)
    with p k(1) s(3) show ?thesis by (auto simp: created_in_def)
  qed
qed

lemma record_done:
  assumes "email_executor_ok ex" "sys_inv uuid_fmt c w"
    and "record_account_created (CqrsEmailReservationGateway_execute ex) x w = (w', Ok ())"
  shows "AccountCreationCompleted (rt_email x) (rt_account_id x) (rt_created_at x) \<in> set (sy_mailboxes w' (as_str (rt_email x)))"
proof -
  let ?h = "sy_mailboxes w (as_str (rt_email x))"
  let ?command = "RecordAccountCreated (rt_email x) (rt_account_id x) (rt_profile x) (rt_created_at x)"
  obtain r where call: "ex (aggregate_id ?command) ?command [] w = (w', r)"
    and r: "r = Ok () \<or> r = Err (CommandGatewayError.Domain AccountCreationAlreadyCompleted)"
    using assms(3)
    by (auto simp: record_account_created_def CqrsEmailReservationGateway_execute_def
        CqrsEmailReservationGateway_execute_with_outbox_def
        split: prod.splits result.splits CommandGatewayError.splits EmailReservationError.splits)
  from assms(1,2) call show ?thesis
  proof (cases rule: email_call_outcome)
    case (committed e)
    then have "e = AccountCreationCompleted (rt_email x) (rt_account_id x) (rt_created_at x)"
      by (auto simp: handle_record_account_created_def split: ReservationPhase.splits if_splits)
    with committed(2) show ?thesis by (simp add: Email_to_string_def)
  next
    case (rejected d)
    with r have d: "d = AccountCreationAlreadyCompleted" by auto
    from assms(2) have h: "legal_history ?h" "\<forall>y\<in>set ?h. event_email y = Email (as_str (rt_email x))" by (simp_all add: sys_inv_defs)
    from rejected(3) d obtain dg where "phase_after (rev ?h) = ReservationPhase.AccountCreated (rt_account_id x) dg (rt_profile x) (rt_created_at x)"
      by (auto simp: handle_record_account_created_def Email_to_string_def split: ReservationPhase.splits if_splits)
    with legal_phase [OF h(1)] obtain h' em' em where
      "?h = h' @ [RegistrationProfileAccepted em' (rt_account_id x) dg (rt_profile x),
        AccountCreationCompleted em (rt_account_id x) (rt_created_at x)]" by auto
    then have "AccountCreationCompleted em (rt_account_id x) (rt_created_at x) \<in> set ?h" by simp
    moreover with h(2) have "em = rt_email x" by fastforce
    ultimately show ?thesis using rejected(2) by simp
  qed (use r in auto)
qed

lemma send_done:
  assumes "SendVerificationCodeTaskHandler_handle (ConsoleVerificationCodeSender_send uuid_fmt
      (console_write written partial) (console_flush flushed)) x a w = (w', Ok ())"
  shows "sy_console w' = sy_console w @ console_line uuid_fmt (VerificationCodeDelivery_from x) a"
  using assms
  by (auto simp: SendVerificationCodeTaskHandler_handle_def ConsoleVerificationCodeSender_send_def Let_def
      console_write_def console_flush_def split: if_splits bool.splits)

lemma delivered_done:
  assumes "codec_ok c" "sys_inv uuid_fmt c w" "t \<in> set (sy_tasks w)" "email_executor_ok ex" "account_executor_ok ax"
    and "build_dispatcher c uuid_fmt (console_write written partial) (console_flush flushed) ex ax now v4 = Ok d"
    and step: "TaskDispatcher_dispatch d (attempt_of t number) w = Return (w', Ok ())"
  shows "task_done uuid_fmt c w' t"
proof -
  have f: "ta_format (attempt_of t number) = nt_format t" "ta_payload (attempt_of t number) = nt_payload t"
    by (simp_all add: attempt_of_def)
  note step = step [unfolded dispatch_service [OF assms(6)] f JsonTaskAdapter_invoke_def]
  from assms(2,3) have ok: "task_ok uuid_fmt c w t" by (simp add: sys_inv_def)
  then consider (send) "nt_format t = send_format" | (create) "nt_format t = create_format"
    | (completion) "nt_format t = record_format" by (auto simp: task_ok_def)
  then show ?thesis
  proof cases
    case send
    with ok obtain x where x: "cd_read_send c (nt_payload t) = Some x" by (auto simp: task_ok_def)
    with send step have "sy_console w' = sy_console w @ console_line uuid_fmt (VerificationCodeDelivery_from x) (attempt_of t number)"
      by (auto dest!: send_done)
    then have "\<exists>n pre post. sy_console w' = pre @ console_line uuid_fmt (VerificationCodeDelivery_from x) (attempt_of t n) @ post"
      by (intro exI [of _ number] exI [of _ "sy_console w"] exI [of _ "[]"]) simp
    with send x show ?thesis by (simp add: task_done_def lit_def)
  next
    case create
    with ok obtain x where x: "cd_read_create c (nt_payload t) = Some x"
      "accepted_in w (ct_email x) (ct_account_id x) (ct_profile x)" by (auto simp: task_ok_def)
    with create step obtain r where "create_account c (CqrsUserAccountGateway_execute_with_outbox uuid_fmt ax) now v4 x w = (w', r)"
      "map_err delivery_error r = Ok ()" by (auto simp: lit_def apsnd_def map_prod_def split: prod.splits)
    with create_done [OF assms(1,5,2) x(2)] x(1) create show ?thesis by (simp add: task_done_def lit_def)
  next
    case completion
    with ok obtain x where x: "cd_read_record c (nt_payload t) = Some x" by (auto simp: task_ok_def)
    with completion step obtain r where "record_account_created (CqrsEmailReservationGateway_execute ex) x w = (w', r)"
      "map_err delivery_error r = Ok ()" by (auto simp: lit_def apsnd_def map_prod_def split: prod.splits)
    with record_done [OF assms(4,2)] x completion show ?thesis by (simp add: task_done_def lit_def)
  qed
qed

section \<open>The retrying executor meets the contract\<close>

text \<open>
  One attempt of the framework: it loads and replays the stream, and the repository commits the
  events with the tasks of the call, or nothing. A technical error leaves the outcome open.
\<close>

inductive attempts ::
  "('s \<Rightarrow> 'c \<Rightarrow> ('e list, 'd) result run) \<Rightarrow> ('s \<Rightarrow> 'e \<Rightarrow> 's run) \<Rightarrow> 's \<Rightarrow> ('w \<Rightarrow> 'e list)
     \<Rightarrow> ('e list \<Rightarrow> 'w \<Rightarrow> 'w) \<Rightarrow> 'c \<Rightarrow> 'w \<Rightarrow> 'w \<Rightarrow> (unit, 'd AggregateError) result \<Rightarrow> bool"
  for handle app initial events_of commit command where
  written: "replay app initial (events_of w) = Return s \<Longrightarrow> handle s command = Return (Ok evs) \<Longrightarrow>
     attempts handle app initial events_of commit command w (commit evs w) (Ok ())"
| maybe_written: "replay app initial (events_of w) = Return s \<Longrightarrow> handle s command = Return (Ok evs) \<Longrightarrow>
     map_aggregate_error e = CommandGatewayError.Unavailable \<Longrightarrow>
     attempts handle app initial events_of commit command w (commit evs w) (Err e)"
| refused: "replay app initial (events_of w) = Return s \<Longrightarrow> handle s command = Return (Err d) \<Longrightarrow>
     attempts handle app initial events_of commit command w w (Err (UserError d))"
| not_written: "(\<And>d. e \<noteq> UserError d) \<Longrightarrow> attempts handle app initial events_of commit command w w (Err e)"

lemma attempts_executes:
  assumes "attempts handle app initial events_of commit command w w' r"
  shows "executes handle app initial events_of commit command w w' (map_err map_aggregate_error r)"
  using assms
proof cases
  case (not_written e)
  then show ?thesis by (cases e) (auto intro: executes.intros)
qed (auto intro: executes.intros)

lemma attempts_conflict:
  assumes "attempts handle app initial events_of commit command w w' (Err AggregateConflict)"
  shows "w' = w"
  using assms by cases auto

text \<open>
  An operation that lets others act before it takes effect, and leaves nothing behind when it
  reports a conflict, as long as \<open>ok\<close> holds, which others keep. The retry of such an operation
  comes to one of its effects.
\<close>

lemma retry_from_once:
  assumes op: "\<And>w w' r. ok w \<Longrightarrow> operation w = Return (w', r) \<Longrightarrow> \<exists>w0. R\<^sup>*\<^sup>* w w0 \<and> Q w0 w' r"
    and conflict: "\<And>w w'. ok w \<Longrightarrow> Q w w' (Err AggregateConflict) \<Longrightarrow> w' = w"
    and sleep: "\<And>d w. R\<^sup>*\<^sup>* w (sleep d w)" and ok: "\<And>w w'. R\<^sup>*\<^sup>* w w' \<Longrightarrow> ok w \<Longrightarrow> ok w'"
    and "ok w" "retry_from backoff sleep operation max_attempts att remaining w = Return (w', r, ds)"
  shows "\<exists>w0. R\<^sup>*\<^sup>* w w0 \<and> Q w0 w' r"
  using assms(5,6)
proof (induction remaining arbitrary: att w ds)
  case (Suc remaining)
  from Suc.prems(2) obtain w1 r1 where o1: "operation w = Return (w1, r1)" by (cases "operation w") auto
  from op [OF Suc.prems(1) o1] obtain w0 where w0: "R\<^sup>*\<^sup>* w w0" "Q w0 w1 r1" by blast
  show ?case
  proof (cases "r1 = Err AggregateConflict \<and> att < max_attempts")
    case True
    with o1 Suc.prems(2) obtain d ds' where
      "retry_from backoff sleep operation max_attempts (Suc att) remaining (sleep d w1) = Return (w', r, ds')"
      by auto
    moreover from True conflict [OF ok [OF w0(1) Suc.prems(1)]] w0(2) have "w1 = w0" by simp
    moreover from this rtranclp_trans [OF w0(1) sleep] have "R\<^sup>*\<^sup>* w (sleep d w1)" by simp
    ultimately show ?thesis using Suc.IH [OF ok [OF _ Suc.prems(1)]] by (meson rtranclp_trans)
  next
    case False
    with o1 Suc.prems(2) have "w' = w1" "r = r1" by auto
    with w0 show ?thesis by blast
  qed
qed simp

lemma executor_once:
  assumes "\<And>w w' r. ok w \<Longrightarrow> fw_execute (build_framework tasks) k command w = Return (w', r) \<Longrightarrow> \<exists>w0. R\<^sup>*\<^sup>* w w0 \<and> Q w0 w' r"
    and "\<And>w w'. ok w \<Longrightarrow> Q w w' (Err AggregateConflict) \<Longrightarrow> w' = w" and "\<And>d w. R\<^sup>*\<^sup>* w (sleep d w)"
    and "\<And>w w'. R\<^sup>*\<^sup>* w w' \<Longrightarrow> ok w \<Longrightarrow> ok w'" and "ok w"
    and "CqrsCommandExecutor_execute build_framework fw_execute backoff sleep max_attempts k command tasks w = Return (w', r)"
  shows "\<exists>w0 r'. R\<^sup>*\<^sup>* w w0 \<and> Q w0 w' r' \<and> r = map_err map_aggregate_error r'"
proof -
  from assms(6) obtain r' ds where r: "retry_from backoff sleep (fw_execute (build_framework tasks) k command) max_attempts 1
      max_attempts w = Return (w', r', ds)" "r = map_err map_aggregate_error r'"
    by (auto simp: CqrsCommandExecutor_execute_def retry_on_aggregate_conflict_def Let_def)
  have "\<exists>w0. R\<^sup>*\<^sup>* w w0 \<and> Q w0 w' r'"
    by (rule retry_from_once [where ok = ok and Q = Q, OF _ _ assms(3) _ assms(5) r(1)]) (fact assms)+
  with r(2) show ?thesis by blast
qed

section \<open>A registration, for the witnesses\<close>

datatype demo_value = EmptyObject | SendValue SendVerificationCodeTaskV1 | CreateValue CreateAccountTaskV1
  | RecordValue RecordAccountCreatedTaskV1

definition demo_codec :: "demo_value codec" where
  "demo_codec = \<lparr> cd_is_object = (\<lambda>_. True), cd_empty = EmptyObject,
     cd_send = (\<lambda>x. Some (SendValue x)), cd_create = (\<lambda>x. Some (CreateValue x)), cd_record = (\<lambda>x. Some (RecordValue x)),
     cd_read_send = (\<lambda>v. case v of SendValue x \<Rightarrow> Some x | _ \<Rightarrow> None),
     cd_read_create = (\<lambda>v. case v of CreateValue x \<Rightarrow> Some x | _ \<Rightarrow> None),
     cd_read_record = (\<lambda>v. case v of RecordValue x \<Rightarrow> Some x | _ \<Rightarrow> None) \<rparr>"

lemma demo_codec_ok: "codec_ok demo_codec"
  by (simp add: codec_ok_def demo_codec_def)

definition demo_fmt :: "Uuid \<Rightarrow> rstring" where
  "demo_fmt u = [unat u]"

lemma demo_fmt_inj: "inj demo_fmt"
  by (simp add: inj_def demo_fmt_def word_unat_eq_iff)

definition demo_email :: Email where
  "demo_email = Email (lit ''a@b.c'')"

definition demo_generator :: material where
  "demo_generator = \<lparr> rm_account_id = UserAccountId 2, rm_verification_code = 1234567, rm_account_creation_token = lit ''d'' \<rparr>"

definition demo_submission :: ProfileSubmission where
  "demo_submission = \<lparr> ps_email = demo_email, ps_account_id = UserAccountId 2, ps_account_creation_token = lit ''d'',
     ps_first_name = lit ''Ada'', ps_last_name = lit ''Byron'', ps_date_of_birth = 10 \<rparr>"

abbreviation demo_reaches :: "demo_value system \<Rightarrow> demo_value system \<Rightarrow> bool" where
  "demo_reaches \<equiv> reaches id id demo_fmt demo_codec"

definition demo_reserved :: "demo_value system" where
  "demo_reserved = fst (reserve_email demo_codec (CqrsEmailReservationGateway_execute_with_outbox reliable_email)
     demo_generator 0 demo_email empty_system)"

definition demo_confirmed :: "demo_value system" where
  "demo_confirmed = fst (confirm_email id (CqrsEmailReservationGateway_execute reliable_email)
     demo_generator demo_email (UserAccountId 2) 1234567 demo_reserved)"

definition demo_accepted :: "demo_value system" where
  "demo_accepted = fst (submit_profile id id demo_codec (CqrsEmailReservationGateway_execute_with_outbox reliable_email)
     20 0 demo_submission demo_confirmed)"

lemma demo_reaches_reserved: "demo_reaches empty_system demo_reserved"
proof -
  have "material_ok demo_generator" by (simp add: material_ok_def demo_generator_def code_ok_def)
  then have "sys_step id id demo_fmt demo_codec empty_system demo_reserved"
    unfolding demo_reserved_def by (intro sys_step.reserves [OF reliable_ok(1)]) (auto intro: prod.collapse [symmetric])
  then show ?thesis by (rule r_into_rtranclp)
qed

lemma demo_reaches_accepted: "demo_reaches empty_system demo_accepted"
proof -
  have "sys_step id id demo_fmt demo_codec demo_reserved demo_confirmed"
    unfolding demo_confirmed_def by (intro sys_step.confirms [OF reliable_ok(1)]) (auto intro: prod.collapse [symmetric])
  moreover have "sys_step id id demo_fmt demo_codec demo_confirmed demo_accepted"
    unfolding demo_accepted_def by (intro sys_step.submits [OF reliable_ok(1)]) (auto intro: prod.collapse [symmetric])
  ultimately show ?thesis using demo_reaches_reserved by (meson r_into_rtranclp rtranclp_trans)
qed

lemmas demo_system_defs = demo_reserved_def demo_confirmed_def demo_accepted_def demo_email_def demo_generator_def
  demo_submission_def demo_codec_def lit_def empty_system_def reserve_email_def confirm_email_def submit_profile_def
  CqrsEmailReservationGateway_execute_def CqrsEmailReservationGateway_execute_with_outbox_def Email_to_string_def
  reliable_email_def reliable_def EmailReservation_default_def email_handler_defs task_data_defs
  SendVerificationCodeTaskV1_payload_def CreateAccountTaskV1_payload_def commit_mailbox_def demo_profile_def

lemma demo_accepted_mailboxes:
  "sy_mailboxes demo_accepted = (\<lambda>k. if k = as_str demo_email then
     [EmailReserved demo_email (UserAccountId 2) 1234567, EmailVerified demo_email (UserAccountId 2) (lit ''d''),
      RegistrationProfileAccepted demo_email (UserAccountId 2) (lit ''d'') demo_profile] else [])"
  by (rule ext) (simp add: demo_system_defs Let_def trim_def is_whitespace_def)

lemma demo_acceptances:
  "accepted_in demo_accepted e i p \<longleftrightarrow> e = demo_email \<and> i = UserAccountId 2 \<and> p = demo_profile"
  by (auto simp: accepted_in_def demo_accepted_mailboxes)

lemma demo_completed:
  "\<exists>w ts. demo_reaches empty_system w \<and> created_in demo_fmt w demo_email (UserAccountId 2) demo_profile ts \<and>
     AccountCreationCompleted demo_email (UserAccountId 2) ts \<in> set (sy_mailboxes w (as_str demo_email))"
proof -
  note inv = reaches_inv [OF demo_codec_ok demo_reaches_accepted empty_system_inv]
  from can_complete [OF demo_codec_ok demo_fmt_inj inv, of demo_email "UserAccountId 2" demo_profile id id]
  obtain w ts where "demo_reaches demo_accepted w" "created_in demo_fmt w demo_email (UserAccountId 2) demo_profile ts"
    "AccountCreationCompleted demo_email (UserAccountId 2) ts \<in> set (sy_mailboxes w (as_str demo_email))"
    by (auto simp: demo_acceptances)
  with demo_reaches_accepted show ?thesis by (meson rtranclp_trans)
qed

section \<open>Properties\<close>

text \<open>
  Whatever clients request and workers deliver, in any order and any number of times, an
  account exists only for a mailbox that was verified under the account's identifier and then
  accepted exactly the account's profile; the stream of an account holds that one creation.
\<close>

theorem accounts_come_from_verified_mailboxes:
  assumes "codec_ok c" and "reaches sha256_hex date_naive uuid_fmt c empty_system w" and "sy_accounts w k \<noteq> []"
  shows "\<exists>i e p t h d es. sy_accounts w k = [creation_event (created_account i e p t)] \<and> k = uuid_fmt (as_uuid i) \<and>
    profile_ok p \<and> sy_mailboxes w (as_str e) = h @ EmailVerified e i d # RegistrationProfileAccepted e i d p # es"
  using account_origin [OF reaches_inv [OF assms(1,2) empty_system_inv] assms(3)] .

theorem accounts_come_from_verified_mailboxes_witness:
  "\<exists>w i e p t h d es. demo_reaches empty_system w \<and> sy_accounts w (demo_fmt 2) = [creation_event (created_account i e p t)] \<and>
     sy_mailboxes w (as_str e) = h @ EmailVerified e i d # RegistrationProfileAccepted e i d p # es"
proof -
  from demo_completed obtain w ts where w: "demo_reaches empty_system w"
    "created_in demo_fmt w demo_email (UserAccountId 2) demo_profile ts" by blast
  then have "sy_accounts w (demo_fmt 2) \<noteq> []" by (auto simp: created_in_def)
  from accounts_come_from_verified_mailboxes [OF demo_codec_ok w(1) this] w(1) show ?thesis by blast
qed

text \<open>
  C9. A mailbox never gets two accounts: two creations for the same address are the same
  creation, with one identifier, one profile and one time.
\<close>

theorem mailbox_has_one_account:
  assumes "codec_ok c" and "reaches sha256_hex date_naive uuid_fmt c empty_system w"
    and "created_in uuid_fmt w e i p t" and "created_in uuid_fmt w e i' p' t'"
  shows "i = i' \<and> p = p' \<and> t = t'"
proof -
  note inv = reaches_inv [OF assms(1,2) empty_system_inv]
  then have "i = i'" "p = p'"
    using accepted_once [OF _ created_singleton(2) [OF inv assms(3)] created_singleton(2) [OF inv assms(4)]]
    by (simp_all add: sys_inv_def)
  with created_singleton(1) [OF inv assms(3)] created_singleton(1) [OF inv assms(4)] show ?thesis
    by (simp add: creation_event_inj)
qed

theorem mailbox_has_one_account_witness:
  "\<exists>w t. demo_reaches empty_system w \<and> created_in demo_fmt w demo_email (UserAccountId 2) demo_profile t \<and>
     (\<forall>i p t'. created_in demo_fmt w demo_email i p t' \<longrightarrow> i = UserAccountId 2 \<and> t' = t)"
proof -
  from demo_completed obtain w ts where w: "demo_reaches empty_system w"
    "created_in demo_fmt w demo_email (UserAccountId 2) demo_profile ts" by blast
  from mailbox_has_one_account [OF demo_codec_ok w] w show ?thesis by metis
qed

text \<open>
  C10. A reservation is recorded as completed only when its account exists: the account's stream
  is the creation under the recorded identifier and time, of the profile this mailbox accepted.
\<close>

theorem completed_reservation_has_its_account:
  assumes "codec_ok c" and "reaches sha256_hex date_naive uuid_fmt c empty_system w"
    and "AccountCreationCompleted e i t \<in> set (sy_mailboxes w (as_str e))"
  shows "\<exists>p. sy_accounts w (uuid_fmt (as_uuid i)) = [creation_event (created_account i e p t)] \<and> accepted_in w e i p"
proof -
  note inv = reaches_inv [OF assms(1,2) empty_system_inv]
  from completed_created [OF inv assms(3)] obtain p where "created_in uuid_fmt w e i p t" by blast
  from created_singleton [OF inv this] show ?thesis by blast
qed

theorem completed_reservation_has_its_account_witness:
  "\<exists>w p t. demo_reaches empty_system w \<and>
     sy_accounts w (demo_fmt 2) = [creation_event (created_account (UserAccountId 2) demo_email p t)]"
proof -
  from demo_completed obtain w ts where w: "demo_reaches empty_system w"
    "AccountCreationCompleted demo_email (UserAccountId 2) ts \<in> set (sy_mailboxes w (as_str demo_email))" by blast
  from completed_reservation_has_its_account [OF demo_codec_ok w] w(1) show ?thesis by auto
qed

text \<open>
  An accepted registration never gets stuck: from every reachable state in which a mailbox
  has accepted a profile under an identifier no other mailbox uses, deliveries of published tasks
  lead to a state where the account exists and the reservation is recorded as completed, whatever
  failed or was delivered twice before.
\<close>

theorem accepted_registration_can_complete:
  assumes "codec_ok c" and "inj uuid_fmt" and "reaches sha256_hex date_naive uuid_fmt c empty_system w"
    and "accepted_in w e i p" and "\<And>e' p'. accepted_in w e' i p' \<Longrightarrow> e' = e"
  shows "\<exists>w' t. reaches sha256_hex date_naive uuid_fmt c w w' \<and> created_in uuid_fmt w' e i p t \<and>
    AccountCreationCompleted e i t \<in> set (sy_mailboxes w' (as_str e))"
  using can_complete [OF assms(1,2) reaches_inv [OF assms(1,3) empty_system_inv] assms(4,5)] .

theorem accepted_registration_can_complete_witness:
  "demo_reaches empty_system demo_accepted \<and>
   (\<exists>w' t. demo_reaches demo_accepted w' \<and> created_in demo_fmt w' demo_email (UserAccountId 2) demo_profile t \<and>
     AccountCreationCompleted demo_email (UserAccountId 2) t \<in> set (sy_mailboxes w' (as_str demo_email)))"
  using accepted_registration_can_complete [OF demo_codec_ok demo_fmt_inj demo_reaches_accepted,
      of demo_email "UserAccountId 2" demo_profile] demo_reaches_accepted
  by (simp add: demo_acceptances)

text \<open>
  C11. No task of the service is rejected: as long as different mailboxes have different account
  identifiers, delivering any published task in any reachable state, at any time and any number of
  times, is completed or asks for a retry; it never fails permanently.
\<close>

theorem published_tasks_are_never_rejected:
  assumes "codec_ok c" and "inj uuid_fmt" and "reaches sha256_hex date_naive uuid_fmt c empty_system w" and "ids_unique w"
    and "t \<in> set (sy_tasks w)" and "email_executor_ok ex" and "account_executor_ok ax"
    and "build_dispatcher c uuid_fmt (console_write written partial) (console_flush flushed) ex ax now v4 = Ok d"
  shows "\<exists>w' handled. TaskDispatcher_dispatch d (attempt_of t number) w = Return (w', handled) \<and>
    (\<forall>reason. handled \<noteq> Err (TaskHandlerError.Permanent reason))"
proof -
  note inv = reaches_inv [OF assms(1,3) empty_system_inv]
  have f: "ta_format (attempt_of t number) = nt_format t" "ta_payload (attempt_of t number) = nt_payload t"
    by (simp_all add: attempt_of_def)
  note dispatch = dispatch_service [OF assms(8), of "attempt_of t number" w, unfolded f JsonTaskAdapter_invoke_def]
  from inv assms(5) have ok: "task_ok uuid_fmt c w t" by (simp add: sys_inv_def)
  then consider (send) "nt_format t = send_format" | (create) "nt_format t = create_format"
    | (completion) "nt_format t = record_format" by (auto simp: task_ok_def)
  then show ?thesis
  proof cases
    case send
    with ok obtain x where x: "cd_read_send c (nt_payload t) = Some x" "code_ok (sv_verification_code x)" by (auto simp: task_ok_def)
    with send dispatch show ?thesis
      by (auto simp: SendVerificationCodeTaskHandler_handle_def code_ok_def ConsoleVerificationCodeSender_send_def Let_def
          console_write_def console_flush_def split: bool.splits)
  next
    case create
    with ok obtain x where x: "cd_read_create c (nt_payload t) = Some x"
      "accepted_in w (ct_email x) (ct_account_id x) (ct_profile x)" by (auto simp: task_ok_def)
    obtain w' r where call: "create_account c (CqrsUserAccountGateway_execute_with_outbox uuid_fmt ax) now v4 x w = (w', r)" by fastforce
    with create dispatch x(1) have "TaskDispatcher_dispatch d (attempt_of t number) w = Return (w', map_err delivery_error r)"
      by (simp add: lit_def)
    with create_not_permanent [OF assms(1,2,7) inv assms(4) x(2) call] delivery_error_Permanent show ?thesis by blast
  next
    case completion
    with ok obtain x where x: "cd_read_record c (nt_payload t) = Some x"
      "created_in uuid_fmt w (rt_email x) (rt_account_id x) (rt_profile x) (rt_created_at x)" by (auto simp: task_ok_def)
    obtain w' r where call: "record_account_created (CqrsEmailReservationGateway_execute ex) x w = (w', r)" by fastforce
    with completion dispatch x(1) have "TaskDispatcher_dispatch d (attempt_of t number) w = Return (w', map_err delivery_error r)"
      by (simp add: lit_def)
    with record_not_permanent [OF assms(6) inv x(2) call] delivery_error_Permanent show ?thesis by blast
  qed
qed

theorem published_tasks_are_never_rejected_witness:
  "\<exists>t d w' handled. t \<in> set (sy_tasks demo_accepted) \<and> create_task_for demo_codec demo_email (UserAccountId 2) demo_profile t \<and>
     TaskDispatcher_dispatch d (attempt_of t 1) demo_accepted = Return (w', handled) \<and>
     (\<forall>reason. handled \<noteq> Err (TaskHandlerError.Permanent reason))"
proof -
  have "sys_inv demo_fmt demo_codec demo_accepted" using reaches_inv [OF demo_codec_ok demo_reaches_accepted empty_system_inv] .
  moreover have "accepted_in demo_accepted demo_email (UserAccountId 2) demo_profile" by (simp add: demo_acceptances)
  ultimately obtain t where t: "t \<in> set (sy_tasks demo_accepted)" "create_task_for demo_codec demo_email (UserAccountId 2) demo_profile t"
    unfolding sys_inv_def followups_ok_def by blast
  obtain d where d: "build_dispatcher demo_codec demo_fmt (console_write True []) (console_flush True) reliable_email reliable_account 30 0 = Ok d"
    using dispatcher_built by blast
  have "ids_unique demo_accepted" by (simp add: ids_unique_def demo_acceptances)
  from published_tasks_are_never_rejected [OF demo_codec_ok demo_fmt_inj demo_reaches_accepted this t(1) reliable_ok d, of 1] t
  show ?thesis by blast
qed

text \<open>
  A command takes effect at most once, however often it is retried: when every attempt of the
  framework commits all or nothing and other users act only while the executor sleeps, a call of
  the retrying executor is one step of the executor contract, taken after some steps of the
  others; the attempts that met a conflict leave nothing behind.
\<close>

theorem retried_command_takes_effect_once:
  assumes "\<And>w w' r. fw_execute (build_framework tasks) k command w = Return (w', r) \<Longrightarrow>
      attempts handle app initial events_of commit command w w' r"
    and "\<And>d w. others\<^sup>*\<^sup>* w (sleep d w)"
    and "CqrsCommandExecutor_execute build_framework fw_execute backoff sleep max_attempts k command tasks w = Return (w', r)"
  shows "\<exists>w0. others\<^sup>*\<^sup>* w w0 \<and> executes handle app initial events_of commit command w0 w' r"
proof -
  let ?Q = "attempts handle app initial events_of commit command"
  have op: "\<exists>w0. others\<^sup>*\<^sup>* w w0 \<and> ?Q w0 w' r" if "fw_execute (build_framework tasks) k command w = Return (w', r)" for w w' r
    using assms(1) [OF that] by blast
  have "\<exists>w0 r'. others\<^sup>*\<^sup>* w w0 \<and> ?Q w0 w' r' \<and> r = map_err map_aggregate_error r'"
    by (rule executor_once [where Q = ?Q and ok = "\<lambda>_. True", OF _ _ assms(2) _ _ assms(3)])
      (erule op, erule attempts_conflict, simp_all)
  then obtain w0 r' where "others\<^sup>*\<^sup>* w w0" "?Q w0 w' r'" "r = map_err map_aggregate_error r'" by blast
  with attempts_executes [OF this(2)] show ?thesis by blast
qed

text \<open>A store that is contended until the executor has slept once.\<close>

definition contended_operation :: "UserAccountCommand \<Rightarrow> (bool \<times> UserAccountEvent list, unit, UserAccountError) operation" where
  "contended_operation command = (\<lambda>(free, h).
     if free then
       (case UserAccount_handle UserAccount_default command of
          Return (Ok evs) \<Rightarrow> if h = [] then Return ((free, h @ evs), Ok ()) else Return ((free, h), Err UnexpectedError)
        | _ \<Rightarrow> Return ((free, h), Err UnexpectedError))
     else Return ((free, h), Err AggregateConflict))"

lemma contended_attempts:
  assumes "contended_operation command w = Return (w', r)"
  shows "attempts UserAccount_handle UserAccount_apply UserAccount_default snd (\<lambda>evs (free, h). (free, h @ evs)) command w w' r"
proof -
  obtain free h where w: "w = (free, h)" by fastforce
  have committed: "attempts UserAccount_handle UserAccount_apply UserAccount_default snd (\<lambda>evs (free, h). (free, h @ evs))
      command (f, []) (f, evs) (Ok ())" if "UserAccount_handle UserAccount_default command = Return (Ok evs)" for evs f
    using attempts.written [of UserAccount_apply UserAccount_default snd "(f, [])" UserAccount_default UserAccount_handle
        command evs "\<lambda>evs (free, h). (free, h @ evs)"] that by simp
  from assms show ?thesis
    by (auto simp: contended_operation_def w split: if_splits run.splits result.splits
        intro!: attempts.not_written committed)
qed

theorem retried_command_takes_effect_once_witness:
  "\<exists>w'. CqrsCommandExecutor_execute id (\<lambda>_ _. contended_operation) (\<lambda>_. Return 5) (\<lambda>_ (_, h). (True, h)) 3 (lit ''k'')
       (create_command (UserAccountId 2) demo_email demo_profile 30) ([] :: unit NewTask list) (False, []) = Return (w', Ok ()) \<and>
     (\<exists>w0. (\<lambda>(_, h) (_, h'). h = h')\<^sup>*\<^sup>* (False, []) w0 \<and>
        executes UserAccount_handle UserAccount_apply UserAccount_default snd (\<lambda>evs (free, h). (free, h @ evs))
          (create_command (UserAccountId 2) demo_email demo_profile 30) w0 w' (Ok ()))"
proof -
  let ?c = "create_command (UserAccountId 2) demo_email demo_profile 30"
  let ?w' = "(True, [creation_event (created_account (UserAccountId 2) demo_email demo_profile 30)])"
  have "profile_ok demo_profile" by (simp add: profile_ok_def demo_profile_def trimmed_def is_whitespace_def lit_def)
  with create_fresh [of UserAccount_default "UserAccountId 2" demo_email demo_profile 30]
  have h: "UserAccount_handle UserAccount_default ?c = Return (Ok [creation_event (created_account (UserAccountId 2) demo_email demo_profile 30)])"
    by (simp add: UserAccount_default_def)
  have run: "CqrsCommandExecutor_execute id (\<lambda>_ _. contended_operation) (\<lambda>_. Return 5) (\<lambda>_ (_, h). (True, h)) 3 (lit ''k'')
      ?c ([] :: unit NewTask list) (False, []) = Return (?w', Ok ())"
    by (simp add: CqrsCommandExecutor_execute_def retry_on_aggregate_conflict_def contended_operation_def h eval_nat_numeral)
  have "(\<lambda>(_, h) (_, h'). h = h')\<^sup>*\<^sup>* w (case w of (_, h) \<Rightarrow> (True, h))" for w :: "bool \<times> UserAccountEvent list"
    by (rule r_into_rtranclp) (auto split: prod.splits)
  from retried_command_takes_effect_once [OF contended_attempts this run] run show ?thesis by blast
qed

end
