(* ===== verification/Http_Api.thy ===== *)
theory Http_Api
  imports Registration_Guarantees
begin

text \<open>
  The HTTP interface of the service (\<open>presentation/http\<close>): the requests, the four handlers, the
  mapping of failures to responses, and what a response tells its client about the system.

  Routing and extraction are axum's: an \<open>endpoint\<close> is the handler that axum selected for a
  request, with the results of its extractors (\<open>Err\<close> for a rejection). A response is its status,
  the headers the handlers set and the value that becomes its JSON body. The parsers of mail
  addresses, identifiers and dates and the percent encoder are arguments (\<open>http_env\<close>).
\<close>

section \<open>Requests and responses\<close>

record ReserveEmailRequest =
  rq_email :: rstring

record VerifyEmailRequest =
  vq_account_id :: rstring
  vq_code :: u32

record SubmitProfileRequest =
  sq_email :: rstring
  sq_account_id :: rstring
  sq_account_creation_token :: rstring
  sq_first_name :: rstring
  sq_last_name :: rstring
  sq_date_of_birth :: rstring

datatype http_body =
    ErrorResponse string string
  | ReserveEmailResponse Email UserAccountId
  | RequestCodeResponse string
  | VerifyEmailResponse Email UserAccountId rstring
  | SubmitProfileResponse UserAccountId rstring

record http_response =
  rs_status :: nat
  rs_headers :: "(string \<times> string) list"
  rs_body :: http_body

definition error_response :: "nat \<Rightarrow> string \<Rightarrow> string \<Rightarrow> http_response" where
  "error_response status code message = \<lparr> rs_status = status, rs_headers = [], rs_body = ErrorResponse code message \<rparr>"

definition registration_status_not_implemented :: http_response where
  "registration_status_not_implemented =
     error_response 501 ''not_implemented'' ''registration status is not implemented''"

section \<open>Failures of the reservation endpoints\<close>

datatype EmailReservationsError =
    InvalidRequest
  | InvalidEmail
  | AlreadyReserved
  | NotReserved
  | NotCurrentAccountId
  | AlreadyVerified
  | AccountCreationStarted
  | InvalidCode
  | Conflict
  | Unavailable
  | Internal

fun EmailReservationsError_from :: "EmailReservationServiceError \<Rightarrow> EmailReservationsError" where
  "EmailReservationsError_from EmailReservationServiceError.AlreadyReserved = AlreadyReserved"
| "EmailReservationsError_from EmailReservationServiceError.NotReserved = NotReserved"
| "EmailReservationsError_from EmailReservationServiceError.NotCurrentAccountId = NotCurrentAccountId"
| "EmailReservationsError_from EmailReservationServiceError.AlreadyVerified = AlreadyVerified"
| "EmailReservationsError_from EmailReservationServiceError.AccountCreationStarted = AccountCreationStarted"
| "EmailReservationsError_from EmailReservationServiceError.InvalidVerificationCode = InvalidCode"
| "EmailReservationsError_from EmailReservationServiceError.Conflict = Conflict"
| "EmailReservationsError_from EmailReservationServiceError.Unavailable = Unavailable"
| "EmailReservationsError_from (UnexpectedDomainRejection _) = Internal"

fun EmailReservationsError_parts :: "EmailReservationsError \<Rightarrow> nat \<times> string \<times> string" where
  "EmailReservationsError_parts InvalidRequest = (400, ''invalid_request'', ''invalid request'')"
| "EmailReservationsError_parts InvalidEmail = (422, ''invalid_email'', ''invalid email address'')"
| "EmailReservationsError_parts AlreadyReserved = (409, ''email_already_reserved'', ''email is already reserved'')"
| "EmailReservationsError_parts NotReserved = (404, ''email_not_reserved'', ''email is not reserved'')"
| "EmailReservationsError_parts NotCurrentAccountId = (404, ''registration_not_current'', ''registration is not current'')"
| "EmailReservationsError_parts AlreadyVerified = (409, ''already_verified'', ''email is already verified'')"
| "EmailReservationsError_parts AccountCreationStarted =
     (409, ''account_creation_started'', ''account creation has already started'')"
| "EmailReservationsError_parts InvalidCode = (422, ''invalid_verification_code'', ''invalid verification code'')"
| "EmailReservationsError_parts Conflict = (429, ''email_reservation_conflict'', ''email reservation changed concurrently'')"
| "EmailReservationsError_parts Unavailable = (503, ''service_unavailable'', ''email reservation is temporarily unavailable'')"
| "EmailReservationsError_parts Internal = (500, ''internal_error'', ''email reservation failed'')"

definition with_retry_after :: "bool \<Rightarrow> http_response \<Rightarrow> http_response" where
  "with_retry_after retry_after response =
     (if retry_after then response\<lparr> rs_headers := rs_headers response @ [(''retry-after'', ''1'')] \<rparr> else response)"

definition EmailReservationsError_into_response :: "EmailReservationsError \<Rightarrow> http_response" where
  "EmailReservationsError_into_response self =
     (case EmailReservationsError_parts self of (status, code, message) \<Rightarrow>
        with_retry_after (self = Conflict) (error_response status code message))"

section \<open>Failures of the account endpoint\<close>

datatype UserAccountsError =
    InvalidRequest
  | InvalidEmail
  | InvalidProfile
  | InvalidAccountCreationToken
  | RegistrationNotFound
  | RegistrationNotCurrent
  | EmailNotVerified
  | ProfileAlreadySubmitted
  | Conflict
  | Unavailable
  | Internal

fun UserAccountsError_from :: "SubmissionError \<Rightarrow> UserAccountsError" where
  "UserAccountsError_from (SubmissionError.Domain EmailReservationError.InvalidAccountCreationToken) = InvalidAccountCreationToken"
| "UserAccountsError_from (SubmissionError.Domain EmailReservationError.NotReserved) = RegistrationNotFound"
| "UserAccountsError_from (SubmissionError.Domain EmailReservationError.NotCurrentAccountId) = RegistrationNotCurrent"
| "UserAccountsError_from (SubmissionError.Domain EmailReservationError.NotAwaitingProfile) = EmailNotVerified"
| "UserAccountsError_from (SubmissionError.Domain EmailReservationError.ProfileAlreadySubmitted) = ProfileAlreadySubmitted"
| "UserAccountsError_from (SubmissionError.Domain EmailReservationError.EmptyFirstName) = InvalidProfile"
| "UserAccountsError_from (SubmissionError.Domain EmailReservationError.EmptyLastName) = InvalidProfile"
| "UserAccountsError_from (SubmissionError.Domain EmailReservationError.FutureDateOfBirth) = InvalidProfile"
| "UserAccountsError_from SubmissionError.Conflict = Conflict"
| "UserAccountsError_from SubmissionError.Unavailable = Unavailable"
| "UserAccountsError_from (SubmissionError.Domain _) = Internal"

fun UserAccountsError_parts :: "UserAccountsError \<Rightarrow> nat \<times> string \<times> string" where
  "UserAccountsError_parts UserAccountsError.InvalidRequest = (400, ''invalid_request'', ''invalid request'')"
| "UserAccountsError_parts UserAccountsError.InvalidEmail = (422, ''invalid_email'', ''invalid email address'')"
| "UserAccountsError_parts InvalidProfile = (422, ''invalid_profile'', ''registration profile is invalid'')"
| "UserAccountsError_parts InvalidAccountCreationToken =
     (403, ''invalid_account_creation_token'', ''account creation token is invalid'')"
| "UserAccountsError_parts RegistrationNotFound = (404, ''registration_not_found'', ''registration was not found'')"
| "UserAccountsError_parts RegistrationNotCurrent = (404, ''registration_not_current'', ''registration is not current'')"
| "UserAccountsError_parts EmailNotVerified = (409, ''email_not_verified'', ''email has not been verified'')"
| "UserAccountsError_parts ProfileAlreadySubmitted =
     (409, ''profile_already_submitted'', ''a registration profile was already submitted'')"
| "UserAccountsError_parts UserAccountsError.Conflict = (429, ''registration_conflict'', ''registration changed concurrently'')"
| "UserAccountsError_parts UserAccountsError.Unavailable =
     (503, ''service_unavailable'', ''registration is temporarily unavailable'')"
| "UserAccountsError_parts UserAccountsError.Internal = (500, ''internal_error'', ''registration failed'')"

definition UserAccountsError_into_response :: "UserAccountsError \<Rightarrow> http_response" where
  "UserAccountsError_into_response self =
     (case UserAccountsError_parts self of (status, code, message) \<Rightarrow>
        with_retry_after (self = UserAccountsError.Conflict) (error_response status code message))"

section \<open>Handlers\<close>

text \<open>What the handlers use of the libraries.\<close>

record http_env =
  he_lower :: "rstring \<Rightarrow> rstring"
  he_address :: "rstring \<Rightarrow> rstring option"
  he_uuid_fmt :: "Uuid \<Rightarrow> rstring"
  he_uuid_parse :: "rstring \<Rightarrow> (Uuid, unit) result"
  he_date_parse :: "rstring \<Rightarrow> NaiveDate option"
  he_percent_encode :: "(uchar \<Rightarrow> bool) \<Rightarrow> rstring \<Rightarrow> rstring"

abbreviation parse_email where
  "parse_email env \<equiv> Email_parse (he_lower env) (he_address env)"

abbreviation parse_account_id where
  "parse_account_id env \<equiv> UserAccountId_from_str (he_uuid_parse env)"

definition reserve ::
  "http_env \<Rightarrow> (Email \<Rightarrow> 'w \<Rightarrow> 'w \<times> (ReservedEmail, EmailReservationServiceError) result)
     \<Rightarrow> (ReserveEmailRequest, unit) result \<Rightarrow> 'w \<Rightarrow> 'w \<times> (http_response, EmailReservationsError) result" where
  "reserve env service_reserve payload w =
     (case payload of
        Err _ \<Rightarrow> (w, Err EmailReservationsError.InvalidRequest)
      | Ok request \<Rightarrow>
          (case parse_email env (rq_email request) of
             Err _ \<Rightarrow> (w, Err EmailReservationsError.InvalidEmail)
           | Ok email \<Rightarrow>
               (case service_reserve email w of
                  (w', Err e) \<Rightarrow> (w', Err (EmailReservationsError_from e))
                | (w', Ok reserved) \<Rightarrow> (w', Ok \<lparr> rs_status = 202, rs_headers = [],
                    rs_body = ReserveEmailResponse (re_email reserved) (re_account_id reserved) \<rparr>))))"

definition request_code ::
  "http_env \<Rightarrow> (Email \<Rightarrow> 'w \<Rightarrow> 'w \<times> (unit, EmailReservationServiceError) result)
     \<Rightarrow> (rstring, unit) result \<Rightarrow> 'w \<Rightarrow> 'w \<times> (http_response, EmailReservationsError) result" where
  "request_code env service_request path w =
     (case path of
        Err _ \<Rightarrow> (w, Err EmailReservationsError.InvalidRequest)
      | Ok text \<Rightarrow>
          (case parse_email env text of
             Err _ \<Rightarrow> (w, Err EmailReservationsError.InvalidEmail)
           | Ok email \<Rightarrow>
               (case service_request email w of
                  (w', Err e) \<Rightarrow> (w', Err (EmailReservationsError_from e))
                | (w', Ok _) \<Rightarrow> (w', Ok \<lparr> rs_status = 202, rs_headers = [],
                    rs_body = RequestCodeResponse ''verification_code_requested'' \<rparr>))))"

definition verify ::
  "http_env \<Rightarrow> (Email \<Rightarrow> UserAccountId \<Rightarrow> u32 \<Rightarrow> 'w \<Rightarrow> 'w \<times> (VerifiedEmail, EmailReservationServiceError) result)
     \<Rightarrow> (rstring, unit) result \<Rightarrow> (VerifyEmailRequest, unit) result
     \<Rightarrow> 'w \<Rightarrow> 'w \<times> (http_response, EmailReservationsError) result" where
  "verify env service_confirm path payload w =
     (case (path, payload) of
        (Ok text, Ok request) \<Rightarrow>
          (case parse_account_id env (vq_account_id request) of
             Err _ \<Rightarrow> (w, Err EmailReservationsError.InvalidRequest)
           | Ok account_id \<Rightarrow>
               (case parse_email env text of
                  Err _ \<Rightarrow> (w, Err EmailReservationsError.InvalidEmail)
                | Ok email \<Rightarrow>
                    (case service_confirm email account_id (vq_code request) w of
                       (w', Err e) \<Rightarrow> (w', Err (EmailReservationsError_from e))
                     | (w', Ok verified) \<Rightarrow> (w', Ok \<lparr> rs_status = 200, rs_headers = [(''cache-control'', ''no-store'')],
                         rs_body = VerifyEmailResponse (ve_email verified) (ve_account_id verified)
                           (ve_account_creation_token verified) \<rparr>))))
      | _ \<Rightarrow> (w, Err EmailReservationsError.InvalidRequest))"

text \<open>The characters of a path segment that are percent encoded.\<close>

definition PATH_SEGMENT :: "uchar \<Rightarrow> bool" where
  "PATH_SEGMENT ch \<longleftrightarrow> \<not> (48 \<le> ch \<and> ch \<le> 57 \<or> 65 \<le> ch \<and> ch \<le> 90 \<or> 97 \<le> ch \<and> ch \<le> 122) \<and> ch \<notin> set (lit ''-._~'')"

definition submit_profile_handler ::
  "http_env \<Rightarrow> (ProfileSubmission \<Rightarrow> 'w \<Rightarrow> 'w \<times> (AcceptedSubmission, SubmissionError) result)
     \<Rightarrow> (SubmitProfileRequest, unit) result \<Rightarrow> 'w \<Rightarrow> 'w \<times> (http_response, UserAccountsError) result" where
  "submit_profile_handler env service_submit payload w =
     (case payload of
        Err _ \<Rightarrow> (w, Err UserAccountsError.InvalidRequest)
      | Ok request \<Rightarrow>
     (case parse_email env (sq_email request) of
        Err _ \<Rightarrow> (w, Err UserAccountsError.InvalidEmail)
      | Ok email \<Rightarrow>
     (case parse_account_id env (sq_account_id request) of
        Err _ \<Rightarrow> (w, Err UserAccountsError.InvalidRequest)
      | Ok account_id \<Rightarrow>
     (case he_date_parse env (sq_date_of_birth request) of
        None \<Rightarrow> (w, Err InvalidProfile)
      | Some date_of_birth \<Rightarrow>
          (case service_submit \<lparr> ps_email = email, ps_account_id = account_id,
                  ps_account_creation_token = sq_account_creation_token request, ps_first_name = sq_first_name request,
                  ps_last_name = sq_last_name request, ps_date_of_birth = date_of_birth \<rparr> w of
             (w', Err e) \<Rightarrow> (w', Err (UserAccountsError_from e))
           | (w', Ok accepted) \<Rightarrow> (w', Ok \<lparr> rs_status = 202, rs_headers = [],
               rs_body = SubmitProfileResponse (as_account_id accepted)
                 (lit ''/email-reservations/'' @ he_percent_encode env PATH_SEGMENT (as_str (as_email accepted)) @
                  lit ''/registrations/'' @ UserAccountId_to_string (he_uuid_fmt env) (as_account_id accepted)) \<rparr>))))))"

section \<open>The router\<close>

text \<open>
  The routes of \<open>router\<close>: reservations, codes, verification, the registration's status and
  accounts. Services are those of \<open>startup/wiring.rs\<close> over the executor of the reservations.
\<close>

datatype endpoint =
    Reserve "(ReserveEmailRequest, unit) result"
  | RequestCode "(rstring, unit) result"
  | Verify "(rstring, unit) result" "(VerifyEmailRequest, unit) result"
  | RegistrationStatus
  | SubmitProfile "(SubmitProfileRequest, unit) result"

fun answer :: "('e \<Rightarrow> http_response) \<Rightarrow> 'w \<times> (http_response, 'e) result \<Rightarrow> 'w \<times> http_response" where
  "answer into_response (w, Ok response) = (w, response)"
| "answer into_response (w, Err e) = (w, into_response e)"

fun router ::
  "http_env \<Rightarrow> (rstring \<Rightarrow> rstring) \<Rightarrow> (DateTime \<Rightarrow> NaiveDate) \<Rightarrow> 'v codec
     \<Rightarrow> ('w, EmailReservationCommand, 'v, EmailReservationError) executor
     \<Rightarrow> material \<Rightarrow> DateTime \<Rightarrow> Uuid \<Rightarrow> endpoint \<Rightarrow> 'w \<Rightarrow> 'w \<times> http_response" where
  "router env sha256_hex date_naive c ex generator now v4 (Reserve payload) w =
     answer EmailReservationsError_into_response (reserve env
       (reserve_email c (CqrsEmailReservationGateway_execute_with_outbox ex) generator v4) payload w)"
| "router env sha256_hex date_naive c ex generator now v4 (RequestCode path) w =
     answer EmailReservationsError_into_response (request_code env
       (request_new_verification_code c (CqrsEmailReservationGateway_execute_with_outbox ex) generator v4) path w)"
| "router env sha256_hex date_naive c ex generator now v4 (Verify path payload) w =
     answer EmailReservationsError_into_response (verify env
       (confirm_email sha256_hex (CqrsEmailReservationGateway_execute ex) generator) path payload w)"
| "router env sha256_hex date_naive c ex generator now v4 RegistrationStatus w =
     (w, registration_status_not_implemented)"
| "router env sha256_hex date_naive c ex generator now v4 (SubmitProfile payload) w =
     answer UserAccountsError_into_response (submit_profile_handler env
       (submit_profile sha256_hex date_naive c (CqrsEmailReservationGateway_execute_with_outbox ex) now v4) payload w)"

section \<open>What the responses mean\<close>

text \<open>The event a success response speaks of, and the tasks that were published with it.\<close>

fun confirms_event :: "(rstring \<Rightarrow> rstring) \<Rightarrow> 'v codec \<Rightarrow> http_body \<Rightarrow> EmailReservationEvent \<Rightarrow> 'v NewTask list \<Rightarrow> bool" where
  "confirms_event sha256_hex c (ReserveEmailResponse em i) e tasks \<longleftrightarrow>
     (\<exists>code t. e = EmailReserved em i code \<and> tasks = [t] \<and> nt_format t = send_format \<and>
        cd_read_send c (nt_payload t) = Some \<lparr> sv_email = em, sv_account_id = i, sv_verification_code = code \<rparr>)"
| "confirms_event sha256_hex c (RequestCodeResponse _) e tasks \<longleftrightarrow>
     (\<exists>em i code t. (e = VerificationCodeRequested em i code \<or> e = VerificationRestarted em i code) \<and> tasks = [t] \<and>
        nt_format t = send_format \<and>
        cd_read_send c (nt_payload t) = Some \<lparr> sv_email = em, sv_account_id = i, sv_verification_code = code \<rparr>)"
| "confirms_event sha256_hex c (VerifyEmailResponse em i token) e tasks \<longleftrightarrow>
     e = EmailVerified em i (sha256_hex token) \<and> tasks = []"
| "confirms_event sha256_hex c (SubmitProfileResponse i url) e tasks \<longleftrightarrow>
     (\<exists>em d p t. e = RegistrationProfileAccepted em i d p \<and> tasks = [t] \<and> create_task_for c em i p t)"
| "confirms_event sha256_hex c (ErrorResponse _ _) e tasks \<longleftrightarrow> False"

lemmas into_response_defs = EmailReservationsError_into_response_def UserAccountsError_into_response_def
  error_response_def with_retry_after_def

lemma error_status:
  "400 \<le> rs_status (EmailReservationsError_into_response e) \<and>
   (rs_status (EmailReservationsError_into_response e) = 500 \<longleftrightarrow> e = EmailReservationsError.Internal) \<and>
   (rs_status (EmailReservationsError_into_response e) = 503 \<longleftrightarrow> e = EmailReservationsError.Unavailable)"
  "400 \<le> rs_status (UserAccountsError_into_response e') \<and>
   (rs_status (UserAccountsError_into_response e') = 500 \<longleftrightarrow> e' = UserAccountsError.Internal) \<and>
   (rs_status (UserAccountsError_into_response e') = 503 \<longleftrightarrow> e' = UserAccountsError.Unavailable)"
   apply (cases e, simp_all add: into_response_defs)
  apply (cases e', simp_all add: into_response_defs)
  done

lemma retry_after_on_conflict:
  "(''retry-after'', ''1'') \<in> set (rs_headers (EmailReservationsError_into_response e)) \<longleftrightarrow>
     rs_status (EmailReservationsError_into_response e) = 429"
  "(''retry-after'', ''1'') \<in> set (rs_headers (UserAccountsError_into_response e')) \<longleftrightarrow>
     rs_status (UserAccountsError_into_response e') = 429"
   apply (cases e, simp_all add: into_response_defs)
  apply (cases e', simp_all add: into_response_defs)
  done

text \<open>
  The outcome of a service call: success with the event and tasks it reports, or a failure that
  left everything as it was, unless storage was unavailable. \<open>unexpected\<close> marks the errors that
  become an internal error.
\<close>

definition committed :: "'v system \<Rightarrow> EmailReservationEvent \<Rightarrow> 'v NewTask list \<Rightarrow> 'v system \<Rightarrow> bool" where
  "committed w e tasks w' \<longleftrightarrow> legal_history (sy_mailboxes w (as_str (event_email e)) @ [e]) \<and>
     w' = commit_mailbox (as_str (event_email e)) tasks [e] w"

lemma committedI:
  assumes "sys_inv uuid_fmt c w" "w' = commit_mailbox (aggregate_id command) tasks [e] w"
    and "EmailReservation_handle \<lparr>phase = phase_after (rev (sy_mailboxes w (aggregate_id command)))\<rparr> command = Return (Ok [e])"
  shows "committed w e tasks w'"
proof -
  from assms(1) have "legal_history (sy_mailboxes w (aggregate_id command))" by (simp add: sys_inv_defs)
  from accepted_extends_legal [OF this _ assms(3)] accepted_event_email [OF assms(3)] assms(2)
  show ?thesis by (simp add: committed_def)
qed

definition outcome_ok ::
  "('e \<Rightarrow> bool) \<Rightarrow> ('e \<Rightarrow> bool) \<Rightarrow> ('a \<Rightarrow> EmailReservationEvent \<Rightarrow> 'v NewTask list \<Rightarrow> bool) \<Rightarrow> 'v system \<Rightarrow> 'v system
     \<Rightarrow> ('a, 'e) result \<Rightarrow> bool" where
  "outcome_ok unexpected unavailable reports w w' r =
     (case r of Ok x \<Rightarrow> \<exists>e tasks. committed w e tasks w' \<and> reports x e tasks
      | Err x \<Rightarrow> \<not> unexpected x \<and> (unavailable x \<or> w' = w))"

abbreviation service_outcome_ok where
  "service_outcome_ok \<equiv> outcome_ok (\<lambda>x. \<exists>d. x = UnexpectedDomainRejection d) (\<lambda>x. x = EmailReservationServiceError.Unavailable)"

definition code_sent :: "'v codec \<Rightarrow> Email \<Rightarrow> UserAccountId \<Rightarrow> u32 \<Rightarrow> 'v NewTask list \<Rightarrow> bool" where
  "code_sent c em i code tasks \<longleftrightarrow> (\<exists>t. tasks = [t] \<and> nt_format t = send_format \<and>
     cd_read_send c (nt_payload t) = Some \<lparr> sv_email = em, sv_account_id = i, sv_verification_code = code \<rparr>)"

lemma outcome_committed:
  assumes "committed w e tasks w'" "reports x e tasks" "r = Ok x \<or> r = Err y" "unavailable y" "\<not> unexpected y"
  shows "outcome_ok unexpected unavailable reports w w' r"
  using assms(3)
proof
  assume "r = Ok x"
  with assms(1,2) show ?thesis unfolding outcome_ok_def by (simp only: result.case) blast
qed (use assms(4,5) in \<open>simp add: outcome_ok_def\<close>)

lemma code_sent_published:
  assumes "cd_read_send c v = Some \<lparr> sv_email = em, sv_account_id = i, sv_verification_code = code \<rparr>"
  shows "code_sent c em i code [published c v4 (lit ''send_verification_code'') v]"
  using assms by (simp add: code_sent_def published_def)

lemma reserve_outcome:
  assumes "codec_ok c" "email_executor_ok ex" "sys_inv uuid_fmt c w" "material_ok g"
    and "reserve_email c (CqrsEmailReservationGateway_execute_with_outbox ex) g v4 email w = (w', r)"
  shows "service_outcome_ok (\<lambda>x e tasks. x = \<lparr> re_email = email, re_account_id = rm_account_id g \<rparr> \<and>
    e = EmailReserved email (rm_account_id g) (rm_verification_code g) \<and>
    code_sent c email (rm_account_id g) (rm_verification_code g) tasks) w w' r"
proof -
  let ?command = "ReserveEmail email (rm_account_id g) (rm_verification_code g)"
  from send_task_built [OF assms(1), of v4] obtain v where
    t: "NewTask_new (cd_is_object c) (cd_empty c) v4 (SendVerificationCodeTaskV1_payload c
      \<lparr> sv_email = email, sv_account_id = rm_account_id g, sv_verification_code = rm_verification_code g \<rparr>) =
      Ok (published c v4 (lit ''send_verification_code'') v)"
    and v: "cd_read_send c v = Some \<lparr> sv_email = email, sv_account_id = rm_account_id g, sv_verification_code = rm_verification_code g \<rparr>"
    by blast
  let ?t = "published c v4 (lit ''send_verification_code'') v"
  obtain r' where call: "ex (aggregate_id ?command) ?command [?t] w = (w', r')"
    and r: "r = (case r' of Err e \<Rightarrow> Err (reserve_error e) | Ok _ \<Rightarrow> Ok \<lparr> re_email = email, re_account_id = rm_account_id g \<rparr>)"
    using assms(5) by (auto simp: reserve_email_def t Let_def CqrsEmailReservationGateway_execute_with_outbox_def
        split: prod.splits result.splits)
  from assms(2,3) call show ?thesis
  proof (cases rule: email_call_outcome)
    case (committed e)
    then have "e = EmailReserved email (rm_account_id g) (rm_verification_code g)"
      by (auto simp: email_handler_defs split: if_splits)
    with committed(1) code_sent_published [OF v] show ?thesis
      by (intro outcome_committed [OF committedI [OF assms(3) committed(2,3)], where y = EmailReservationServiceError.Unavailable])
        (auto simp: r)
  next
    case (rejected d)
    with assms(4) have "d = EmailReservationError.AlreadyReserved"
      by (auto simp: email_handler_defs material_ok_def code_ok_def split: if_splits)
    with rejected show ?thesis by (simp add: outcome_ok_def r)
  qed (auto simp: outcome_ok_def r)
qed

lemma request_code_outcome:
  assumes "codec_ok c" "email_executor_ok ex" "sys_inv uuid_fmt c w" "material_ok g"
    and "request_new_verification_code c (CqrsEmailReservationGateway_execute_with_outbox ex) g v4 email w = (w', r)"
  shows "service_outcome_ok (\<lambda>x e tasks. (e = VerificationCodeRequested email (rm_account_id g) (rm_verification_code g) \<or>
    e = VerificationRestarted email (rm_account_id g) (rm_verification_code g)) \<and>
    code_sent c email (rm_account_id g) (rm_verification_code g) tasks) w w' r"
proof -
  let ?command = "RequestVerificationCode email (rm_account_id g) (rm_verification_code g)"
  from send_task_built [OF assms(1), of v4] obtain v where
    t: "NewTask_new (cd_is_object c) (cd_empty c) v4 (SendVerificationCodeTaskV1_payload c
      \<lparr> sv_email = email, sv_account_id = rm_account_id g, sv_verification_code = rm_verification_code g \<rparr>) =
      Ok (published c v4 (lit ''send_verification_code'') v)"
    and v: "cd_read_send c v = Some \<lparr> sv_email = email, sv_account_id = rm_account_id g, sv_verification_code = rm_verification_code g \<rparr>"
    by blast
  let ?t = "published c v4 (lit ''send_verification_code'') v"
  obtain r' where call: "ex (aggregate_id ?command) ?command [?t] w = (w', r')" and r: "r = map_err request_code_error r'"
    using assms(5) by (auto simp: request_new_verification_code_def t Let_def CqrsEmailReservationGateway_execute_with_outbox_def
        split: prod.splits result.splits)
  from assms(2,3) call show ?thesis
  proof (cases rule: email_call_outcome)
    case (committed e)
    then have "e = VerificationCodeRequested email (rm_account_id g) (rm_verification_code g) \<or>
        e = VerificationRestarted email (rm_account_id g) (rm_verification_code g)"
      by (auto simp: email_handler_defs split: option.splits result.splits ReservationPhase.splits if_splits)
    with committed(1) code_sent_published [OF v] show ?thesis
      by (intro outcome_committed [OF committedI [OF assms(3) committed(2,3)], where y = EmailReservationServiceError.Unavailable])
        (auto simp: r)
  next
    case (rejected d)
    with assms(4) have "d = EmailReservationError.NotReserved \<or> d = EmailReservationError.AccountCreationStarted \<or>
        d = EmailReservationError.AccountIdUnchanged"
      by (auto simp: email_handler_defs material_ok_def code_ok_def split: option.splits result.splits ReservationPhase.splits if_splits)
    with rejected show ?thesis by (auto simp: outcome_ok_def r)
  qed (auto simp: outcome_ok_def r)
qed

lemma confirm_outcome:
  assumes "email_executor_ok ex" "sys_inv uuid_fmt c w"
    and "confirm_email sha256_hex (CqrsEmailReservationGateway_execute ex) g email account_id code w = (w', r)"
  shows "service_outcome_ok (\<lambda>x e tasks. x = \<lparr> ve_email = email, ve_account_id = account_id,
      ve_account_creation_token = rm_account_creation_token g \<rparr> \<and>
    e = EmailVerified email account_id (sha256_hex (rm_account_creation_token g)) \<and> tasks = []) w w' r"
proof (cases "1000000 \<le> code \<and> code \<le> 9999999")
  case True
  let ?command = "VerifyEmail email account_id code (sha256_hex (rm_account_creation_token g))"
  obtain r' where call: "ex (aggregate_id ?command) ?command [] w = (w', r')"
    and r: "r = (case r' of Err e \<Rightarrow> Err (confirm_error e) | Ok _ \<Rightarrow> Ok \<lparr> ve_email = email, ve_account_id = account_id,
      ve_account_creation_token = rm_account_creation_token g \<rparr>)"
    using assms(3) True by (auto simp: confirm_email_def Let_def CqrsEmailReservationGateway_execute_def
        CqrsEmailReservationGateway_execute_with_outbox_def split: prod.splits result.splits)
  from assms(1,2) call show ?thesis
  proof (cases rule: email_call_outcome)
    case (committed e)
    then have "e = EmailVerified email account_id (sha256_hex (rm_account_creation_token g))"
      by (auto simp: email_handler_defs split: ReservationPhase.splits if_splits)
    with committed(1) show ?thesis
      by (intro outcome_committed [OF committedI [OF assms(2) committed(2,3)], where y = EmailReservationServiceError.Unavailable])
        (auto simp: r)
  next
    case (rejected d)
    then have "d \<in> {EmailReservationError.NotReserved, EmailReservationError.NotCurrentAccountId,
        EmailReservationError.AlreadyVerified, EmailReservationError.AccountCreationStarted, EmailReservationError.InvalidVerificationCode}"
      by (auto simp: email_handler_defs split: ReservationPhase.splits if_splits)
    with rejected show ?thesis by (auto simp: outcome_ok_def r)
  qed (auto simp: outcome_ok_def r)
qed (use assms(3) in \<open>auto simp: confirm_email_def outcome_ok_def\<close>)

lemma submit_outcome:
  assumes "codec_ok c" "email_executor_ok ex" "sys_inv uuid_fmt c w"
    and "submit_profile sha256_hex date_naive c (CqrsEmailReservationGateway_execute_with_outbox ex) now v4 submission w = (w', r)"
  shows "outcome_ok (\<lambda>x. UserAccountsError_from x = UserAccountsError.Internal) (\<lambda>x. x = SubmissionError.Unavailable)
    (\<lambda>x e tasks. x = \<lparr> as_email = ps_email submission, as_account_id = ps_account_id submission \<rparr> \<and>
      (\<exists>d p t. e = RegistrationProfileAccepted (ps_email submission) (ps_account_id submission) d p \<and> tasks = [t] \<and>
        create_task_for c (ps_email submission) (ps_account_id submission) p t)) w w' r"
proof -
  define profile where "profile = RegistrationProfile_new (ps_first_name submission) (ps_last_name submission)
    (ps_date_of_birth submission) (date_naive now)"
  let ?x = "\<lparr> ct_email = ps_email submission, ct_account_id = ps_account_id submission, ct_profile = profile \<rparr>"
  let ?command = "SubmitRegistrationProfile (ps_email submission) (ps_account_id submission)
    (sha256_hex (ps_account_creation_token submission)) profile"
  from create_task_built [OF assms(1), of v4 ?x] obtain v where
    t: "NewTask_new (cd_is_object c) (cd_empty c) v4 (CreateAccountTaskV1_payload c ?x) = Ok (published c v4 (lit ''create_account'') v)"
    and v: "cd_read_create c v = Some ?x" by blast
  let ?t = "published c v4 (lit ''create_account'') v"
  obtain r' where call: "ex (aggregate_id ?command) ?command [?t] w = (w', r')"
    and r: "r = (case r' of Ok _ \<Rightarrow> Ok \<lparr> as_email = ps_email submission, as_account_id = ps_account_id submission \<rparr>
      | Err CommandGatewayError.Conflict \<Rightarrow> Err SubmissionError.Conflict
      | Err CommandGatewayError.Unavailable \<Rightarrow> Err SubmissionError.Unavailable
      | Err (CommandGatewayError.Domain e) \<Rightarrow> Err (SubmissionError.Domain e))"
    using assms(4) t
    by (auto simp: submit_profile_def Let_def profile_def [symmetric] CqrsEmailReservationGateway_execute_with_outbox_def
        split: prod.splits result.splits CommandGatewayError.splits)
  from assms(2,3) call show ?thesis
  proof (cases rule: email_call_outcome)
    case (committed e)
    have norm: "normalize_profile profile = profile" by (simp add: profile_def normalize_profile_def RegistrationProfile_new_def)
    from committed(3) have "e = RegistrationProfileAccepted (ps_email submission) (ps_account_id submission)
        (sha256_hex (ps_account_creation_token submission)) profile"
      by (simp add: handle_submit_profile_Ok norm)
    moreover have "create_task_for c (ps_email submission) (ps_account_id submission) profile ?t"
      by (simp add: create_task_for_def published_def v)
    ultimately show ?thesis using committed(1)
      by (intro outcome_committed [OF committedI [OF assms(3) committed(2,3)], where y = SubmissionError.Unavailable])
        (auto simp: r)
  next
    case (rejected d)
    then have "d \<in> {EmailReservationError.NotReserved, EmailReservationError.NotCurrentAccountId,
        EmailReservationError.NotAwaitingProfile, EmailReservationError.InvalidAccountCreationToken,
        EmailReservationError.ProfileAlreadySubmitted, EmailReservationError.EmptyFirstName,
        EmailReservationError.EmptyLastName, EmailReservationError.FutureDateOfBirth}"
      by (auto simp: email_handler_defs Let_def split: ReservationPhase.splits if_splits)
    with rejected show ?thesis by (auto simp: outcome_ok_def r)
  qed (auto simp: outcome_ok_def r)
qed

text \<open>From the outcome of a service call to the response.\<close>

definition honest :: "(rstring \<Rightarrow> rstring) \<Rightarrow> 'v codec \<Rightarrow> 'v system \<Rightarrow> 'v system \<Rightarrow> http_response \<Rightarrow> bool" where
  "honest sha256_hex c w w' response \<longleftrightarrow>
     rs_status response \<noteq> 500 \<and>
     (rs_status response < 400 \<longrightarrow> (\<exists>e tasks. committed w e tasks w' \<and> confirms_event sha256_hex c (rs_body response) e tasks)) \<and>
     (400 \<le> rs_status response \<and> rs_status response \<noteq> 503 \<longrightarrow> w' = w)"

lemma outcome_map:
  assumes "outcome_ok unexpected unavailable reports w w' r"
    and "\<And>x e tasks. reports x e tasks \<Longrightarrow> reports' (f x) e tasks"
    and "\<And>x. \<not> unexpected x \<Longrightarrow> \<not> unexpected' (g x)" "\<And>x. unavailable x \<Longrightarrow> unavailable' (g x)"
  shows "outcome_ok unexpected' unavailable' reports' w w' (case r of Ok x \<Rightarrow> Ok (f x) | Err x \<Rightarrow> Err (g x))"
proof (cases r)
  case (Ok x)
  with assms(1) obtain e tasks where "committed w e tasks w'" "reports x e tasks" by (auto simp: outcome_ok_def)
  with assms(2) Ok show ?thesis unfolding outcome_ok_def by (simp only: result.case) blast
next
  case (Err x)
  with assms(1,3,4) show ?thesis by (auto simp: outcome_ok_def)
qed

lemma answer_honest:
  assumes "outcome_ok (\<lambda>x. x = internal) (\<lambda>x. x = unavailable)
      (\<lambda>response e tasks. rs_status response < 400 \<and> confirms_event sha256_hex c (rs_body response) e tasks) w w' r"
    and "\<And>x. 400 \<le> rs_status (into_response x)" "\<And>x. rs_status (into_response x) = 500 \<longleftrightarrow> x = internal"
    and "\<And>x. rs_status (into_response x) = 503 \<longleftrightarrow> x = unavailable"
    and "answer into_response (w', r) = (w'', response)"
  shows "honest sha256_hex c w w'' response"
proof (cases r)
  case (Ok x)
  with assms(5) have "w'' = w'" "response = x" by simp_all
  moreover from Ok assms(1) obtain e tasks where "committed w e tasks w'" "rs_status x < 400"
    "confirms_event sha256_hex c (rs_body x) e tasks" by (auto simp: outcome_ok_def)
  ultimately show ?thesis unfolding honest_def by auto
next
  case (Err x)
  with assms(5) have "w'' = w'" "response = into_response x" by simp_all
  with Err assms(1) assms(2-4) [of x] show ?thesis by (auto simp: outcome_ok_def honest_def)
qed

lemmas answer_honest_email = answer_honest [where into_response = EmailReservationsError_into_response, OF _ conjunct1 [OF error_status(1)]
  conjunct1 [OF conjunct2 [OF error_status(1)]] conjunct2 [OF conjunct2 [OF error_status(1)]]]
lemmas answer_honest_account = answer_honest [where into_response = UserAccountsError_into_response, OF _ conjunct1 [OF error_status(2)]
  conjunct1 [OF conjunct2 [OF error_status(2)]] conjunct2 [OF conjunct2 [OF error_status(2)]]]

lemma rejected_outcome:
  "\<not> unexpected x \<Longrightarrow> outcome_ok unexpected unavailable reports w w (Err x)"
  by (simp add: outcome_ok_def)

lemma EmailReservationsError_from_iff [simp]:
  "EmailReservationsError_from x = EmailReservationsError.Internal \<longleftrightarrow> (\<exists>d. x = UnexpectedDomainRejection d)"
  "EmailReservationsError_from x = EmailReservationsError.Unavailable \<longleftrightarrow> x = EmailReservationServiceError.Unavailable"
   apply (cases x, simp_all)
  apply (cases x, simp_all)
  done

lemma reserve_honest:
  assumes "codec_ok c" "email_executor_ok ex" "sys_inv uuid_fmt c w" "material_ok g"
    and "router env sha256_hex date_naive c ex g now v4 (Reserve payload) w = (w', response)"
  shows "honest sha256_hex c w w' response"
proof -
  obtain w1 r where h: "reserve env (reserve_email c (CqrsEmailReservationGateway_execute_with_outbox ex) g v4) payload w = (w1, r)" by fastforce
  have "outcome_ok (\<lambda>x. x = EmailReservationsError.Internal) (\<lambda>x. x = EmailReservationsError.Unavailable)
      (\<lambda>response e tasks. rs_status response < 400 \<and> confirms_event sha256_hex c (rs_body response) e tasks) w w1 r"
  proof (cases "\<exists>request email. payload = Ok request \<and> parse_email env (rq_email request) = Ok email")
    case True
    then obtain request email where p: "payload = Ok request" "parse_email env (rq_email request) = Ok email" by blast
    obtain w2 r2 where call: "reserve_email c (CqrsEmailReservationGateway_execute_with_outbox ex) g v4 email w = (w2, r2)" by fastforce
    from h p call have "w1 = w2" and r: "r = (case r2 of Ok x \<Rightarrow> Ok \<lparr> rs_status = 202, rs_headers = [],
        rs_body = ReserveEmailResponse (re_email x) (re_account_id x) \<rparr> | Err x \<Rightarrow> Err (EmailReservationsError_from x))"
      by (auto simp: reserve_def split: result.splits)
    show ?thesis unfolding r \<open>w1 = w2\<close>
      by (rule outcome_map [OF reserve_outcome [OF assms(1-4) call]]) (auto simp: code_sent_def)
  next
    case False
    with h show ?thesis by (auto simp: reserve_def intro: rejected_outcome split: result.splits)
  qed
  from answer_honest_email [OF this] assms(5) h show ?thesis by simp
qed

lemma request_code_honest:
  assumes "codec_ok c" "email_executor_ok ex" "sys_inv uuid_fmt c w" "material_ok g"
    and "router env sha256_hex date_naive c ex g now v4 (RequestCode path) w = (w', response)"
  shows "honest sha256_hex c w w' response"
proof -
  obtain w1 r where h: "request_code env (request_new_verification_code c
      (CqrsEmailReservationGateway_execute_with_outbox ex) g v4) path w = (w1, r)" by fastforce
  have "outcome_ok (\<lambda>x. x = EmailReservationsError.Internal) (\<lambda>x. x = EmailReservationsError.Unavailable)
      (\<lambda>response e tasks. rs_status response < 400 \<and> confirms_event sha256_hex c (rs_body response) e tasks) w w1 r"
  proof (cases "\<exists>addr email. path = Ok addr \<and> parse_email env addr = Ok email")
    case True
    then obtain addr email where p: "path = Ok addr" "parse_email env addr = Ok email" by blast
    obtain w2 r2 where call: "request_new_verification_code c (CqrsEmailReservationGateway_execute_with_outbox ex) g v4 email w = (w2, r2)"
      by fastforce
    from h p call have "w1 = w2" and r: "r = (case r2 of Ok x \<Rightarrow> Ok \<lparr> rs_status = 202, rs_headers = [],
        rs_body = RequestCodeResponse ''verification_code_requested'' \<rparr> | Err x \<Rightarrow> Err (EmailReservationsError_from x))"
      by (auto simp: request_code_def split: result.splits)
    show ?thesis unfolding r \<open>w1 = w2\<close>
      by (rule outcome_map [OF request_code_outcome [OF assms(1-4) call]]) (auto simp: code_sent_def)
  next
    case False
    with h show ?thesis by (auto simp: request_code_def intro: rejected_outcome split: result.splits)
  qed
  from answer_honest_email [OF this] assms(5) h show ?thesis by simp
qed

lemma verify_honest:
  assumes "email_executor_ok ex" "sys_inv uuid_fmt c w"
    and "router env sha256_hex date_naive c ex g now v4 (Verify path payload) w = (w', response)"
  shows "honest sha256_hex c w w' response"
proof -
  obtain w1 r where h: "verify env (confirm_email sha256_hex (CqrsEmailReservationGateway_execute ex) g) path payload w = (w1, r)" by fastforce
  have "outcome_ok (\<lambda>x. x = EmailReservationsError.Internal) (\<lambda>x. x = EmailReservationsError.Unavailable)
      (\<lambda>response e tasks. rs_status response < 400 \<and> confirms_event sha256_hex c (rs_body response) e tasks) w w1 r"
  proof (cases "\<exists>addr email request i. path = Ok addr \<and> payload = Ok request \<and>
      parse_account_id env (vq_account_id request) = Ok i \<and> parse_email env addr = Ok email")
    case True
    then obtain addr email request i where p: "path = Ok addr" "payload = Ok request"
      "parse_account_id env (vq_account_id request) = Ok i" "parse_email env addr = Ok email" by blast
    obtain w2 r2 where call: "confirm_email sha256_hex (CqrsEmailReservationGateway_execute ex) g email i (vq_code request) w = (w2, r2)"
      by fastforce
    from h p call have "w1 = w2" and r: "r = (case r2 of Ok x \<Rightarrow> Ok \<lparr> rs_status = 200, rs_headers = [(''cache-control'', ''no-store'')],
        rs_body = VerifyEmailResponse (ve_email x) (ve_account_id x) (ve_account_creation_token x) \<rparr>
        | Err x \<Rightarrow> Err (EmailReservationsError_from x))"
      by (auto simp: verify_def split: result.splits)
    show ?thesis unfolding r \<open>w1 = w2\<close>
      by (rule outcome_map [OF confirm_outcome [OF assms(1,2) call]]) auto
  next
    case False
    with h show ?thesis by (auto simp: verify_def intro: rejected_outcome split: result.splits)
  qed
  from answer_honest_email [OF this] assms(3) h show ?thesis by simp
qed

lemma submit_honest:
  assumes "codec_ok c" "email_executor_ok ex" "sys_inv uuid_fmt c w"
    and "router env sha256_hex date_naive c ex g now v4 (SubmitProfile payload) w = (w', response)"
  shows "honest sha256_hex c w w' response"
proof -
  let ?service = "submit_profile sha256_hex date_naive c (CqrsEmailReservationGateway_execute_with_outbox ex) now v4"
  obtain w1 r where h: "submit_profile_handler env ?service payload w = (w1, r)" by fastforce
  have "outcome_ok (\<lambda>x. x = UserAccountsError.Internal) (\<lambda>x. x = UserAccountsError.Unavailable)
      (\<lambda>response e tasks. rs_status response < 400 \<and> confirms_event sha256_hex c (rs_body response) e tasks) w w1 r"
  proof (cases "\<exists>request email i dob. payload = Ok request \<and> parse_email env (sq_email request) = Ok email \<and>
      parse_account_id env (sq_account_id request) = Ok i \<and> he_date_parse env (sq_date_of_birth request) = Some dob")
    case True
    then obtain request email i dob where p: "payload = Ok request" "parse_email env (sq_email request) = Ok email"
      "parse_account_id env (sq_account_id request) = Ok i" "he_date_parse env (sq_date_of_birth request) = Some dob" by blast
    define submission where "submission = \<lparr> ps_email = email, ps_account_id = i,
        ps_account_creation_token = sq_account_creation_token request, ps_first_name = sq_first_name request,
        ps_last_name = sq_last_name request, ps_date_of_birth = dob \<rparr>"
    obtain w2 r2 where call: "?service submission w = (w2, r2)" by fastforce
    from h p call have "w1 = w2" and r: "r = (case r2 of Ok x \<Rightarrow> Ok \<lparr> rs_status = 202, rs_headers = [],
        rs_body = SubmitProfileResponse (as_account_id x)
          (lit ''/email-reservations/'' @ he_percent_encode env PATH_SEGMENT (as_str (as_email x)) @
           lit ''/registrations/'' @ UserAccountId_to_string (he_uuid_fmt env) (as_account_id x)) \<rparr>
        | Err x \<Rightarrow> Err (UserAccountsError_from x))"
      by (auto simp: submit_profile_handler_def submission_def split: result.splits)
    show ?thesis unfolding r \<open>w1 = w2\<close>
      by (rule outcome_map [OF submit_outcome [OF assms(1-3) call]]) auto
  next
    case False
    with h show ?thesis by (auto simp: submit_profile_handler_def intro: rejected_outcome split: result.splits option.splits)
  qed
  from answer_honest_account [OF this] assms(4) h show ?thesis by simp
qed

section \<open>A verification followed by a submission\<close>

lemma into_response_body [simp]:
  "rs_body (EmailReservationsError_into_response e) \<noteq> VerifyEmailResponse em i token"
  by (cases e) (simp_all add: EmailReservationsError_into_response_def with_retry_after_def error_response_def)

lemma verify_body:
  assumes "router env sha256_hex date_naive c ex g now v4 (Verify path payload) w = (w', response)"
    and "rs_body response = VerifyEmailResponse em i token"
  shows "rs_status response = 200" "\<exists>addr. parse_email env addr = Ok em"
proof -
  let ?service = "confirm_email sha256_hex (CqrsEmailReservationGateway_execute ex) g"
  obtain w1 r where h: "verify env ?service path payload w = (w1, r)" by fastforce
  with assms obtain x where r: "r = Ok x" "response = x" by (cases r) auto
  with h obtain addr request email id' verified where p: "path = Ok addr" "payload = Ok request" "parse_email env addr = Ok email"
    "?service email id' (vq_code request) w = (w1, Ok verified)"
    and x: "x = \<lparr> rs_status = 200, rs_headers = [(''cache-control'', ''no-store'')],
      rs_body = VerifyEmailResponse (ve_email verified) (ve_account_id verified) (ve_account_creation_token verified) \<rparr>"
    by (auto simp: verify_def split: result.splits prod.splits)
  from p(4) have "ve_email verified = email"
    by (auto simp: confirm_email_def Let_def split: if_splits prod.splits result.splits)
  with assms(2) r x p(3) show "rs_status response = 200" "\<exists>addr. parse_email env addr = Ok em" by auto
qed

lemma router_verify_inv:
  assumes "email_executor_ok ex" "sys_inv uuid_fmt c w"
    and "router env sha256_hex date_naive c ex g now v4 (Verify path payload) w = (w', response)"
  shows "sys_inv uuid_fmt c w'"
proof -
  let ?service = "confirm_email sha256_hex (CqrsEmailReservationGateway_execute ex) g"
  obtain w1 r where h: "verify env ?service path payload w = (w1, r)" by fastforce
  with assms(3) have "w' = w1" by (cases r) auto
  moreover from h have "w1 = w \<or> (\<exists>email i code r'. ?service email i code w = (w1, r'))"
    by (auto simp: verify_def split: result.splits prod.splits)
  ultimately show ?thesis using assms(2) confirm_inv [OF assms(1,2)] by blast
qed

lemma reliable_submit:
  assumes "codec_ok c" "sys_inv uuid_fmt c w"
    and h: "sy_mailboxes w (as_str em) = h @ [EmailVerified em i (sha256_hex token)]"
    and names: "trim first \<noteq> []" "trim last' \<noteq> []" "dob \<le> date_naive now"
  shows "\<exists>w'. submit_profile sha256_hex date_naive c (CqrsEmailReservationGateway_execute_with_outbox reliable_email) now v4
      \<lparr> ps_email = em, ps_account_id = i, ps_account_creation_token = token, ps_first_name = first, ps_last_name = last',
        ps_date_of_birth = dob \<rparr> w = (w', Ok \<lparr> as_email = em, as_account_id = i \<rparr>) \<and>
    accepted_in w' em i (RegistrationProfile_new first last' dob (date_naive now))"
proof -
  define profile where "profile = RegistrationProfile_new first last' dob (date_naive now)"
  have norm: "normalize_profile profile = profile" "profile_ok profile"
    using names by (simp_all add: profile_def normalize_profile_def RegistrationProfile_new_def profile_ok_def)
  from create_task_built [OF assms(1), of v4 "\<lparr> ct_email = em, ct_account_id = i, ct_profile = profile \<rparr>"] obtain v where
    t: "NewTask_new (cd_is_object c) (cd_empty c) v4 (CreateAccountTaskV1_payload c
      \<lparr> ct_email = em, ct_account_id = i, ct_profile = profile \<rparr>) = Ok (published c v4 (lit ''create_account'') v)" by blast
  let ?w' = "commit_mailbox (as_str em) [published c v4 (lit ''create_account'') v]
    [RegistrationProfileAccepted em i (sha256_hex token) profile] w"
  have "handle_submit_profile \<lparr>phase = AwaitingProfile i (sha256_hex token)\<rparr> em i (sha256_hex token) profile =
      Ok [RegistrationProfileAccepted em i (sha256_hex token) profile]"
    by (simp add: handle_submit_profile_Ok norm)
  moreover from assms(2) have "legal_history (sy_mailboxes w (as_str em))" by (simp add: sys_inv_defs)
  from legal_replay [OF this] h have "replay EmailReservation_apply EmailReservation_default (sy_mailboxes w (as_str em)) =
      Return \<lparr>phase = AwaitingProfile i (sha256_hex token)\<rparr>" by simp
  ultimately have "submit_profile sha256_hex date_naive c (CqrsEmailReservationGateway_execute_with_outbox reliable_email) now v4
      \<lparr> ps_email = em, ps_account_id = i, ps_account_creation_token = token, ps_first_name = first, ps_last_name = last',
        ps_date_of_birth = dob \<rparr> w = (?w', Ok \<lparr> as_email = em, as_account_id = i \<rparr>)"
    by (simp add: submit_profile_def Let_def profile_def [symmetric] t CqrsEmailReservationGateway_execute_with_outbox_def
        reliable_email_def reliable_def Email_to_string_def)
  then show ?thesis unfolding profile_def [symmetric] by (auto simp: accepted_in_def)
qed

lemma router_honest:
  assumes "codec_ok c" "email_executor_ok ex" "sys_inv uuid_fmt c w" "material_ok g"
    and "router env sha256_hex date_naive c ex g now v4 endpoint w = (w', response)"
  shows "honest sha256_hex c w w' response"
proof (cases endpoint)
  case (Reserve payload)
  with reserve_honest [OF assms(1-4)] assms(5) show ?thesis by blast
next
  case (RequestCode path)
  with request_code_honest [OF assms(1-4)] assms(5) show ?thesis by blast
next
  case (Verify path payload)
  with verify_honest [OF assms(2,3)] assms(5) show ?thesis by blast
next
  case RegistrationStatus
  with assms(5) show ?thesis by (auto simp: honest_def registration_status_not_implemented_def error_response_def)
next
  case (SubmitProfile payload)
  with submit_honest [OF assms(1-3)] assms(5) show ?thesis by blast
qed

section \<open>Properties\<close>

definition demo_http :: http_env where
  "demo_http = \<lparr> he_lower = ascii_lower, he_address = plain_address, he_uuid_fmt = demo_fmt,
     he_uuid_parse = (\<lambda>s. case s of [n] \<Rightarrow> Ok (of_nat n) | _ \<Rightarrow> Err ()), he_date_parse = (\<lambda>_. Some 10),
     he_percent_encode = (\<lambda>P s. map (\<lambda>ch. if P ch then 37 else ch) s) \<rparr>"

text \<open>
  A client can rely on the response. In every reachable state a success response is sent
  only when the event it speaks of and its tasks were committed: the reserved identifier, the
  code on its way, the token whose digest was stored, the accepted profile on its way to become
  an account. Every failure other than 503 left the whole system unchanged, and no request ends
  in an internal error.
\<close>

theorem responses_tell_what_happened:
  assumes "codec_ok c" and "reaches sha256_hex date_naive uuid_fmt c empty_system w"
    and "email_executor_ok ex" and "material_ok g"
    and "router env sha256_hex date_naive c ex g now v4 endpoint w = (w', response)"
  shows "rs_status response \<noteq> 500 \<and>
    (rs_status response < 400 \<longrightarrow> (\<exists>e tasks. legal_history (sy_mailboxes w (as_str (event_email e)) @ [e]) \<and>
      w' = commit_mailbox (as_str (event_email e)) tasks [e] w \<and> confirms_event sha256_hex c (rs_body response) e tasks)) \<and>
    (400 \<le> rs_status response \<and> rs_status response \<noteq> 503 \<longrightarrow> w' = w)"
  using router_honest [OF assms(1,3) reaches_inv [OF assms(1,2) empty_system_inv] assms(4,5)]
  by (simp add: honest_def committed_def conj_assoc)

lemma demo_parsed: "parse_email demo_http (lit ''a@b.c'') = Ok demo_email"
  by (simp add: demo_http_def Email_parse_def ascii_lower_def plain_address_def quote_char_def demo_email_def trim_def
      is_whitespace_def lit_def)

lemma demo_reserve_response:
  "\<exists>w'. router demo_http id id demo_codec reliable_email demo_generator 20 0 (Reserve (Ok \<lparr> rq_email = lit ''a@b.c'' \<rparr>)) empty_system =
     (w', \<lparr> rs_status = 202, rs_headers = [], rs_body = ReserveEmailResponse demo_email (UserAccountId 2) \<rparr>)"
  using demo_parsed by (simp add: reserve_def demo_system_defs Let_def)

theorem responses_tell_what_happened_witness:
  "\<exists>w' response e tasks.
     router demo_http id id demo_codec reliable_email demo_generator 20 0 (Reserve (Ok \<lparr> rq_email = lit ''a@b.c'' \<rparr>)) empty_system =
       (w', response) \<and> rs_status response = 202 \<and>
     w' = commit_mailbox (as_str (event_email e)) tasks [e] empty_system \<and> confirms_event id demo_codec (rs_body response) e tasks"
proof -
  from demo_reserve_response obtain w' where r: "router demo_http id id demo_codec reliable_email demo_generator 20 0
      (Reserve (Ok \<lparr> rq_email = lit ''a@b.c'' \<rparr>)) empty_system =
      (w', \<lparr> rs_status = 202, rs_headers = [], rs_body = ReserveEmailResponse demo_email (UserAccountId 2) \<rparr>)" by blast
  have "material_ok demo_generator" by (simp add: material_ok_def demo_generator_def code_ok_def)
  from responses_tell_what_happened [OF demo_codec_ok rtranclp.rtrancl_refl reliable_ok(1) this r] r
  show ?thesis by auto
qed


lemma demo_http_laws: "address_laws (he_lower demo_http) (he_address demo_http)"
  "he_uuid_parse demo_http (he_uuid_fmt demo_http u) = Ok u"
  using ascii_address_laws by (simp_all add: demo_http_def demo_fmt_def)

lemma demo_verify_response:
  "\<exists>w' response. router demo_http id id demo_codec reliable_email demo_generator 20 0
      (Verify (Ok (lit ''a@b.c'')) (Ok \<lparr> vq_account_id = demo_fmt 2, vq_code = 1234567 \<rparr>)) demo_reserved = (w', response) \<and>
     rs_body response = VerifyEmailResponse demo_email (UserAccountId 2) (lit ''d'')"
proof -
  have i: "parse_account_id demo_http (demo_fmt 2) = Ok (UserAccountId 2)"
    by (simp add: UserAccountId_from_str_def demo_http_def demo_fmt_def)
  have s: "sy_mailboxes demo_reserved = (\<lambda>_. [])(as_str demo_email := [EmailReserved demo_email (UserAccountId 2) 1234567])"
    by (simp add: demo_system_defs Let_def)
  have "\<exists>w'. confirm_email id (CqrsEmailReservationGateway_execute reliable_email) demo_generator demo_email (UserAccountId 2) 1234567
      demo_reserved = (w', Ok \<lparr> ve_email = demo_email, ve_account_id = UserAccountId 2, ve_account_creation_token = lit ''d'' \<rparr>)"
    by (simp add: confirm_email_def CqrsEmailReservationGateway_execute_def CqrsEmailReservationGateway_execute_with_outbox_def
        reliable_email_def reliable_def s Email_to_string_def EmailReservation_default_def handle_verify_def ensure_code_format_def
        demo_generator_def Let_def)
  with demo_parsed i show ?thesis by (auto simp: verify_def)
qed


end
