(* ===== verification/Startup.thy ===== *)
theory Startup
  imports Host Http_Api
begin

text \<open>
  The executable of the service: its settings (\<open>config.rs\<close>), the wiring of its parts, and the start,
  run and end of the process (\<open>startup\<close>, \<open>main.rs\<close>).

  What the operating system and the libraries answer during a start is an argument (\<open>boot\<close>): the
  dotenv file, the environment, the logger, the database driver, the listener. Every operation
  returns the list of its effects, in order, with its result.
\<close>

section \<open>Settings\<close>

definition ENV_KEYS :: "string list" where
  "ENV_KEYS = [''DATABASE_URL'', ''BIND_ADDRESS'', ''RUST_LOG'', ''OUTBOX_STORAGE_TIMEOUT_MS'',
     ''OUTBOX_WORKER_CONCURRENCY'', ''OUTBOX_QUEUE_CAPACITY'', ''OUTBOX_POLL_INTERVAL_MS'',
     ''OUTBOX_HANDLER_TIMEOUT_SECS'', ''OUTBOX_LEASE_SECS'', ''OUTBOX_POSTGRES_STATEMENT_TIMEOUT_MS'']"

record ('db, 'addr, 'l) ServiceConfig =
  sv_database :: 'db
  sv_bind_address :: 'addr
  sv_logging :: "'l LoggingConfig"
  sv_task_runtime :: TaskRuntimeConfig
  sv_task_queue :: PostgresTaskQueueConfig

datatype VarError = NotPresent | NotUnicode rstring

datatype ('de, 'ae, 'le) ServiceConfigError =
    Missing string
  | NonUnicode string VarError
  | DatabaseScheme
  | Database 'de
  | Bind 'ae
  | Logging 'le
  | Tasks TaskRuntimeConfigError
  | PostgresQueue PostgresTaskQueueConfigError

text \<open>\<open>str::split_once\<close> and \<open>eq_ignore_ascii_case\<close>.\<close>

fun split_once :: "rstring \<Rightarrow> rstring \<Rightarrow> (rstring \<times> rstring) option" where
  "split_once sep [] = (if sep = [] then Some ([], []) else None)"
| "split_once sep (ch # s) =
     (if take (length sep) (ch # s) = sep then Some ([], drop (length sep) (ch # s))
      else map_option (\<lambda>(a, b). (ch # a, b)) (split_once sep s))"

definition eq_ignore_ascii_case :: "rstring \<Rightarrow> rstring \<Rightarrow> bool" where
  "eq_ignore_ascii_case a b \<longleftrightarrow> ascii_lower a = ascii_lower b"

definition scheme_ok :: "rstring \<Rightarrow> bool" where
  "scheme_ok url =
     (case split_once (lit ''://'') url of
        Some (scheme, _) \<Rightarrow> eq_ignore_ascii_case scheme (lit ''postgres'') \<or> eq_ignore_ascii_case scheme (lit ''postgresql'')
      | None \<Rightarrow> False)"

text \<open>The parsers of connection options, socket addresses and log levels.\<close>

record ('db, 'de, 'addr, 'ae, 'l, 'le) parsers =
  ps_database :: "rstring \<Rightarrow> ('db, 'de) result"
  ps_address :: "rstring \<Rightarrow> ('addr, 'ae) result"
  ps_level :: "rstring \<Rightarrow> ('l, 'le) result"

definition ServiceConfig_from_lookup ::
  "('db, 'de, 'addr, 'ae, 'l, 'le) parsers \<Rightarrow> (string \<Rightarrow> rstring option)
     \<Rightarrow> (('db, 'addr, 'l) ServiceConfig, ('de, 'ae, 'le) ServiceConfigError) result" where
  "ServiceConfig_from_lookup ps lookup =
     bind_result (ok_or (lookup ''DATABASE_URL'') (Missing ''DATABASE_URL'')) (\<lambda>url.
     if \<not> scheme_ok url then Err DatabaseScheme
     else
     bind_result (map_err ServiceConfigError.Database (ps_database ps url)) (\<lambda>database.
     bind_result (ok_or (lookup ''BIND_ADDRESS'') (Missing ''BIND_ADDRESS'')) (\<lambda>addr.
     bind_result (map_err Bind (ps_address ps addr)) (\<lambda>bind_address.
     bind_result (map_err Logging (LoggingConfig_from_lookup (ps_level ps) lookup)) (\<lambda>logging.
     bind_result (map_err Tasks (TaskRuntimeConfig_from_lookup lookup)) (\<lambda>task_runtime.
     bind_result (map_err PostgresQueue (PostgresTaskQueueConfig_from_lookup lookup)) (\<lambda>task_queue.
       Ok \<lparr> sv_database = database, sv_bind_address = bind_address, sv_logging = logging,
            sv_task_runtime = task_runtime, sv_task_queue = task_queue \<rparr>)))))))"

text \<open>The loop over the names: a map of the settings that are present.\<close>

fun read_settings ::
  "(string \<Rightarrow> (rstring, VarError) result) \<Rightarrow> string list \<Rightarrow> (string \<rightharpoonup> rstring)
     \<Rightarrow> (string \<rightharpoonup> rstring, ('de, 'ae, 'le) ServiceConfigError) result" where
  "read_settings read [] settings = Ok settings"
| "read_settings read (name # names) settings =
     (case read name of
        Ok v \<Rightarrow> read_settings read names (settings(name \<mapsto> v))
      | Err NotPresent \<Rightarrow> read_settings read names settings
      | Err source \<Rightarrow> Err (NonUnicode name source))"

definition ServiceConfig_from_environment ::
  "('db, 'de, 'addr, 'ae, 'l, 'le) parsers \<Rightarrow> (string \<Rightarrow> (rstring, VarError) result)
     \<Rightarrow> (('db, 'addr, 'l) ServiceConfig, ('de, 'ae, 'le) ServiceConfigError) result" where
  "ServiceConfig_from_environment ps read =
     bind_result (read_settings read ENV_KEYS (\<lambda>_. None)) (\<lambda>settings. ServiceConfig_from_lookup ps settings)"

text \<open>The \<open>Debug\<close> of a configuration: connection options are never formatted.\<close>

datatype ('addr, 'l) config_field =
    Redacted string
  | Address 'addr
  | LoggingField "'l LoggingConfig"
  | RuntimeField TaskRuntimeConfig
  | QueueField PostgresTaskQueueConfig

definition ServiceConfig_debug :: "('db, 'addr, 'l) ServiceConfig \<Rightarrow> string \<times> (string \<times> ('addr, 'l) config_field) list" where
  "ServiceConfig_debug self = (''ServiceConfig'',
     [(''database'', Redacted ''[redacted]''), (''bind_address'', Address (sv_bind_address self)),
      (''logging'', LoggingField (sv_logging self)), (''task_runtime'', RuntimeField (sv_task_runtime self)),
      (''task_queue'', QueueField (sv_task_queue self))])"

section \<open>Failures of the service\<close>

record dotenv_error =
  de_not_found :: bool
  de_text :: rstring

datatype ('ce, 'ie) ServiceError =
    Dotenv dotenv_error
  | Configuration 'ce
  | Logging 'ie
  | Database sqlx_error
  | TaskPreparation WorkerSetupError
  | Bind io_error
  | Host HostError

fun stage :: "('ce, 'ie) ServiceError \<Rightarrow> string" where
  "stage (Dotenv _) = ''dotenv''"
| "stage (ServiceError.Configuration _) = ''configuration''"
| "stage (ServiceError.Logging _) = ''logging''"
| "stage (ServiceError.Database _) = ''database''"
| "stage (TaskPreparation _) = ''task_preparation''"
| "stage (ServiceError.Bind _) = ''http_bind''"
| "stage (Host _) = ''host''"

text \<open>The \<open>Display\<close> texts of configuration errors, whose \<open>Debug\<close> is the same text.\<close>

fun TaskWorkerPoolConfigError_to_string :: "TaskWorkerPoolConfigError \<Rightarrow> string" where
  "TaskWorkerPoolConfigError_to_string (TaskWorkerPoolConfigError.InvalidEnvironmentValue name) = ''invalid integer setting: '' @ name"
| "TaskWorkerPoolConfigError_to_string InvalidConcurrency = ''worker count must be positive''"
| "TaskWorkerPoolConfigError_to_string InvalidQueueCapacity =
     ''queue capacity must be positive and supported by the bounded channel''"
| "TaskWorkerPoolConfigError_to_string InvalidPollInterval = ''poll interval must be positive and representable''"
| "TaskWorkerPoolConfigError_to_string InvalidHandlerTimeout = ''handler timeout must be positive and shorter than the lease''"
| "TaskWorkerPoolConfigError_to_string InvalidLeaseDuration = ''lease duration must be positive and representable''"
| "TaskWorkerPoolConfigError_to_string TaskWorkerPoolConfigError.InvalidStorageTimeout = ''storage timeout must be positive''"
| "TaskWorkerPoolConfigError_to_string LeaseBudgetOverflow = ''lease budget overflows''"
| "TaskWorkerPoolConfigError_to_string LeaseTooShort =
     ''lease must exceed claim + queued waves + handler + settlement + 5-second safety margin''"

fun TaskStorageConfigError_to_string :: "TaskStorageConfigError \<Rightarrow> string" where
  "TaskStorageConfigError_to_string TaskStorageConfigError.InvalidEnvironmentValue =
     ''OUTBOX_STORAGE_TIMEOUT_MS must be an unsigned integer''"
| "TaskStorageConfigError_to_string TaskStorageConfigError.InvalidStorageTimeout = ''storage timeout must be positive and representable''"

fun TaskRuntimeConfigError_to_string :: "TaskRuntimeConfigError \<Rightarrow> string" where
  "TaskRuntimeConfigError_to_string (Storage e) = TaskStorageConfigError_to_string e"
| "TaskRuntimeConfigError_to_string (Worker e) = TaskWorkerPoolConfigError_to_string e"

fun PostgresTaskQueueConfigError_to_string :: "PostgresTaskQueueConfigError \<Rightarrow> string" where
  "PostgresTaskQueueConfigError_to_string PostgresTaskQueueConfigError.InvalidEnvironmentValue =
     ''OUTBOX_POSTGRES_STATEMENT_TIMEOUT_MS must be an unsigned integer''"
| "PostgresTaskQueueConfigError_to_string InvalidStatementTimeout = ''statement timeout must be 1..=2147483647 milliseconds''"

fun ServiceConfigError_to_string :: "('de, 'ae, 'le) ServiceConfigError \<Rightarrow> string" where
  "ServiceConfigError_to_string (Missing name) = ''missing required setting: '' @ name"
| "ServiceConfigError_to_string (NonUnicode name _) = ''non-Unicode setting: '' @ name"
| "ServiceConfigError_to_string DatabaseScheme = ''DATABASE_URL must use postgres:// or postgresql://''"
| "ServiceConfigError_to_string (ServiceConfigError.Database _) = ''invalid DATABASE_URL''"
| "ServiceConfigError_to_string (ServiceConfigError.Bind _) = ''BIND_ADDRESS must be a numeric IPv4/IPv6 address and port''"
| "ServiceConfigError_to_string (ServiceConfigError.Logging _) = ''invalid RUST_LOG level''"
| "ServiceConfigError_to_string (Tasks e) = ''invalid task_runtime configuration: '' @ TaskRuntimeConfigError_to_string e"
| "ServiceConfigError_to_string (PostgresQueue e) =
     ''invalid PostgreSQL task_runtime configuration: '' @ PostgresTaskQueueConfigError_to_string e"

type_synonym ('de, 'ae, 'le, 'ie) service_error = "(('de, 'ae, 'le) ServiceConfigError, 'ie) ServiceError"

fun ServiceError_to_string :: "('de, 'ae, 'le, 'ie) service_error \<Rightarrow> string" where
  "ServiceError_to_string (Dotenv _) = ''unable to load dotenv configuration''"
| "ServiceError_to_string (ServiceError.Configuration e) = ServiceConfigError_to_string e"
| "ServiceError_to_string (ServiceError.Logging _) = ''unable to initialize process logger''"
| "ServiceError_to_string (ServiceError.Database _) = ''unable to connect to PostgreSQL''"
| "ServiceError_to_string (TaskPreparation _) = ''unable to prepare task runtime''"
| "ServiceError_to_string (ServiceError.Bind _) = ''unable to bind HTTP listener''"
| "ServiceError_to_string (Host e) = HostError_to_string e"

fun ServiceError_debug :: "('de, 'ae, 'le, 'ie) service_error \<Rightarrow> debug_out" where
  "ServiceError_debug (Host error) = DebugTuple ''Host'' [HostError_debug error]"
| "ServiceError_debug e = DebugStruct ''ServiceError''
     [(''stage'', DebugString (lit (stage e))), (''message'', DebugString (lit (ServiceError_to_string e)))]"

datatype service_log =
    StartupFailed string string
  | HostFailed "(string \<times> debug_out) list \<times> string"
  | ServiceStopped

fun ServiceError_log :: "('de, 'ae, 'le, 'ie) service_error \<Rightarrow> service_log" where
  "ServiceError_log (Host error) = HostFailed (HostError_log error ''service stopped with an error'')"
| "ServiceError_log e = StartupFailed (stage e) (ServiceError_to_string e)"

definition load_dotenv_with :: "('path, dotenv_error) result \<Rightarrow> (unit, ('ce, 'ie) ServiceError) result" where
  "load_dotenv_with loaded =
     (case loaded of Ok _ \<Rightarrow> Ok () | Err e \<Rightarrow> if de_not_found e then Ok () else Err (Dotenv e))"

section \<open>Wiring\<close>

text \<open>
  The parts of the application. The material, times and identifiers drawn during a call are
  arguments of the router and of a dispatcher; \<open>email_command\<close> and \<open>account_command\<close> are the
  executors that \<open>command_executor\<close> assembles over the pool.
\<close>

record ('v, 'w) ApplicationParts =
  ap_router :: "material \<Rightarrow> DateTime \<Rightarrow> Uuid \<Rightarrow> endpoint \<Rightarrow> 'w \<Rightarrow> 'w \<times> http_response"
  ap_dispatcher_factory :: "DateTime \<Rightarrow> Uuid \<Rightarrow> (('v, 'w) TaskDispatcher, TaskDispatcherError) result"

definition build ::
  "http_env \<Rightarrow> (rstring \<Rightarrow> rstring) \<Rightarrow> (DateTime \<Rightarrow> NaiveDate) \<Rightarrow> 'v codec
     \<Rightarrow> (rstring \<Rightarrow> 'w \<Rightarrow> 'w \<times> bool) \<Rightarrow> ('w \<Rightarrow> 'w \<times> bool)
     \<Rightarrow> (PostgresCommandConfig \<Rightarrow> ('w, EmailReservationCommand, 'v, EmailReservationError) executor)
     \<Rightarrow> (PostgresCommandConfig \<Rightarrow> ('w, UserAccountCommand, 'v, UserAccountError) executor)
     \<Rightarrow> ('v, 'w) ApplicationParts run" where
  "build env sha256_hex date_naive c write_all flush email_command account_command =
     bind_run PostgresCommandConfig_default (\<lambda>command_config.
       Return \<lparr> ap_router = router env sha256_hex date_naive c (email_command command_config),
                ap_dispatcher_factory = build_dispatcher c (he_uuid_fmt env) write_all flush
                  (email_command command_config) (account_command command_config) \<rparr>)"

text \<open>\<open>postgres::task_runtime_factory::prepare_task_runtime\<close>: the queue over the pool, and the runtime.\<close>

record 'pool PostgresTaskQueue =
  pq_pool :: 'pool
  pq_config :: PostgresTaskQueueConfig

definition prepare_task_runtime ::
  "'pool \<Rightarrow> ('f, 'v, 'w) TaskDispatcherFactory \<Rightarrow> PostgresTaskQueueConfig \<Rightarrow> TaskRuntimeConfig \<Rightarrow> 'f
     \<Rightarrow> 'f \<times> ('pool PostgresTaskQueue \<times> ('v, 'w) TaskRuntime, WorkerSetupError) result" where
  "prepare_task_runtime pool factory queue_config runtime_config f =
     (let queue = \<lparr> pq_pool = pool, pq_config = queue_config \<rparr> in
      case prepare factory runtime_config f of
        (f', Err e) \<Rightarrow> (f', Err e)
      | (f', Ok runtime) \<Rightarrow> (f', Ok (queue, runtime)))"

section \<open>The process\<close>

datatype process_event =
    LoggerInstalled
  | StorageLogged log_event
  | PoolOpened
  | TasksReady
  | ListenerOpened
  | PoolClosed
  | HostRan "host_event list"
  | Reported service_log

text \<open>
  What the environment answers: the logger, the driver, the listener and its address, and
  whether the level of \<open>info!\<close> is enabled, since only then is the address asked for.
\<close>

record ('db, 'pool, 'ie, 'addr, 'li) boot =
  bt_try_init :: "(unit, 'ie) result"
  bt_connect_with :: "nat \<Rightarrow> 'db \<Rightarrow> ('pool, sqlx_error) result"
  bt_bind :: "'addr \<Rightarrow> ('li, io_error) result"
  bt_info_enabled :: bool
  bt_local_addr :: "'li \<Rightarrow> ('addr, io_error) result"

record ('pool, 'li, 'v, 'w) Service =
  se_pool :: 'pool
  se_listener :: 'li
  se_tasks :: "'pool PostgresTaskQueue \<times> ('v, 'w) TaskRuntime"

definition ServiceConfig_load ::
  "('db, 'de, 'addr, 'ae, 'l, 'le) parsers \<Rightarrow> ('path, dotenv_error) result \<Rightarrow> (string \<Rightarrow> (rstring, VarError) result)
     \<Rightarrow> process_event list \<times>
        (('db, 'addr, 'l) ServiceConfig, (('de, 'ae, 'le) ServiceConfigError, 'ie) ServiceError) result" where
  "ServiceConfig_load ps dotenv read =
     (let result = bind_result (load_dotenv_with dotenv) (\<lambda>_.
            map_err ServiceError.Configuration (ServiceConfig_from_environment ps read)) in
      case result of
        Err e \<Rightarrow> ([Reported (ServiceError_log e)], Err e)
      | Ok config \<Rightarrow> ([], Ok config))"

definition open_listener ::
  "('db, 'pool, 'ie, 'addr, 'li) boot \<Rightarrow> 'addr \<Rightarrow> process_event list \<times> ('li, ('de, 'ae, 'le, 'ie) service_error) result" where
  "open_listener b addr =
     (case bt_bind b addr of
        Err e \<Rightarrow> ([], Err (ServiceError.Bind e))
      | Ok listener \<Rightarrow>
          if bt_info_enabled b
          then (case bt_local_addr b listener of
                  Err e \<Rightarrow> ([ListenerOpened], Err (ServiceError.Bind e))
                | Ok _ \<Rightarrow> ([ListenerOpened], Ok listener))
          else ([ListenerOpened], Ok listener))"

definition prepare_connected ::
  "('db, 'pool, 'ie, 'addr, 'li) boot \<Rightarrow> ('db, 'addr, 'l) ServiceConfig \<Rightarrow> 'pool \<Rightarrow> ('f, 'v, 'w) TaskDispatcherFactory \<Rightarrow> 'f
     \<Rightarrow> process_event list \<times> (('pool, 'li, 'v, 'w) Service, ('de, 'ae, 'le, 'ie) service_error) result" where
  "prepare_connected b config pool factory f =
     (case snd (prepare_task_runtime pool factory (sv_task_queue config) (sv_task_runtime config) f) of
        Err e \<Rightarrow> ([PoolClosed], Err (TaskPreparation e))
      | Ok tasks \<Rightarrow>
          (case open_listener b (sv_bind_address config) of
             (events, Err e) \<Rightarrow> ([TasksReady] @ events @ [PoolClosed], Err e)
           | (events, Ok listener) \<Rightarrow> ([TasksReady] @ events,
               Ok \<lparr> se_pool = pool, se_listener = listener, se_tasks = tasks \<rparr>)))"

definition prepare_stages ::
  "('db, 'pool, 'ie, 'addr, 'li) boot \<Rightarrow> ('db, 'addr, 'l) ServiceConfig \<Rightarrow> ('pool \<Rightarrow> ('f, 'v, 'w) TaskDispatcherFactory) \<Rightarrow> 'f
     \<Rightarrow> process_event list \<times> (('pool, 'li, 'v, 'w) Service, ('de, 'ae, 'le, 'ie) service_error) result" where
  "prepare_stages b config factory f =
     (case bt_try_init b of
        Err e \<Rightarrow> ([], Err (ServiceError.Logging e))
      | Ok _ \<Rightarrow>
          (case connect_pool (bt_connect_with b) (sv_database config) of
             (logs, Err e) \<Rightarrow> ([LoggerInstalled] @ map StorageLogged logs, Err (ServiceError.Database e))
           | (logs, Ok pool) \<Rightarrow>
               (case prepare_connected b config pool (factory pool) f of
                  (events, r) \<Rightarrow> ([LoggerInstalled] @ map StorageLogged logs @ [PoolOpened] @ events, r))))"

definition Service_prepare ::
  "('db, 'pool, 'ie, 'addr, 'li) boot \<Rightarrow> ('db, 'addr, 'l) ServiceConfig \<Rightarrow> ('pool \<Rightarrow> ('f, 'v, 'w) TaskDispatcherFactory) \<Rightarrow> 'f
     \<Rightarrow> process_event list \<times> (('pool, 'li, 'v, 'w) Service, ('de, 'ae, 'le, 'ie) service_error) result" where
  "Service_prepare b config factory f =
     (case prepare_stages b config factory f of
        (events, Err e) \<Rightarrow> (events @ [Reported (ServiceError_log e)], Err e)
      | (events, Ok service) \<Rightarrow> (events, Ok service))"

text \<open>
  \<open>run_until\<close> over the polls of the host and the exits of its components; None while it runs.
\<close>

definition run_until ::
  "host_poll list \<Rightarrow> (unit, io_error) result \<Rightarrow> TaskRuntimeExit
     \<Rightarrow> (process_event list \<times> (unit, ('de, 'ae, 'le, 'ie) service_error) result) option" where
  "run_until polls http tasks =
     map_option (\<lambda>(events, r).
       let result = map_err Host r in
       ([HostRan events, PoolClosed, Reported (case result of Ok _ \<Rightarrow> ServiceStopped | Err e \<Rightarrow> ServiceError_log e)], result))
       (host_run polls http tasks)"

definition main ::
  "('db, 'de, 'addr, 'ae, 'l, 'le) parsers \<Rightarrow> ('path, dotenv_error) result \<Rightarrow> (string \<Rightarrow> (rstring, VarError) result)
     \<Rightarrow> ('db, 'pool, 'ie, 'addr, 'li) boot \<Rightarrow> ('pool \<Rightarrow> ('f, 'v, 'w) TaskDispatcherFactory) \<Rightarrow> 'f
     \<Rightarrow> host_poll list \<Rightarrow> (unit, io_error) result \<Rightarrow> TaskRuntimeExit
     \<Rightarrow> (process_event list \<times> (unit, ('de, 'ae, 'le, 'ie) service_error) result) option" where
  "main ps dotenv read b factory f polls http tasks =
     (case ServiceConfig_load ps dotenv read of
        (events, Err e) \<Rightarrow> Some (events, Err e)
      | (events, Ok config) \<Rightarrow>
          (case Service_prepare b config factory f of
             (events', Err e) \<Rightarrow> Some (events @ events', Err e)
           | (events', Ok service) \<Rightarrow>
               map_option (\<lambda>(events'', r). (events @ events' @ events'', r)) (run_until polls http tasks)))"

section \<open>Facts\<close>

text \<open>Every setting that is looked up is one of the names that are read.\<close>

lemma from_lookup_cong:
  assumes "\<And>name. name \<in> set ENV_KEYS \<Longrightarrow> lookup name = lookup' name"
  shows "ServiceConfig_from_lookup ps lookup = ServiceConfig_from_lookup ps lookup'"
proof -
  have same: "lookup ''DATABASE_URL'' = lookup' ''DATABASE_URL''" "lookup ''BIND_ADDRESS'' = lookup' ''BIND_ADDRESS''"
    "lookup ''RUST_LOG'' = lookup' ''RUST_LOG''" "lookup ''OUTBOX_STORAGE_TIMEOUT_MS'' = lookup' ''OUTBOX_STORAGE_TIMEOUT_MS''"
    "lookup ''OUTBOX_WORKER_CONCURRENCY'' = lookup' ''OUTBOX_WORKER_CONCURRENCY''"
    "lookup ''OUTBOX_QUEUE_CAPACITY'' = lookup' ''OUTBOX_QUEUE_CAPACITY''"
    "lookup ''OUTBOX_POLL_INTERVAL_MS'' = lookup' ''OUTBOX_POLL_INTERVAL_MS''"
    "lookup ''OUTBOX_HANDLER_TIMEOUT_SECS'' = lookup' ''OUTBOX_HANDLER_TIMEOUT_SECS''"
    "lookup ''OUTBOX_LEASE_SECS'' = lookup' ''OUTBOX_LEASE_SECS''"
    "lookup ''OUTBOX_POSTGRES_STATEMENT_TIMEOUT_MS'' = lookup' ''OUTBOX_POSTGRES_STATEMENT_TIMEOUT_MS''"
    by (intro assms; simp add: ENV_KEYS_def)+
  show ?thesis
    by (simp only: ServiceConfig_from_lookup_def LoggingConfig_from_lookup_def TaskRuntimeConfig_from_lookup_def
        TaskStorageConfig_from_lookup_def TaskWorkerPoolConfig_from_lookup_def PostgresTaskQueueConfig_from_lookup_def
        read_u64_def Let_def same)
qed

lemma read_settings_Ok:
  assumes "\<forall>name\<in>set names. \<forall>v. read name \<noteq> Err (NotUnicode v)"
  shows "read_settings read names settings = Ok (\<lambda>name. if name \<in> set names \<and> (\<exists>v. read name = Ok v)
    then (case read name of Ok v \<Rightarrow> Some v | Err _ \<Rightarrow> None) else settings name)"
  using assms
proof (induction names arbitrary: settings)
  case (Cons n names)
  then have "\<forall>name\<in>set names. \<forall>v. read name \<noteq> Err (NotUnicode v)" by simp
  note ih = Cons.IH [OF this]
  show ?case
  proof (cases "read n")
    case (Ok v)
    then show ?thesis by (auto simp: ih fun_eq_iff split: if_splits)
  next
    case (Err e)
    with Cons.prems have "e = NotPresent" by (cases e) auto
    with Err show ?thesis by (auto simp: ih fun_eq_iff)
  qed
qed simp

lemma read_settings_Err:
  assumes "\<forall>name\<in>set ns. \<forall>v. read name \<noteq> Err (NotUnicode v)" "read name = Err (NotUnicode v)"
  shows "read_settings read (ns @ name # names) settings = Err (NonUnicode name (NotUnicode v))"
  using assms
proof (induction ns arbitrary: settings)
  case (Cons n ns)
  then show ?case by (cases "read n") (auto split: VarError.splits)
qed simp

text \<open>The effects on resources and the reports of a run.\<close>

definition on_resource :: "process_event \<Rightarrow> bool" where
  "on_resource e \<longleftrightarrow> e \<in> {PoolOpened, TasksReady, ListenerOpened, PoolClosed}"

fun is_report :: "process_event \<Rightarrow> bool" where
  "is_report (Reported _) = True"
| "is_report _ = False"

lemma resource_simps [simp]:
  "on_resource PoolOpened" "on_resource TasksReady" "on_resource ListenerOpened" "on_resource PoolClosed"
  "\<not> on_resource LoggerInstalled" "\<not> on_resource (StorageLogged l)" "\<not> on_resource (HostRan h)" "\<not> on_resource (Reported x)"
  by (simp_all add: on_resource_def)

lemma storage_logs [simp]: "filter on_resource (map StorageLogged logs) = []" "filter is_report (map StorageLogged logs) = []"
  by (auto simp: filter_empty_conv)

lemma open_listener_events:
  assumes "open_listener b addr = (events, r)"
  shows "filter is_report events = [] \<and>
    (case r of Ok _ \<Rightarrow> filter on_resource events = [ListenerOpened] | Err _ \<Rightarrow> filter on_resource events \<in> {[], [ListenerOpened]})"
  using assms by (auto simp: open_listener_def split: result.splits if_splits)

lemma prepare_connected_events:
  assumes "prepare_connected b config pool factory f = (events, r)"
  shows "filter is_report events = [] \<and>
    (case r of Ok _ \<Rightarrow> filter on_resource events = [TasksReady, ListenerOpened]
     | Err _ \<Rightarrow> filter on_resource events \<in> {[PoolClosed], [TasksReady, PoolClosed], [TasksReady, ListenerOpened, PoolClosed]})"
  using assms by (auto simp: prepare_connected_def split: result.splits prod.splits dest!: open_listener_events)

lemma prepare_stages_events:
  assumes "prepare_stages b config factory f = (events, r)"
  shows "filter is_report events = [] \<and>
    (case r of Ok _ \<Rightarrow> filter on_resource events = [PoolOpened, TasksReady, ListenerOpened]
     | Err _ \<Rightarrow> filter on_resource events \<in> {[], [PoolOpened, PoolClosed], [PoolOpened, TasksReady, PoolClosed],
         [PoolOpened, TasksReady, ListenerOpened, PoolClosed]})"
  using assms by (auto simp: prepare_stages_def split: result.splits prod.splits dest!: prepare_connected_events)

lemma build_formats:
  assumes "build_dispatcher c uuid_fmt write_all flush ex ax now v4 = Ok d"
  shows "di_formats d = [send_format, create_format, record_format]"
  using assms
  by (auto simp: build_dispatcher_def send_verification_code_task_adapter_def create_account_task_adapter_def
      record_account_created_task_adapter_def task_adapter_def TaskFormat_new_def TaskDispatcher_try_new_def
      indexed_formats_def lit_def)

lemma build_all_total:
  assumes "\<And>f. \<exists>d. snd (factory f) = Ok d \<and> di_formats d = formats"
  shows "\<exists>ds. snd (build_all factory formats indices f) = Ok ds \<and> length ds = length indices \<and> (\<forall>d\<in>set ds. di_formats d = formats)"
proof (induction indices arbitrary: f)
  case (Cons i indices)
  obtain d where d: "snd (factory f) = Ok d" "di_formats d = formats" using assms by blast
  obtain f' where f: "factory f = (f', Ok d)" using d(1) by (cases "factory f") auto
  obtain ds where ds: "snd (build_all factory formats indices f') = Ok ds" "length ds = length indices"
    "\<forall>d\<in>set ds. di_formats d = formats" using Cons by blast
  then obtain f'' where "build_all factory formats indices f' = (f'', Ok ds)" by (cases "build_all factory formats indices f'") auto
  with f d ds show ?case by (simp add: build_checked_dispatcher_def)
qed simp

lemma prepare_total:
  assumes "\<And>f. \<exists>d. snd (factory f) = Ok d \<and> di_formats d = formats" "0 < wc_concurrency (rc_worker config)"
  shows "\<exists>runtime. snd (prepare_task_runtime pool factory queue_config config f) =
      Ok (\<lparr> pq_pool = pool, pq_config = queue_config \<rparr>, runtime) \<and>
    length (tr_dispatchers runtime) = wc_concurrency (rc_worker config) \<and> (\<forall>d\<in>set (tr_dispatchers runtime). di_formats d = formats)"
proof -
  let ?C = "wc_concurrency (rc_worker config)"
  obtain d where d: "snd (factory f) = Ok d" "di_formats d = formats" using assms(1) by blast
  then obtain f' where f: "factory f = (f', Ok d)" by (cases "factory f") auto
  from build_all_total [of factory formats "[1..<?C]" f', OF assms(1)] obtain f'' ds where
    "build_all factory formats [1..<?C] f' = (f'', Ok ds)" "length ds = ?C - 1" "\<forall>d\<in>set ds. di_formats d = formats"
    by (cases "build_all factory formats [1..<?C] f'") auto
  with f d assms(2) show ?thesis
    by (simp add: prepare_task_runtime_def prepare_def into_parts_def startup_dispatchers_def)
qed

lemma build_returns: "\<exists>parts. build env sha256_hex date_naive c write_all flush email_command account_command = Return parts"
  by (simp add: build_def PostgresCommandConfig_default_def AggregateConflictRetryPolicy_default_def
      AggregateConflictRetryPolicy_new_def PostgresCommandConfig_new_def rust_defs)

section \<open>A start, for the witnesses\<close>

definition demo_parsers :: "(unit, unit, unit, unit, unit, unit) parsers" where
  "demo_parsers = \<lparr> ps_database = (\<lambda>_. Ok ()), ps_address = (\<lambda>_. Ok ()), ps_level = (\<lambda>_. Ok ()) \<rparr>"

definition demo_read :: "string \<Rightarrow> (rstring, VarError) result" where
  "demo_read name = (if name = ''DATABASE_URL'' then Ok (lit ''postgres://h/d'')
     else if name = ''BIND_ADDRESS'' then Ok (lit ''[::1]:80'') else Err NotPresent)"

definition demo_boot :: "(unit, unit, unit, unit, unit) boot" where
  "demo_boot = \<lparr> bt_try_init = Ok (), bt_connect_with = (\<lambda>_ _. Ok ()),
     bt_bind = (\<lambda>_. Err \<lparr> ie_kind = ''AddrInUse'', ie_text = [] \<rparr>), bt_info_enabled = True, bt_local_addr = (\<lambda>_. Ok ()) \<rparr>"

lemma demo_config:
  "\<exists>config. ServiceConfig_from_environment demo_parsers demo_read = Ok config \<and> 0 < wc_concurrency (rc_worker (sv_task_runtime config))"
proof -
  let ?lookup = "\<lambda>name. if name = ''DATABASE_URL'' then Some (lit ''postgres://h/d'')
    else if name = ''BIND_ADDRESS'' then Some (lit ''[::1]:80'') else None"
  have settings: "read_settings demo_read ENV_KEYS (\<lambda>_. None) = Ok ?lookup"
    by (auto simp: ENV_KEYS_def demo_read_def fun_eq_iff)
  have "TaskRuntimeConfig_from_lookup ?lookup = TaskRuntimeConfig_from_lookup (\<lambda>_. None)"
    by (simp add: TaskRuntimeConfig_from_lookup_def TaskStorageConfig_from_lookup_def TaskWorkerPoolConfig_from_lookup_def read_u64_def)
  moreover have "\<exists>q. PostgresTaskQueueConfig_from_lookup ?lookup = Ok q"
    by (simp add: PostgresTaskQueueConfig_from_lookup_def read_u64_def PostgresTaskQueueConfig_new_def
        DEFAULT_STATEMENT_TIMEOUT_MS_def rust_defs)
  moreover have "scheme_ok (lit ''postgres://h/d'')"
    by (simp add: scheme_ok_def lit_def eq_ignore_ascii_case_def ascii_lower_def)
  ultimately show ?thesis
    by (auto simp: ServiceConfig_from_environment_def settings ServiceConfig_from_lookup_def LoggingConfig_from_lookup_def
        demo_parsers_def default_lookup)
qed

text \<open>
  Failures that differ only in what must not be shown: sources of errors and their texts, values of settings, names of
  formats that are not plain, payloads of panics.
\<close>

inductive same_public :: "('de, 'ae, 'le, 'ie) service_error \<Rightarrow> ('de, 'ae, 'le, 'ie) service_error \<Rightarrow> bool" where
  public_dotenv: "same_public (Dotenv x) (Dotenv y)"
| public_setting: "same_public (ServiceError.Configuration (NonUnicode name x)) (ServiceError.Configuration (NonUnicode name y))"
| public_url: "same_public (ServiceError.Configuration (ServiceConfigError.Database x)) (ServiceError.Configuration (ServiceConfigError.Database y))"
| public_address: "same_public (ServiceError.Configuration (ServiceConfigError.Bind x)) (ServiceError.Configuration (ServiceConfigError.Bind y))"
| public_level: "same_public (ServiceError.Configuration (ServiceConfigError.Logging x)) (ServiceError.Configuration (ServiceConfigError.Logging y))"
| public_logger: "same_public (ServiceError.Logging x) (ServiceError.Logging y)"
| public_database: "same_public (ServiceError.Database x) (ServiceError.Database y)"
| public_tasks: "same_public (TaskPreparation x) (TaskPreparation y)"
| public_listener: "same_public (ServiceError.Bind x) (ServiceError.Bind y)"
| public_signal: "ie_kind x = ie_kind y \<Longrightarrow> same_public (Host (ShutdownSignal x)) (Host (ShutdownSignal y))"
| public_inbound: "ie_kind x = ie_kind y \<Longrightarrow> same_public (Host (Inbound x)) (Host (Inbound y))"
| public_panic: "same_public (Host (TaskRuntimeJoin x)) (Host (TaskRuntimeJoin (x\<lparr> je_payload := payload \<rparr>)))"
| public_format: "safe_type (task_type x) = safe_type (task_type y) \<Longrightarrow> task_version x = task_version y \<Longrightarrow>
     same_public (Host (TaskRuntime (WorkerSetup (Build n (DuplicateFormat x))))) (Host (TaskRuntime (WorkerSetup (Build n (DuplicateFormat y)))))"

section \<open>Properties\<close>

text \<open>
  C38. The settings are read completely: unless one of them is not Unicode, which is reported by
  its name, starting from the environment is the same as looking every setting up in it. In
  particular no setting that the configuration looks up is missing from the list of names read.
\<close>

theorem environment_is_read_completely:
  "ServiceConfig_from_environment ps read =
     (case find (\<lambda>name. \<exists>v. read name = Err (NotUnicode v)) ENV_KEYS of
        Some name \<Rightarrow> Err (NonUnicode name (case read name of Err e \<Rightarrow> e | Ok _ \<Rightarrow> NotPresent))
      | None \<Rightarrow> ServiceConfig_from_lookup ps (\<lambda>name. case read name of Ok v \<Rightarrow> Some v | Err _ \<Rightarrow> None))"
proof (cases "find (\<lambda>name. \<exists>v. read name = Err (NotUnicode v)) ENV_KEYS")
  case None
  then have "\<forall>name\<in>set ENV_KEYS. \<forall>v. read name \<noteq> Err (NotUnicode v)" by (auto simp: find_None_iff)
  then have "ServiceConfig_from_environment ps read = ServiceConfig_from_lookup ps (\<lambda>name. case read name of Ok v \<Rightarrow> Some v | Err _ \<Rightarrow> None)"
    by (simp add: ServiceConfig_from_environment_def read_settings_Ok) (rule from_lookup_cong, simp split: result.splits)
  with None show ?thesis by simp
next
  case (Some name)
  then obtain i v where i: "i < length ENV_KEYS" "name = ENV_KEYS ! i" "read name = Err (NotUnicode v)"
    and before: "\<forall>j<i. \<nexists>v. read (ENV_KEYS ! j) = Err (NotUnicode v)" by (auto simp: find_Some_iff)
  have keys: "ENV_KEYS = take i ENV_KEYS @ name # drop (Suc i) ENV_KEYS" using i(1,2) by (simp add: id_take_nth_drop)
  have "\<forall>n\<in>set (take i ENV_KEYS). \<forall>v. read n \<noteq> Err (NotUnicode v)" using before by (auto simp: in_set_conv_nth)
  note err = read_settings_Err [OF this i(3), of "drop (Suc i) ENV_KEYS" "\<lambda>_. None", folded keys]
  then show ?thesis unfolding ServiceConfig_from_environment_def using Some i(3) by (simp add: err)
qed



text \<open>
  The service's own workers always start: the dispatchers that the wiring builds are accepted
  for every valid configuration, one for each worker, and each of them handles exactly the three
  formats of tasks that the service publishes.
\<close>

theorem wired_workers_start:
  assumes "build env sha256_hex date_naive c write_all flush email_command account_command = Return parts"
    and "TaskRuntimeConfig_from_lookup lookup = Ok config"
    and "\<And>f. \<exists>now v4. snd (factory f) = ap_dispatcher_factory parts now v4"
  shows "\<exists>runtime. snd (prepare_task_runtime pool factory queue_config config f) =
      Ok (\<lparr> pq_pool = pool, pq_config = queue_config \<rparr>, runtime) \<and>
    length (tr_dispatchers runtime) = wc_concurrency (rc_worker config) \<and>
    (\<forall>d\<in>set (tr_dispatchers runtime). di_formats d = [send_format, create_format, record_format])"
proof (rule prepare_total)
  fix f
  obtain now v4 where "snd (factory f) = ap_dispatcher_factory parts now v4" using assms(3) by blast
  moreover from assms(1) obtain ex ax where "ap_dispatcher_factory parts = build_dispatcher c (he_uuid_fmt env) write_all flush ex ax"
    by (auto simp: build_def)
  ultimately show "\<exists>d. snd (factory f) = Ok d \<and> di_formats d = [send_format, create_format, record_format]"
    using dispatcher_built [of c "he_uuid_fmt env" write_all flush ex ax now v4] build_formats by metis
next
  from assms(2) have "pool_ok (rc_worker config)"
    by (auto simp: TaskRuntimeConfig_from_lookup_def TaskRuntimeConfig_new_def dest!: TaskWorkerPoolConfig_from_lookup_ok)
  then show "0 < wc_concurrency (rc_worker config)" by (simp add: pool_ok_def)
qed

theorem wired_workers_start_witness:
  "\<exists>parts runtime. build demo_http id id demo_codec (console_write True []) (console_flush True) (\<lambda>_. reliable_email) (\<lambda>_. reliable_account) = Return parts \<and>
     snd (prepare_task_runtime () (\<lambda>f. (f, ap_dispatcher_factory parts 0 0)) \<lparr> pc_statement_timeout = 4000000000 \<rparr>
       \<lparr> rc_storage = \<lparr> sc_storage_timeout = 6000000000 \<rparr>, rc_worker = \<lparr> wc_concurrency = 128, wc_queue_capacity = 128,
         wc_poll_interval = 1000000000, wc_handler_timeout = 15000000000, wc_lease_duration = 60000000000 \<rparr> \<rparr> ()) =
       Ok (\<lparr> pq_pool = (), pq_config = \<lparr> pc_statement_timeout = 4000000000 \<rparr> \<rparr>, runtime)"
proof -
  obtain parts where p: "build demo_http id id demo_codec (console_write True []) (console_flush True) (\<lambda>_. reliable_email) (\<lambda>_. reliable_account) =
      Return parts" using build_returns by blast
  from wired_workers_start [OF p default_lookup, of "\<lambda>f. (f, ap_dispatcher_factory parts 0 0)" "()" "\<lparr> pc_statement_timeout = 4000000000 \<rparr>" "()"] p
  show ?thesis by auto
qed

text \<open>
  C39. Diagnostics keep secrets. What the process prints and logs of a failure is the same for any two failures that
  differ only in private parts: the text of a source, the value of a setting, the address of the database, a name
  that is not plain, the payload of a panic. The printed configuration does not depend on the connection options.
\<close>

theorem diagnostics_keep_secrets:
  assumes "same_public e e'"
  shows "ServiceError_debug e = ServiceError_debug e' \<and> ServiceError_to_string e = ServiceError_to_string e' \<and>
    ServiceError_log e = ServiceError_log e' \<and> ServiceConfig_debug (config\<lparr> sv_database := db \<rparr>) = ServiceConfig_debug config"
  using assms by cases (simp_all add: ServiceConfig_debug_def)

theorem diagnostics_keep_secrets_witness:
  "ServiceError_debug (Host (TaskRuntime (WorkerSetup (Build 2 (DuplicateFormat \<lparr> task_type = lit ''mail@a.b'', task_version = 1 \<rparr>))))
       :: (unit, unit, unit, unit) service_error) =
     DebugTuple ''Host'' [DebugTuple ''TaskRuntime'' [DebugTuple ''WorkerSetup'' [DebugStruct ''Build''
       [(''worker_index'', DebugId 2), (''source'', DebugStruct ''DuplicateFormat''
         [(''task_type'', DebugString (lit ''unknown'')), (''task_version'', DebugInt 1)])]]]]"
proof -
  let ?e = "\<lambda>ty. Host (TaskRuntime (WorkerSetup (Build 2 (DuplicateFormat \<lparr> task_type = lit ty, task_version = 1 \<rparr>)))) ::
    (unit, unit, unit, unit) service_error"
  have same: "same_public (?e ''mail@a.b'') (?e ''unknown'')"
    by (rule public_format) (simp_all add: safe_type_def lit_def is_ascii_alphanumeric_def)
  have "ServiceError_debug (?e ''mail@a.b'') = ServiceError_debug (?e ''unknown'')"
    by (rule diagnostics_keep_secrets [OF same, THEN conjunct1])
  then show ?thesis by (simp add: safe_type_def lit_def is_ascii_alphanumeric_def)
qed

end
