(* ===== verification/Stored_Commands.thy ===== *)
theory Stored_Commands
  imports Registration_Guarantees "HOL-Library.Sublist"
begin

text \<open>
  Commands over the tables: what the CQRS framework does with the repository of \<open>Event_Repository\<close>
  for one attempt of a command, while others use the same tables.

  The framework and the reader are libraries. \<open>framework_run\<close> states what
  \<open>cqrs-runtime/doc/architecture.md\<close> and \<open>doc/known_issues/cqrs_snapshot_event_reapplication.md\<close>
  document of an attempt: it reads a snapshot, then the events after it, rebuilds the state, lets
  the aggregate decide, applies the accepted events, applies them once more when it makes a
  snapshot, and persists everything with one call of the repository. Between any two of these
  moments others may act. \<open>reader_laws\<close> states what the queries return, \<open>serde_laws\<close> that derived
  serialisations read back what they wrote.

  \<open>serial_run\<close> is the attempt without any of this: the whole stream is replayed and the decision is
  persisted at one moment. The theory shows that every attempt comes to a serial one, taken at the
  moment of its write, and that snapshots always agree with the events they stand for.
\<close>

section \<open>The store and its aggregates\<close>

text \<open>
  The database, what workers took from its queue, what handlers answered for it, and what was
  written to the console.
\<close>

record 'v store =
  st_db :: "'v Database"
  st_held :: "'v LeasedTask list"
  st_handled :: "('v LeasedTask \<times> (unit, TaskHandlerError) result) set"
  st_console :: rstring

record ('s, 'e, 'v) serde =
  sd_write_event :: "'e \<Rightarrow> 'v"
  sd_read_event :: "'v \<Rightarrow> 'e option"
  sd_write_state :: "'s \<Rightarrow> 'v"
  sd_read_state :: "'v \<Rightarrow> 's option"

definition serde_laws :: "('s, 'e, 'v) serde \<Rightarrow> bool" where
  "serde_laws sd \<longleftrightarrow> (\<forall>e. sd_read_event sd (sd_write_event sd e) = Some e) \<and>
     (\<forall>s. sd_read_state sd (sd_write_state sd s) = Some s)"

text \<open>What the framework stores of an aggregate: \<open>Aggregate::TYPE\<close> and the names of its events.\<close>

record ('s, 'e, 'v) stored_aggregate =
  sa_TYPE :: rstring
  sa_event_type :: "'e \<Rightarrow> rstring"
  sa_event_version :: "'e \<Rightarrow> rstring"
  sa_serde :: "('s, 'e, 'v) serde"

definition EmailReservation_stored ::
  "(EmailReservation, EmailReservationEvent, 'v) serde \<Rightarrow> (EmailReservation, EmailReservationEvent, 'v) stored_aggregate" where
  "EmailReservation_stored sd = \<lparr> sa_TYPE = lit ''email_reservation'',
     sa_event_type = (\<lambda>e. lit (EmailReservationEvent_event_type e)),
     sa_event_version = (\<lambda>e. lit (EmailReservationEvent_event_version e)), sa_serde = sd \<rparr>"

definition UserAccount_stored ::
  "(UserAccount, UserAccountEvent, 'v) serde \<Rightarrow> (UserAccount, UserAccountEvent, 'v) stored_aggregate" where
  "UserAccount_stored sd = \<lparr> sa_TYPE = lit ''user_account'',
     sa_event_type = (\<lambda>e. lit (UserAccountEvent_event_type e)),
     sa_event_version = (\<lambda>e. lit (UserAccountEvent_event_version e)), sa_serde = sd \<rparr>"

definition read_event :: "('s, 'e, 'v) stored_aggregate \<Rightarrow> 'v \<Rightarrow> 'e option" where
  "read_event a = sd_read_event (sa_serde a)"

definition read_state :: "('s, 'e, 'v) stored_aggregate \<Rightarrow> 'v \<Rightarrow> 's option" where
  "read_state a = sd_read_state (sa_serde a)"

definition write_state :: "('s, 'e, 'v) stored_aggregate \<Rightarrow> 's \<Rightarrow> 'v" where
  "write_state a = sd_write_state (sa_serde a)"

text \<open>Events of a command get the numbers that follow the last one the attempt has seen.\<close>

fun serialize_events ::
  "('s, 'e, 'v) stored_aggregate \<Rightarrow> rstring \<Rightarrow> 'v \<Rightarrow> nat \<Rightarrow> 'e list \<Rightarrow> 'v SerializedEvent list" where
  "serialize_events a k metadata n [] = []"
| "serialize_events a k metadata n (e # es) =
     \<lparr> se_aggregate_id = k, se_sequence = Suc n, se_event_type = sa_event_type a e,
       se_event_version = sa_event_version a e, se_payload = sd_write_event (sa_serde a) e,
       se_metadata = metadata \<rparr> # serialize_events a k metadata (Suc n) es"

definition events_of :: "('s, 'e, 'v) stored_aggregate \<Rightarrow> 'v Database \<Rightarrow> rstring \<Rightarrow> 'e list" where
  "events_of a db k = map (\<lambda>r. the (read_event a (ev_payload r))) (stream db (sa_TYPE a) k)"

section \<open>Reading\<close>

definition row_event :: "'v EventRow \<Rightarrow> 'v SerializedEvent" where
  "row_event r = \<lparr> se_aggregate_id = ev_aggregate_id r, se_sequence = nat (ev_sequence r),
     se_event_type = ev_event_type r, se_event_version = ev_event_version r, se_payload = ev_payload r,
     se_metadata = ev_metadata r \<rparr>"

definition row_snapshot :: "'v SnapshotRow \<Rightarrow> 'v SerializedSnapshot" where
  "row_snapshot r = \<lparr> ss_aggregate_id = sn_aggregate_id r, ss_aggregate = sn_payload r,
     ss_current_sequence = nat (sn_last_sequence r), ss_current_snapshot = nat (sn_current_snapshot r) \<rparr>"

definition snapshots_of :: "'v Database \<Rightarrow> rstring \<Rightarrow> rstring \<Rightarrow> 'v SnapshotRow list" where
  "snapshots_of db ty k = filter (\<lambda>r. sn_aggregate_type r = ty \<and> sn_aggregate_id r = k) (db_snapshots db)"

definition reader_laws :: "'v PostgresEventRepository \<Rightarrow> bool" where
  "reader_laws reader \<longleftrightarrow>
     (\<forall>ty k db evs. rd_get_events reader ty k db = Ok evs \<longrightarrow>
        evs = map row_event (sort_key ev_sequence (stream db ty k))) \<and>
     (\<forall>ty k n db evs. rd_get_last_events reader ty k n db = Ok evs \<longrightarrow>
        evs = map row_event (sort_key ev_sequence (filter (\<lambda>r. int n < ev_sequence r) (stream db ty k)))) \<and>
     (\<forall>ty k db. rd_get_snapshot reader ty k db = Ok None \<longrightarrow> snapshots_of db ty k = []) \<and>
     (\<forall>ty k db sn. rd_get_snapshot reader ty k db = Ok (Some sn) \<longrightarrow> sn \<in> row_snapshot ` set (snapshots_of db ty k))"

definition last_sequence :: "nat \<Rightarrow> 'v SerializedEvent list \<Rightarrow> nat" where
  "last_sequence n evs = (if evs = [] then n else se_sequence (last evs))"

text \<open>
  Loading: the snapshot is read from one state of the tables, the events from a later one. It
  gives the state, the number of the last event and the version of the snapshot.
\<close>

inductive loads ::
  "('s, 'e, 'v) stored_aggregate \<Rightarrow> ('s \<Rightarrow> 'e \<Rightarrow> 's run) \<Rightarrow> 's \<Rightarrow> 'v PostgresEventRepositoryWithOutbox \<Rightarrow> rstring
     \<Rightarrow> 'v Database \<Rightarrow> 'v Database \<Rightarrow> 's \<Rightarrow> nat \<Rightarrow> nat \<Rightarrow> bool"
  for a app initial repository k where
  from_events: "get_snapshot repository (sa_TYPE a) k db0 = Ok None \<Longrightarrow>
     get_events repository (sa_TYPE a) k db1 = Ok evs \<Longrightarrow>
     those (map (\<lambda>e. read_event a (se_payload e)) evs) = Some es \<Longrightarrow> replay app initial es = Return s \<Longrightarrow>
     loads a app initial repository k db0 db1 s (last_sequence 0 evs) 0"
| from_snapshot: "get_snapshot repository (sa_TYPE a) k db0 = Ok (Some sn) \<Longrightarrow>
     read_state a (ss_aggregate sn) = Some s0 \<Longrightarrow>
     get_last_events repository (sa_TYPE a) k (ss_current_sequence sn) db1 = Ok evs \<Longrightarrow>
     those (map (\<lambda>e. read_event a (se_payload e)) evs) = Some es \<Longrightarrow> replay app s0 es = Return s \<Longrightarrow>
     loads a app initial repository k db0 db1 s (last_sequence (ss_current_sequence sn) evs) (ss_current_snapshot sn)"

section \<open>One attempt of the framework\<close>

text \<open>The error of a failed write as the framework passes it on; \<open>link_ok\<close>: a connection that is
  lost after the statement does not look like a violated key.\<close>

fun write_answer :: "(unit, PersistenceError) result \<Rightarrow> (unit, 'd AggregateError) result \<Rightarrow> bool" where
  "write_answer (Ok _) r \<longleftrightarrow> r = Ok ()"
| "write_answer (Err OptimisticLockError) r \<longleftrightarrow> r = Err AggregateConflict"
| "write_answer (Err _) r \<longleftrightarrow> r \<in> {Err DatabaseConnectionError, Err DeserializationError, Err UnexpectedError}"

definition link_ok :: "Link \<Rightarrow> bool" where
  "link_ok link \<longleftrightarrow> (\<forall>e. link = FailsAfter e \<longrightarrow> map_sqlx_error e \<noteq> OptimisticLockError)"

inductive framework_run ::
  "('v \<Rightarrow> bool) \<Rightarrow> ('v store \<Rightarrow> 'v store \<Rightarrow> bool) \<Rightarrow> ('s, 'e, 'v) stored_aggregate
     \<Rightarrow> ('s \<Rightarrow> 'c \<Rightarrow> ('e list, 'd) result run) \<Rightarrow> ('s \<Rightarrow> 'e \<Rightarrow> 's run) \<Rightarrow> 's \<Rightarrow> 'v PostgresEventRepositoryWithOutbox
     \<Rightarrow> rstring \<Rightarrow> 'c \<Rightarrow> 'v store \<Rightarrow> 'v store \<Rightarrow> (unit, 'd AggregateError) result \<Rightarrow> bool"
  for is_object others a handle app initial repository k command where
  rejected: "others\<^sup>*\<^sup>* w w0 \<Longrightarrow> others\<^sup>*\<^sup>* w0 w1 \<Longrightarrow> loads a app initial repository k (st_db w0) (st_db w1) s n version \<Longrightarrow>
     handle s command = Return (Err d) \<Longrightarrow>
     framework_run is_object others a handle app initial repository k command w w1 (Err (UserError d))"
| decided: "others\<^sup>*\<^sup>* w w0 \<Longrightarrow> others\<^sup>*\<^sup>* w0 w1 \<Longrightarrow> loads a app initial repository k (st_db w0) (st_db w1) s n version \<Longrightarrow>
     handle s command = Return (Ok evs) \<Longrightarrow> replay app s evs = Return s' \<Longrightarrow>
     su = None \<or> (\<exists>s''. replay app s' evs = Return s'' \<and> su = Some (k, write_state a s'', Suc version)) \<Longrightarrow>
     others\<^sup>*\<^sup>* w1 w2 \<Longrightarrow> link_ok link \<Longrightarrow>
     persist is_object tx link repository (sa_TYPE a) (serialize_events a k metadata n evs) su (st_db w2) = (db', written) \<Longrightarrow>
     write_answer written r \<Longrightarrow>
     framework_run is_object others a handle app initial repository k command w (w2\<lparr> st_db := db' \<rparr>) r"
| failed: "others\<^sup>*\<^sup>* w w1 \<Longrightarrow> e \<in> {DatabaseConnectionError, DeserializationError, UnexpectedError} \<Longrightarrow>
     framework_run is_object others a handle app initial repository k command w w1 (Err e)"

text \<open>The same attempt taken at one moment, from the whole stream.\<close>

inductive serial_run ::
  "('v \<Rightarrow> bool) \<Rightarrow> ('s, 'e, 'v) stored_aggregate \<Rightarrow> ('s \<Rightarrow> 'c \<Rightarrow> ('e list, 'd) result run) \<Rightarrow> ('s \<Rightarrow> 'e \<Rightarrow> 's run) \<Rightarrow> 's
     \<Rightarrow> 'v NewTask list \<Rightarrow> rstring \<Rightarrow> 'c \<Rightarrow> 'v store \<Rightarrow> 'v store \<Rightarrow> (unit, 'd AggregateError) result \<Rightarrow> bool"
  for is_object a handle app initial tasks k command where
  serial_rejected: "replay app initial (events_of a (st_db w) k) = Return s \<Longrightarrow> handle s command = Return (Err d) \<Longrightarrow>
     serial_run is_object a handle app initial tasks k command w w (Err (UserError d))"
| serial_decided: "replay app initial (events_of a (st_db w) k) = Return s \<Longrightarrow> handle s command = Return (Ok evs) \<Longrightarrow>
     replay app s evs = Return s' \<Longrightarrow> su = None \<or> (\<exists>version. su = Some (k, write_state a s', version)) \<Longrightarrow> link_ok link \<Longrightarrow>
     persist_command is_object tx link (sa_TYPE a) tasks
       (serialize_events a k metadata (length (stream (st_db w) (sa_TYPE a) k)) evs) su (st_db w) = (db', written) \<Longrightarrow>
     write_answer written r \<Longrightarrow>
     serial_run is_object a handle app initial tasks k command w (w\<lparr> st_db := db' \<rparr>) r"
| serial_failed: "e \<in> {AggregateConflict, DatabaseConnectionError, DeserializationError, UnexpectedError} \<Longrightarrow>
     serial_run is_object a handle app initial tasks k command w w (Err e)"

section \<open>What the tables hold\<close>

text \<open>
  The stream of every aggregate is numbered without gaps and can be read, and a snapshot is the
  state after the events up to its number.
\<close>

definition snapshot_sound ::
  "('s, 'e, 'v) stored_aggregate \<Rightarrow> ('s \<Rightarrow> 'e \<Rightarrow> 's run) \<Rightarrow> 's \<Rightarrow> 'v Database \<Rightarrow> rstring \<Rightarrow> 'v SnapshotRow \<Rightarrow> bool" where
  "snapshot_sound a app initial db k sn \<longleftrightarrow>
     (\<exists>m s. m \<le> length (stream db (sa_TYPE a) k) \<and> sn_last_sequence sn = int m \<and>
        read_state a (sn_payload sn) = Some s \<and> replay app initial (take m (events_of a db k)) = Return s)"

definition aggregate_ok ::
  "('s, 'e, 'v) stored_aggregate \<Rightarrow> ('s \<Rightarrow> 'e \<Rightarrow> 's run) \<Rightarrow> 's \<Rightarrow> 'v Database \<Rightarrow> bool" where
  "aggregate_ok a app initial db \<longleftrightarrow> (\<forall>k. gap_free db (sa_TYPE a) k \<and>
     (\<forall>r\<in>set (stream db (sa_TYPE a) k). read_event a (ev_payload r) \<noteq> None) \<and>
     (\<forall>sn\<in>set (snapshots_of db (sa_TYPE a) k). snapshot_sound a app initial db k sn))"

definition grows :: "('s, 'e, 'v) stored_aggregate \<Rightarrow> 'v Database \<Rightarrow> 'v Database \<Rightarrow> bool" where
  "grows a db db' \<longleftrightarrow> (\<forall>k. prefix (stream db (sa_TYPE a) k) (stream db' (sa_TYPE a) k))"

lemma grows_refl [simp]: "grows a db db"
  by (simp add: grows_def)

lemma grows_trans: "grows a db db' \<Longrightarrow> grows a db' db'' \<Longrightarrow> grows a db db''"
  unfolding grows_def using prefix_order.trans by blast

lemma numbered_filter:
  assumes "map f xs = map int [1..<Suc (length xs)]"
  shows "filter (\<lambda>x. int m < f x) xs = drop m xs" "sorted (map f xs)"
proof -
  have "f (xs ! i) = int (Suc i)" if "i < length xs" for i
  proof -
    from that have "map f xs ! i = int (Suc i)" unfolding assms by (simp del: upt_Suc)
    with that show ?thesis by simp
  qed
  then have "\<forall>x\<in>set (take m xs). \<not> int m < f x" "\<forall>x\<in>set (drop m xs). int m < f x"
    by (auto simp: in_set_conv_nth)
  then have "filter (\<lambda>x. int m < f x) (take m xs) = []" "filter (\<lambda>x. int m < f x) (drop m xs) = drop m xs"
    by (auto simp: filter_empty_conv filter_id_conv)
  then have "filter (\<lambda>x. int m < f x) (take m xs @ drop m xs) = drop m xs" by (simp only: filter_append append_Nil)
  then show "filter (\<lambda>x. int m < f x) xs = drop m xs" by simp
  show "sorted (map f xs)" unfolding assms by (simp add: sorted_map sorted_wrt_iff_nth_less del: upt_Suc)
qed

lemma read_rows:
  assumes "those (map (\<lambda>e. read_event a (se_payload e)) (map row_event rows)) = Some es"
  shows "es = map (\<lambda>r. the (read_event a (ev_payload r))) rows"
proof -
  from assms have "map (\<lambda>r. read_event a (ev_payload r)) rows = map Some es"
    by (simp add: those_eq_Some row_event_def comp_def)
  then have "map the (map (\<lambda>r. read_event a (ev_payload r)) rows) = map the (map Some es)" by simp
  then show ?thesis by (simp add: comp_def)
qed

lemma gap_free_last:
  assumes "gap_free db ty k" "m \<le> length (stream db ty k)"
  shows "last_sequence m (map row_event (drop m (stream db ty k))) = length (stream db ty k)"
proof (cases "m = length (stream db ty k)")
  case False
  let ?s = "stream db ty k"
  from False assms(2) have m: "m < length ?s" by simp
  then have "map ev_sequence ?s ! (length ?s - 1) = int (length ?s)"
    using assms(1) unfolding gap_free_def by (simp del: upt_Suc)
  moreover from m have "?s \<noteq> []" by auto
  ultimately have "ev_sequence (last ?s) = int (length ?s)" by (simp add: last_conv_nth)
  with m show ?thesis by (simp add: last_sequence_def row_event_def last_map)
qed (simp add: last_sequence_def)

text \<open>What an attempt loads is the replay of the whole stream.\<close>

lemma loads_replay:
  assumes laws: "reader_laws (er_reader repository)"
    and ok: "aggregate_ok a app initial db0" "aggregate_ok a app initial db1" "grows a db0 db1"
    and l: "loads a app initial repository k db0 db1 s n version"
  shows "replay app initial (events_of a db1 k) = Return s" "n = length (stream db1 (sa_TYPE a) k)"
proof -
  let ?s = "stream db1 (sa_TYPE a) k"
  from ok(2) have gap: "gap_free db1 (sa_TYPE a) k" by (simp add: aggregate_ok_def)
  then have num: "map ev_sequence ?s = map int [1..<Suc (length ?s)]" by (simp add: gap_free_def)
  note sorted = sort_key_id_if_sorted [OF numbered_filter(2) [OF num]]
  have "replay app initial (events_of a db1 k) = Return s \<and> n = length ?s"
    using l
  proof cases
    case (from_events evs es)
    with laws have "evs = map row_event (drop 0 ?s)" unfolding reader_laws_def get_events_def by (metis sorted drop0)
    with from_events read_rows [of a ?s es] gap_free_last [OF gap, of 0] show ?thesis by (simp add: events_of_def)
  next
    case (from_snapshot sn s0 evs es)
    from laws from_snapshot(3) obtain row where row: "row \<in> set (snapshots_of db0 (sa_TYPE a) k)" "sn = row_snapshot row"
      unfolding reader_laws_def get_snapshot_def by blast
    with ok(1) have "snapshot_sound a app initial db0 k row" unfolding aggregate_ok_def by blast
    with row(2) from_snapshot(4) obtain m where m: "m \<le> length (stream db0 (sa_TYPE a) k)" "sn_last_sequence row = int m"
      "replay app initial (take m (events_of a db0 k)) = Return s0"
      by (auto simp: snapshot_sound_def row_snapshot_def)
    from ok(3) obtain ys where ys: "?s = stream db0 (sa_TYPE a) k @ ys" unfolding grows_def prefix_def by blast
    with m(1) have t: "take m (events_of a db1 k) = take m (events_of a db0 k)" "m \<le> length ?s" by (simp_all add: events_of_def)
    have seq: "ss_current_sequence sn = m" by (simp add: row row_snapshot_def m(2))
    have "evs = map row_event (sort_key ev_sequence (filter (\<lambda>r. int m < ev_sequence r) ?s))"
      using laws from_snapshot(5) unfolding reader_laws_def get_last_events_def seq by blast
    also have "filter (\<lambda>r. int m < ev_sequence r) ?s = drop m ?s" by (rule numbered_filter(1) [OF num])
    also have "sort_key ev_sequence (drop m ?s) = drop m ?s"
      using numbered_filter(2) [OF num] by (intro sort_key_id_if_sorted) (simp add: drop_map [symmetric] sorted_wrt_drop)
    finally have evs: "evs = map row_event (drop m ?s)" .
    then have "es = drop m (events_of a db1 k)" using from_snapshot(6) read_rows [of a "drop m ?s" es]
      by (simp add: events_of_def drop_map)
    with m(3) t(1) from_snapshot(7) have "replay app initial (take m (events_of a db1 k) @ drop m (events_of a db1 k)) = Return s"
      by (simp del: append_take_drop_id)
    with from_snapshot(1) evs seq gap_free_last [OF gap t(2)] show ?thesis by simp
  qed
  then show "replay app initial (events_of a db1 k) = Return s" "n = length ?s" by simp_all
qed

section \<open>A committed command\<close>

lemma aggregate_ok_kept:
  assumes "aggregate_ok a app initial db" and "\<And>k. stream db' (sa_TYPE a) k = stream db (sa_TYPE a) k"
    and "\<And>k. set (snapshots_of db' (sa_TYPE a) k) \<subseteq> set (snapshots_of db (sa_TYPE a) k)"
  shows "aggregate_ok a app initial db'" "events_of a db' = events_of a db"
proof -
  show e: "events_of a db' = events_of a db" by (rule ext) (simp add: events_of_def assms(2))
  have "gap_free db' (sa_TYPE a) k = gap_free db (sa_TYPE a) k"
    "snapshot_sound a app initial db' k sn = snapshot_sound a app initial db k sn" for k sn
    by (simp_all add: gap_free_def snapshot_sound_def assms(2) e)
  with assms(1,3) show "aggregate_ok a app initial db'" unfolding aggregate_ok_def assms(2) by blast
qed

lemma committed_other_aggregate:
  assumes "committed is_object tx ty tasks event sequence sn db db'" "sa_TYPE a \<noteq> ty" "aggregate_ok a app initial db"
  shows "aggregate_ok a app initial db'" "events_of a db' = events_of a db" "grows a db db'"
proof -
  have s: "stream db' (sa_TYPE a) k = stream db (sa_TYPE a) k" for k
    using committed_stream [OF assms(1)] assms(2) by simp
  moreover have "set (snapshots_of db' (sa_TYPE a) k) \<subseteq> set (snapshots_of db (sa_TYPE a) k)" for k
    unfolding snapshots_of_def using assms(2) by (auto elim: committed_snapshot [OF assms(1)])
  ultimately show "aggregate_ok a app initial db'" "events_of a db' = events_of a db" using aggregate_ok_kept [OF assms(3)] by blast+
  show "grows a db db'" by (simp add: grows_def s)
qed

text \<open>The one event of a command, its snapshot and its tasks, added to the tables.\<close>

lemma committed_event:
  assumes laws: "serde_laws (sa_serde a)" and ok: "aggregate_ok a app initial db"
    and c: "committed is_object tx (sa_TYPE a) tasks event (int (Suc (length (stream db (sa_TYPE a) k)))) sn db db'"
    and ev: "[event] = serialize_events a k metadata n [e]"
    and s': "replay app initial (events_of a db k @ [e]) = Return s'"
    and su: "SnapshotWrite_new su = Ok sn" "su = None \<or> (\<exists>version. su = Some (k, write_state a s', version))"
  shows "aggregate_ok a app initial db'" "events_of a db' = (events_of a db)(k := events_of a db k @ [e])" "grows a db db'"
proof -
  let ?ty = "sa_TYPE a"
  from ev have event: "se_aggregate_id event = k" "se_payload event = sd_write_event (sa_serde a) e" by simp_all
  note str = committed_stream [OF c, unfolded event(1)]
  have row: "read_event a (ev_payload (event_row ty event q)) = Some e" for ty q
    using laws by (simp add: event_row_def event(2) read_event_def serde_laws_def)
  show e: "events_of a db' = (events_of a db)(k := events_of a db k @ [e])"
    by (rule ext) (simp add: events_of_def str row)
  show "grows a db db'" by (simp add: grows_def str)
  have "gap_free db' ?ty k'" for k'
    using committed_gap_free [OF c] ok event(1) str [of ?ty k']
    by (cases "k' = k") (simp_all add: aggregate_ok_def gap_free_def)
  moreover have "\<forall>r\<in>set (stream db' ?ty k'). read_event a (ev_payload r) \<noteq> None" for k'
    using ok row by (auto simp: str aggregate_ok_def)
  moreover have "snapshot_sound a app initial db' k' r" if r: "r \<in> set (snapshots_of db' ?ty k')" for k' r
  proof -
    from r have "r \<in> set (db_snapshots db')" "sn_aggregate_type r = ?ty" "sn_aggregate_id r = k'" by (auto simp: snapshots_of_def)
    from c this(1) show ?thesis
    proof (cases rule: committed_snapshot)
      case kept
      with r have "r \<in> set (snapshots_of db ?ty k')" by (simp add: snapshots_of_def)
      with ok have "snapshot_sound a app initial db k' r" by (simp add: aggregate_ok_def)
      then obtain m s where "m \<le> length (stream db ?ty k')" "sn_last_sequence r = int m"
        "read_state a (sn_payload r) = Some s" "replay app initial (take m (events_of a db k')) = Return s"
        by (auto simp: snapshot_sound_def)
      moreover from this(1) have "take m (events_of a db' k') = take m (events_of a db k')" "m \<le> length (stream db' ?ty k')"
        by (auto simp: e str events_of_def)
      ultimately show ?thesis unfolding snapshot_sound_def by metis
    next
      case (written aid payload version)
      with su obtain v where "aid = k" "payload = write_state a s'" by (cases su) (auto split: if_splits)
      with written \<open>sn_aggregate_id r = k'\<close> have r': "k' = k" "sn_last_sequence r = int (Suc (length (stream db ?ty k)))"
        "sn_payload r = write_state a s'" by simp_all
      moreover have "read_state a (write_state a s') = Some s'" using laws by (simp add: read_state_def write_state_def serde_laws_def)
      moreover have "take (Suc (length (stream db ?ty k))) (events_of a db' k) = events_of a db k @ [e]" by (simp add: e events_of_def)
      moreover have "Suc (length (stream db ?ty k)) \<le> length (stream db' ?ty k)" by (simp add: str)
      ultimately show ?thesis using s' unfolding snapshot_sound_def by metis
    qed
  qed
  ultimately show "aggregate_ok a app initial db'" by (simp add: aggregate_ok_def)
qed

section \<open>Attempts are serial\<close>

lemma write_answer_conflict: "write_answer written (Err AggregateConflict) \<longleftrightarrow> written = Err OptimisticLockError"
proof (cases written)
  case (Err e)
  then show ?thesis by (cases e) simp_all
qed simp

lemma write_answer_Err:
  assumes "write_answer written r" "is_err written"
  shows "r \<in> Err ` {AggregateConflict, DatabaseConnectionError, DeserializationError, UnexpectedError}"
proof (cases written)
  case (Err e)
  with assms(1) show ?thesis by (cases e) auto
qed (use assms in simp)

lemma serial_conflict:
  assumes "serial_run is_object a handle app initial tasks k command w w' (Err AggregateConflict)"
    and "table_ok is_object (db_outbox (st_db w))"
  shows "w' = w"
  using assms(1)
proof cases
  case (serial_decided s evs s' su link tx metadata db' written)
  note conflict = serial_decided(8) [unfolded write_answer_conflict]
  from serial_decided(7) assms(2) have "db' = st_db w"
    by (cases rule: persist_command_cases) (use conflict serial_decided(6) in \<open>auto simp: link_ok_def\<close>)
  with serial_decided(1) show ?thesis by simp
qed simp_all

text \<open>
  The requirement of the snapshot path on an aggregate: applying an accepted event once more to
  the state that has it changes nothing, if it returns.
\<close>

locale snapshot_tolerant = event_sourced handle app initial inv
  for handle :: "'s \<Rightarrow> 'c \<Rightarrow> ('e list, 'err) result run" and app initial inv +
  assumes reapplied: "app s e = Return s' \<Longrightarrow> app s' e = Return s'' \<Longrightarrow> s'' = s'"
begin

lemma others_keep:
  assumes "others\<^sup>*\<^sup>* w w'" "ok w"
    and "\<And>w w'. others w w' \<Longrightarrow> ok w \<Longrightarrow> ok w' \<and> grows a (st_db w) (st_db w')"
  shows "ok w'" "grows a (st_db w) (st_db w')"
proof -
  from assms(1,2) have "ok w' \<and> grows a (st_db w) (st_db w')"
    by (induction rule: rtranclp_induct) (use assms(3) grows_trans in fastforce)+
  then show "ok w'" "grows a (st_db w) (st_db w')" by simp_all
qed

lemma framework_serial:
  assumes laws: "reader_laws (er_reader repository)"
    and ok: "\<And>w. ok w \<Longrightarrow> database_ok is_object (st_db w) \<and> aggregate_ok a app initial (st_db w)"
    and others: "\<And>w w'. others w w' \<Longrightarrow> ok w \<Longrightarrow> ok w' \<and> grows a (st_db w) (st_db w')" and "ok w"
    and run: "framework_run is_object others a handle app initial repository k command w w' r"
  shows "\<exists>w0. others\<^sup>*\<^sup>* w w0 \<and> ok w0 \<and> serial_run is_object a handle app initial (er_tasks repository) k command w0 w' r"
  using run
proof cases
  case (rejected w0 s n version d)
  note k0 = others_keep [OF rejected(2) assms(4) others] and k1 = others_keep [OF rejected(3) _ others]
  from loads_replay(1) [OF laws _ _ k1(2) rejected(4)] k0 k1(1) ok
  have "replay app initial (events_of a (st_db w') k) = Return s" by blast
  from serial_rejected [where handle = handle, OF this rejected(5)] rejected k0(1) k1(1) show ?thesis by (blast intro: rtranclp_trans)
next
  case (decided w0 w1 s n version evs s' su w2 link tx metadata db' written)
  note k0 = others_keep [OF decided(2) assms(4) others]
  note k1 = others_keep [OF decided(3) k0(1) others]
  note k2 = others_keep [OF decided(8) k1(1) others]
  note loaded = loads_replay [OF laws _ _ k1(2) decided(4)]
  from ok k0(1) k1(1) loaded have l: "replay app initial (events_of a (st_db w1) k) = Return s" "n = length (stream (st_db w1) (sa_TYPE a) k)"
    by blast+
  from ok [OF k2(1)] have t: "table_ok is_object (db_outbox (st_db w2))" by (simp add: database_ok_def)
  from handle_one_event [OF decided(5)] obtain e where e: "evs = [e]" by blast
  have w2: "others\<^sup>*\<^sup>* w w2" using decided(2,3,8) by (blast intro: rtranclp_trans)
  from decided(10) [unfolded persist_def] t show ?thesis
  proof (cases rule: persist_command_cases)
    case noop
    with e show ?thesis by simp
  next
    case unchanged
    from write_answer_Err [OF decided(11) unchanged(2)] unchanged(1) decided(1) serial_failed w2 k2(1)
    show ?thesis by fastforce
  next
    case (written event sn)
    from written(1) e have ev: "se_aggregate_id event = k" "se_sequence event = Suc n" by auto
    from k2(2) have pre: "prefix (stream (st_db w1) (sa_TYPE a) k) (stream (st_db w2) (sa_TYPE a) k)" by (simp add: grows_def)
    then have "n \<le> length (stream (st_db w2) (sa_TYPE a) k)" unfolding l(2) by (rule prefix_length_le)
    moreover have "gap_free (st_db w2) (sa_TYPE a) k" using ok [OF k2(1)] by (simp add: aggregate_ok_def)
    ultimately have n: "n = length (stream (st_db w2) (sa_TYPE a) k)"
      using committed_gap_free(1) [OF written(3) [unfolded ev(2)]] ev(1) by simp
    with pre l(2) have "stream (st_db w2) (sa_TYPE a) k = stream (st_db w1) (sa_TYPE a) k" by (auto simp: prefix_def)
    with l(1) have s: "replay app initial (events_of a (st_db w2) k) = Return s" by (simp add: events_of_def)
    have "su = None \<or> (\<exists>version. su = Some (k, write_state a s', version))"
      using decided(6,7) e reapplied by fastforce
    from serial_decided [where handle = handle, OF s decided(5,6) this decided(9) _ decided(11)] decided(10) [unfolded persist_def] n w2 k2(1)
    show ?thesis unfolding decided(1) by blast
  qed
next
  case (failed e)
  from failed(3) have "e \<in> {AggregateConflict, DatabaseConnectionError, DeserializationError, UnexpectedError}" by auto
  note run = serial_failed [OF this, of is_object a handle app initial "er_tasks repository" k command w']
  with failed(1) others_keep(1) [OF failed(2) assms(4) others] failed(2) show ?thesis by blast
qed

text \<open>A call of the executor of \<open>postgres/command_factory.rs\<close>, with its retries.\<close>

lemma executor_serial:
  fixes reader defines "repository \<equiv> with_outbox (PostgresEventRepositoryWithOutbox_new reader)"
  assumes laws: "reader_laws reader"
    and ok: "\<And>w. ok w \<Longrightarrow> database_ok is_object (st_db w) \<and> aggregate_ok a app initial (st_db w)"
    and others: "\<And>w w'. others w w' \<Longrightarrow> ok w \<Longrightarrow> ok w' \<and> grows a (st_db w) (st_db w')" and "ok w"
    and sleep: "\<And>d w. others\<^sup>*\<^sup>* w (sleep d w)"
    and fw: "\<And>w w' r. fw_execute (new_framework (new_snapshot_store (repository tasks) (cc_snapshot_interval config)))
        k command w = Return (w', r) \<Longrightarrow> framework_run is_object others a handle app initial (repository tasks) k command w w' r"
    and run: "command_executor reader new_snapshot_store new_framework fw_execute backoff sleep config k command tasks w = Return (w', r)"
  shows "\<exists>w0 r'. others\<^sup>*\<^sup>* w w0 \<and> serial_run is_object a handle app initial tasks k command w0 w' r' \<and>
    r = map_err map_aggregate_error r'"
proof (rule executor_once [where ok = ok])
  have "er_reader (repository tasks) = reader" "er_tasks (repository tasks) = tasks"
    by (simp_all add: repository_def with_outbox_def PostgresEventRepositoryWithOutbox_new_def)
  then show "\<exists>w0. others\<^sup>*\<^sup>* w w0 \<and> serial_run is_object a handle app initial tasks k command w0 w' r"
    if "ok w" "fw_execute (new_framework (new_snapshot_store (repository tasks) (cc_snapshot_interval config)))
        k command w = Return (w', r)" for w w' r
    using framework_serial [OF _ ok others that(1) fw [OF that(2)]] laws by auto
  show "w' = w" if "ok w" "serial_run is_object a handle app initial tasks k command w w' (Err AggregateConflict)" for w w'
    using serial_conflict [OF that(2)] ok [OF that(1)] by (simp add: database_ok_def)
  show "CqrsCommandExecutor_execute (\<lambda>tasks. new_framework (new_snapshot_store (repository tasks) (cc_snapshot_interval config)))
      fw_execute (backoff (cc_conflict_retry config)) sleep (cp_max_attempts (cc_conflict_retry config)) k command tasks w = Return (w', r)"
    using run by (simp add: command_executor_def repository_def Let_def)
qed (use others_keep(1) [OF _ _ others] sleep assms(5) in \<open>auto\<close>)

text \<open>What a serial attempt comes to: its one event, snapshot and tasks in the tables, or nothing.\<close>

lemma serial_outcome:
  assumes run: "serial_run is_object a handle app initial tasks k command w w' r"
    and laws: "serde_laws (sa_serde a)" and ok: "aggregate_ok a app initial (st_db w)" "database_ok is_object (st_db w)"
  obtains (committed) s e tx event sn where "replay app initial (events_of a (st_db w) k) = Return s"
      "handle s command = Return (Ok [e])" "r = Ok () \<or> (\<exists>x. r = Err x \<and> map_aggregate_error x = CommandGatewayError.Unavailable)"
      "w' = w\<lparr> st_db := st_db w' \<rparr>" "committed is_object tx (sa_TYPE a) tasks event (int (se_sequence event)) sn (st_db w) (st_db w')"
      "aggregate_ok a app initial (st_db w')" "events_of a (st_db w') = (events_of a (st_db w))(k := events_of a (st_db w) k @ [e])"
      "grows a (st_db w) (st_db w')"
  | (rejected) s d where "replay app initial (events_of a (st_db w) k) = Return s" "handle s command = Return (Err d)"
      "r = Err (UserError d)" "w' = w"
  | (failed) x where "r = Err x" "\<And>d. x \<noteq> UserError d" "w' = w"
  using run
proof cases
  case (serial_rejected s d)
  then show ?thesis by (intro that(2)) simp_all
next
  case (serial_decided s evs s' su link tx metadata db' written)
  from handle_one_event [OF serial_decided(3)] obtain e where e: "evs = [e]" by blast
  from ok(2) have "table_ok is_object (db_outbox (st_db w))" by (simp add: database_ok_def)
  with serial_decided(7) show ?thesis
  proof (cases rule: persist_command_cases)
    case noop
    with e show ?thesis by simp
  next
    case unchanged
    from write_answer_Err [OF serial_decided(8) unchanged(2)] obtain x where "r = Err x" "\<And>d. x \<noteq> UserError d" by auto
    with unchanged(1) serial_decided(1) show ?thesis by (intro that(3) [of x]) simp_all
  next
    case (written event sn)
    from written(1) e have ev: "[event] = serialize_events a k metadata (length (stream (st_db w) (sa_TYPE a) k)) [e]"
      "se_sequence event = Suc (length (stream (st_db w) (sa_TYPE a) k))" by auto
    have s': "replay app initial (events_of a (st_db w) k @ [e]) = Return s'" using serial_decided(2,4) e by simp
    note c = committed_event [OF laws ok(1) written(3) [unfolded ev(2)] ev(1) s' written(2) serial_decided(5)]
    have "r = Ok () \<or> (\<exists>x. r = Err x \<and> map_aggregate_error x = CommandGatewayError.Unavailable)"
      using written(4)
    proof
      assume "\<exists>e. link = FailsAfter e \<and> written = Err (map_sqlx_error e)"
      with serial_decided(6) obtain x where "written = Err x" "x \<noteq> OptimisticLockError" by (auto simp: link_ok_def)
      with serial_decided(8) show ?thesis by (cases x) auto
    qed (use serial_decided(8) in simp)
    with c serial_decided(1-3) e written(3) show ?thesis by (intro that(1) [of s e tx event sn]) simp_all
  qed
next
  case (serial_failed x)
  then show ?thesis by (intro that(3) [of x]) auto
qed

end

interpretation email_snapshots: snapshot_tolerant EmailReservation_handle EmailReservation_apply
  EmailReservation_default reservation_inv
  by unfold_locales (auto split: ReservationPhase.splits elim: EmailReservation_apply.elims)

interpretation account_snapshots: snapshot_tolerant UserAccount_handle UserAccount_apply
  UserAccount_default account_inv
  by unfold_locales (auto elim: UserAccount_apply.elims)

section \<open>An executor that does not fail\<close>

text \<open>It replays the stream, decides, and persists without a snapshot over a connection that holds.\<close>

definition serial_execute ::
  "('v \<Rightarrow> bool) \<Rightarrow> ('s, 'e, 'v) stored_aggregate \<Rightarrow> ('s \<Rightarrow> 'c \<Rightarrow> ('e list, 'd) result run) \<Rightarrow> ('s \<Rightarrow> 'e \<Rightarrow> 's run) \<Rightarrow> 's
     \<Rightarrow> Tx \<Rightarrow> 'v \<Rightarrow> ('v store, 'c, 'v, 'd) executor" where
  "serial_execute is_object a handle app initial tx metadata k command tasks s =
     (case replay app initial (events_of a (st_db s) k) of Panic \<Rightarrow> (s, Err CommandGatewayError.Unavailable)
      | Return st \<Rightarrow> (case handle st command of Panic \<Rightarrow> (s, Err CommandGatewayError.Unavailable)
          | Return (Err d) \<Rightarrow> (s, Err (CommandGatewayError.Domain d))
          | Return (Ok evs) \<Rightarrow> (case replay app st evs of Panic \<Rightarrow> (s, Err CommandGatewayError.Unavailable)
              | Return _ \<Rightarrow> (case persist_command is_object tx Connected (sa_TYPE a) tasks
                    (serialize_events a k metadata (length (stream (st_db s) (sa_TYPE a) k)) evs) None (st_db s) of
                  (db, Ok _) \<Rightarrow> (s\<lparr> st_db := db \<rparr>, Ok ())
                | (db, Err OptimisticLockError) \<Rightarrow> (s\<lparr> st_db := db \<rparr>, Err CommandGatewayError.Conflict)
                | (db, Err _) \<Rightarrow> (s\<lparr> st_db := db \<rparr>, Err CommandGatewayError.Unavailable)))))"

lemma serial_execute_serial:
  "\<exists>r. serial_run is_object a handle app initial tasks k command s
       (fst (serial_execute is_object a handle app initial tx metadata k command tasks s)) r \<and>
     snd (serial_execute is_object a handle app initial tx metadata k command tasks s) = map_err map_aggregate_error r"
proof -
  let ?run = "serial_run is_object a handle app initial tasks k command s"
  have failed: "\<exists>r. ?run s r \<and> Err CommandGatewayError.Unavailable = map_err map_aggregate_error r"
    by (rule exI [of _ "Err DatabaseConnectionError"]) (simp add: serial_failed)
  show ?thesis
  proof (cases "replay app initial (events_of a (st_db s) k)")
    case (Return st)
    show ?thesis
    proof (cases "handle st command")
      case decision: (Return x)
      show ?thesis
      proof (cases x)
        case (Ok evs)
        show ?thesis
        proof (cases "replay app st evs")
          case applied: (Return st')
          obtain db written where p: "persist_command is_object tx Connected (sa_TYPE a) tasks
              (serialize_events a k metadata (length (stream (st_db s) (sa_TYPE a) k)) evs) None (st_db s) = (db, written)"
            by fastforce
          have link: "link_ok Connected" by (simp add: link_ok_def)
          have run: "write_answer written r \<Longrightarrow> ?run (s\<lparr> st_db := db \<rparr>) r" for r
            by (rule serial_decided [OF Return _ applied _ link p]) (simp_all add: decision Ok)
          have "\<exists>r. ?run (s\<lparr> st_db := db \<rparr>) r \<and> map_err map_aggregate_error r = (case written of Ok _ \<Rightarrow> Ok ()
              | Err OptimisticLockError \<Rightarrow> Err CommandGatewayError.Conflict | Err _ \<Rightarrow> Err CommandGatewayError.Unavailable)"
          proof (cases written)
            case (Err e)
            with run [of "Err AggregateConflict"] run [of "Err DatabaseConnectionError"] show ?thesis
              by (cases e) fastforce+
          qed (use run [of "Ok ()"] in fastforce)
          then obtain r where "?run (s\<lparr> st_db := db \<rparr>) r" "map_err map_aggregate_error r = (case written of Ok _ \<Rightarrow> Ok ()
              | Err OptimisticLockError \<Rightarrow> Err CommandGatewayError.Conflict | Err _ \<Rightarrow> Err CommandGatewayError.Unavailable)" by blast
          with Return decision Ok applied p show ?thesis
            by (intro exI [of _ r]) (auto simp: serial_execute_def split: result.splits PersistenceError.splits)
        qed (use Return decision Ok failed in \<open>simp add: serial_execute_def\<close>)
      next
        case (Err d)
        with Return decision serial_rejected [of app initial a s k st handle command d] show ?thesis
          by (intro exI [of _ "Err (UserError d)"]) (simp add: serial_execute_def)
      qed
    qed (use Return failed in \<open>simp add: serial_execute_def\<close>)
  qed (use failed in \<open>simp add: serial_execute_def\<close>)
qed

lemma serial_execute_commits:
  assumes "replay app initial (events_of a (st_db s) k) = Return st" "handle st command = Return (Ok [e])" "app st e = Return st'"
    and gap: "gap_free (st_db s) (sa_TYPE a) k" and n: "int (length (stream (st_db s) (sa_TYPE a) k)) < i64_max"
    and binds: "length tasks \<le> 1"
    and rows: "(if tasks = [] then Some (db_outbox (st_db s)) else
      insert_tasks is_object tx (sa_TYPE a) k (int (Suc (length (stream (st_db s) (sa_TYPE a) k)))) tasks (db_outbox (st_db s))) = Some rows"
  shows "\<exists>db. serial_execute is_object a handle app initial tx metadata k command tasks s = (s\<lparr> st_db := db \<rparr>, Ok ()) \<and>
    db_outbox db = rows \<and> (\<forall>ty k'. ty \<noteq> sa_TYPE a \<longrightarrow> stream db ty k' = stream (st_db s) ty k')"
proof -
  let ?n = "length (stream (st_db s) (sa_TYPE a) k)"
  have new: "(sa_TYPE a, k, int (Suc ?n)) \<notin> set (map event_key (db_events (st_db s)))"
  proof
    assume "(sa_TYPE a, k, int (Suc ?n)) \<in> set (map event_key (db_events (st_db s)))"
    then have "int (Suc ?n) \<in> set (map ev_sequence (stream (st_db s) (sa_TYPE a) k))"
      by (force simp: event_key_def stream_def)
    with gap show False unfolding gap_free_def by (auto simp del: upt_Suc)
  qed
  let ?event = "\<lparr> se_aggregate_id = k, se_sequence = Suc ?n, se_event_type = sa_event_type a e,
    se_event_version = sa_event_version a e, se_payload = sd_write_event (sa_serde a) e, se_metadata = metadata \<rparr>"
  let ?db = "\<lparr> db_events = db_events (st_db s) @ [event_row (sa_TYPE a) ?event (int (Suc ?n))],
    db_snapshots = db_snapshots (st_db s), db_outbox = rows \<rparr>"
  have "event_key (event_row (sa_TYPE a) ?event (int (Suc ?n))) = (sa_TYPE a, k, int (Suc ?n))"
    by (simp add: event_key_def event_row_def)
  with new rows have w: "write_statement is_object tx (sa_TYPE a) tasks ?event (int (Suc ?n)) NoSnapshot (st_db s) = Ok (?db, 1)"
    by (cases "tasks = []") (simp_all add: write_statement_def)
  have "sequence_as_i64 (Suc ?n) = Ok (int (Suc ?n))" using n by (simp add: sequence_as_i64_def i64_try_from_def)
  moreover have "validate_bind_count (length tasks) 0 = Ok ()"
    using binds by (cases "length tasks") (simp_all add: validate_bind_count_def usize_checked_mul_def usize_checked_add_def usize_max_def Let_def)
  ultimately have p: "persist_command is_object tx Connected (sa_TYPE a) tasks [?event] None (st_db s) = (?db, Ok ())"
    using w by (simp add: persist_command_def WritePlan_new_def persist_one_def)
  have "serial_execute is_object a handle app initial tx metadata k command tasks s = (s\<lparr> st_db := ?db \<rparr>, Ok ())"
    using assms(1-3) by (simp add: serial_execute_def p)
  then show ?thesis by (intro exI [of _ ?db]) (simp add: stream_def event_row_def)
qed

end
