(* ===== verification/Stored_Registration.thy ===== *)
theory Stored_Registration
  imports Stored_Commands Task_Execution
begin

text \<open>
  The registration over its tables: events, snapshots and outbox rows, with the tasks that workers
  hold under a lease. \<open>stored_step\<close> is one request of a client, one delivery of a held task, one
  settlement or another operation of the queue with its clocks and faults; a delivery may be
  abandoned, so that no one hears its answer. A request or a delivery executes its command
  as a \<open>serial_run\<close>, which by \<open>Stored_Commands\<close> is what every call of the retrying executor comes to.

  The theory shows that this system refines the one of \<open>Registration\<close>: each of its steps is a step of
  the streams and published tasks, or none. So what holds of every reachable system holds of the
  rows of the tables.
\<close>

section \<open>Steps on the tables\<close>

type_synonym 'v email_serde = "(EmailReservation, EmailReservationEvent, 'v) serde"
type_synonym 'v account_serde = "(UserAccount, UserAccountEvent, 'v) serde"

type_synonym 'v stored_email_executor = "('v store, EmailReservationCommand, 'v, EmailReservationError) executor"
type_synonym 'v stored_account_executor = "('v store, UserAccountCommand, 'v, UserAccountError) executor"

definition email_executor_serial :: "('v \<Rightarrow> bool) \<Rightarrow> 'v email_serde \<Rightarrow> 'v stored_email_executor \<Rightarrow> bool" where
  "email_executor_serial is_object es ex \<longleftrightarrow> (\<forall>k command tasks s. \<exists>r.
     serial_run is_object (EmailReservation_stored es) EmailReservation_handle EmailReservation_apply EmailReservation_default
       tasks k command s (fst (ex k command tasks s)) r \<and> snd (ex k command tasks s) = map_err map_aggregate_error r)"

definition account_executor_serial :: "('v \<Rightarrow> bool) \<Rightarrow> 'v account_serde \<Rightarrow> 'v stored_account_executor \<Rightarrow> bool" where
  "account_executor_serial is_object us ax \<longleftrightarrow> (\<forall>k command tasks s. \<exists>r.
     serial_run is_object (UserAccount_stored us) UserAccount_handle UserAccount_apply UserAccount_default
       tasks k command s (fst (ax k command tasks s)) r \<and> snd (ax k command tasks s) = map_err map_aggregate_error r)"

abbreviation serial_email where
  "serial_email c es tx metadata \<equiv> serial_execute (cd_is_object c) (EmailReservation_stored es)
     EmailReservation_handle EmailReservation_apply EmailReservation_default tx metadata"

abbreviation serial_account where
  "serial_account c us tx metadata \<equiv> serial_execute (cd_is_object c) (UserAccount_stored us)
     UserAccount_handle UserAccount_apply UserAccount_default tx metadata"

lemma serial_executors:
  "email_executor_serial (cd_is_object c) es (serial_email c es tx metadata)"
  "account_executor_serial (cd_is_object c) us (serial_account c us tx metadata)"
  by (simp_all add: email_executor_serial_def account_executor_serial_def serial_execute_serial)

definition store_write :: "bool \<Rightarrow> rstring \<Rightarrow> rstring \<Rightarrow> 'v store \<Rightarrow> 'v store \<times> bool" where
  "store_write ok partial text s = (s\<lparr> st_console := st_console s @ (if ok then text else partial) \<rparr>, ok)"

definition store_flush :: "bool \<Rightarrow> 'v store \<Rightarrow> 'v store \<times> bool" where
  "store_flush ok s = (s, ok)"

definition set_outbox :: "'v outbox \<Rightarrow> 'v store \<Rightarrow> 'v store" where
  "set_outbox rows s = s\<lparr> st_db := (st_db s)\<lparr> db_outbox := rows \<rparr> \<rparr>"

fun publishes :: "'v queue_op \<Rightarrow> bool" where
  "publishes (PublishOp _ _ _ _ _) = True"
| "publishes _ = False"

text \<open>
  What a worker may ask for: the request of an answered handler, or a redelivery, which it also asks
  for when the handler was not started or did not finish (\<open>task/executor/default_executor.rs\<close>).
\<close>

fun redelivers :: "SettlementRequest \<Rightarrow> bool" where
  "redelivers (SettlementRequest.Retry _ _) = True"
| "redelivers _ = False"

definition may_settle :: "'v store \<Rightarrow> 'v LeasedTask \<Rightarrow> SettlementRequest \<Rightarrow> bool" where
  "may_settle s t request \<longleftrightarrow> redelivers request \<or>
     (\<exists>answer delay. (t, answer) \<in> st_handled s \<and> request = settlement_request answer delay)"

text \<open>An execution starts no other settlement.\<close>

lemma started_settlement:
  assumes exec: "execute_and_settle env S settle_call dispatcher t H w = Return (w', r, evs)"
    and req: "SettleStarted request polled limit \<in> set evs"
  shows "redelivers request \<or> (\<exists>w1 answer delay. TaskDispatcher_dispatch dispatcher (lt_attempt t) w = Return (w1, answer) \<and>
    request = settlement_request answer delay)"
proof (cases "execution_plan (ex_plan_now env) (tl_deadline (lt_lease t)) H S")
  case (Ok plan)
  show ?thesis
  proof (cases plan)
    case (Run hdl sd)
    from exec Ok Run obtain w1 answer where d: "TaskDispatcher_dispatch dispatcher (lt_attempt t) w = Return (w1, answer)"
      by (auto simp: execute_and_settle_def)
    obtain x1 result invoked where sel: "select_before (ex_timer env) hdl (ex_handler_polled env) (Invoked (ex_handler_polled env))
        \<lparr> ca_finishes = ex_handler_finishes env, ca_world = w1, ca_result = answer, ca_dropped = ex_handler_dropped env \<rparr>
        (Err (TaskHandlerError.Retry (lit ''handler timed out'') None)) w = (x1, result, invoked)" by (rule prod_cases3)
    from exec obtain delay evs2 where st: "settle_before env S settle_call (settlement_request result delay) sd x1 = Return (w', r, evs2)"
      "evs = invoked @ evs2" by (auto simp: execute_and_settle_def Ok Run d sel Let_def)
    from select_before_log [OF sel] settle_before_log [OF st(1)] st(2) req have request: "request = settlement_request result delay" by auto
    from sel have "result = answer \<or> result = Err (TaskHandlerError.Retry (lit ''handler timed out'') None)"
      by (auto simp: select_before_def split: if_splits)
    with request d show ?thesis by auto
  next
    case (RetryOnly sd)
    with exec Ok obtain delay reason where "settle_before env S settle_call (SettlementRequest.Retry delay reason) sd w = Return (w', r, evs)"
      by (auto simp: execute_and_settle_def)
    from settle_before_log [OF this] req show ?thesis by auto
  qed (use exec Ok req in \<open>auto simp: execute_and_settle_def\<close>)
qed (use exec req in \<open>auto simp: execute_and_settle_def\<close>)

fun maintains :: "'v queue_op \<Rightarrow> bool" where
  "maintains (ClaimOp _ _ _ _ _ _) = True"
| "maintains (RecoverOp _ _ _) = True"
| "maintains (RequeueOp _ _) = True"
| "maintains _ = False"

inductive stored_step ::
  "(rstring \<Rightarrow> rstring) \<Rightarrow> (DateTime \<Rightarrow> NaiveDate) \<Rightarrow> (Uuid \<Rightarrow> rstring) \<Rightarrow> 'v codec \<Rightarrow> 'v email_serde \<Rightarrow> 'v account_serde
     \<Rightarrow> 'v store \<Rightarrow> 'v store \<Rightarrow> bool"
  for sha256_hex date_naive uuid_fmt c es us where
  stored_reserves: "email_executor_serial (cd_is_object c) es ex \<Longrightarrow> material_ok generator \<Longrightarrow>
     reserve_email c (CqrsEmailReservationGateway_execute_with_outbox ex) generator v4 email s = (s', reserved) \<Longrightarrow>
     stored_step sha256_hex date_naive uuid_fmt c es us s s'"
| stored_requests_code: "email_executor_serial (cd_is_object c) es ex \<Longrightarrow> material_ok generator \<Longrightarrow>
     request_new_verification_code c (CqrsEmailReservationGateway_execute_with_outbox ex) generator v4 email s = (s', requested) \<Longrightarrow>
     stored_step sha256_hex date_naive uuid_fmt c es us s s'"
| stored_confirms: "email_executor_serial (cd_is_object c) es ex \<Longrightarrow>
     confirm_email sha256_hex (CqrsEmailReservationGateway_execute ex) generator email account_id code s = (s', confirmed) \<Longrightarrow>
     stored_step sha256_hex date_naive uuid_fmt c es us s s'"
| stored_submits: "email_executor_serial (cd_is_object c) es ex \<Longrightarrow>
     submit_profile sha256_hex date_naive c (CqrsEmailReservationGateway_execute_with_outbox ex) now v4 submission s = (s', submitted) \<Longrightarrow>
     stored_step sha256_hex date_naive uuid_fmt c es us s s'"
| stored_delivers: "t \<in> set (st_held s) \<Longrightarrow> email_executor_serial (cd_is_object c) es ex \<Longrightarrow>
     account_executor_serial (cd_is_object c) us ax \<Longrightarrow>
     build_dispatcher c uuid_fmt (store_write written partial) (store_flush flushed) ex ax now v4 = Ok d \<Longrightarrow>
     TaskDispatcher_dispatch d (lt_attempt t) s = Return (s', handled) \<Longrightarrow>
     stored_step sha256_hex date_naive uuid_fmt c es us s (s'\<lparr> st_handled := insert (t, handled) (st_handled s') \<rparr>)"
| stored_abandons: "t \<in> set (st_held s) \<Longrightarrow> email_executor_serial (cd_is_object c) es ex \<Longrightarrow>
     account_executor_serial (cd_is_object c) us ax \<Longrightarrow>
     build_dispatcher c uuid_fmt (store_write written partial) (store_flush flushed) ex ax now v4 = Ok d \<Longrightarrow>
     TaskDispatcher_dispatch d (lt_attempt t) s = Return (s', unanswered) \<Longrightarrow>
     stored_step sha256_hex date_naive uuid_fmt c es us s s'"
| stored_settles: "may_settle s t request \<Longrightarrow>
     stored_step sha256_hex date_naive uuid_fmt c es us s
       (set_outbox (queue_step (cd_is_object c) (SettleOp tx t request) (db_outbox (st_db s))) s)"
| stored_claims: "claim (cd_is_object c) tx now (db_outbox (st_db s)) fmt owner limit lease_duration = (rows, Ok ts) \<Longrightarrow>
     stored_step sha256_hex date_naive uuid_fmt c es us s ((set_outbox rows s)\<lparr> st_held := st_held s @ ts \<rparr>)"
| stored_queues: "maintains op \<Longrightarrow>
     stored_step sha256_hex date_naive uuid_fmt c es us s
       (set_outbox (queue_step (cd_is_object c) op (db_outbox (st_db s))) s)"

definition empty_store :: "'v store" where
  "empty_store = \<lparr> st_db = \<lparr> db_events = [], db_snapshots = [], db_outbox = [] \<rparr>, st_held = [], st_handled = {}, st_console = [] \<rparr>"

section \<open>Rows and published tasks\<close>

definition row_task :: "'v OutboxRow \<Rightarrow> 'v NewTask \<Rightarrow> bool" where
  "row_task r t \<longleftrightarrow> nt_id t = ob_id r \<and> nt_format t = \<lparr> task_type = ob_task_type r, task_version = ob_task_version r \<rparr> \<and>
     nt_payload t = ob_payload r \<and> nt_metadata t = ob_metadata r \<and> nt_max_attempts t = ob_max_attempts r"

definition held_row :: "'v LeasedTask \<Rightarrow> 'v OutboxRow \<Rightarrow> bool" where
  "held_row t r \<longleftrightarrow> ta_id (lt_attempt t) = ob_id r \<and>
     ta_format (lt_attempt t) = \<lparr> task_type = ob_task_type r, task_version = ob_task_version r \<rparr> \<and>
     ta_payload (lt_attempt t) = ob_payload r \<and> ta_metadata (lt_attempt t) = ob_metadata r"

lemma row_task_same: "same_task r r' \<Longrightarrow> row_task r' t \<longleftrightarrow> row_task r t"
  by (simp add: same_task_def row_task_def)

lemma held_row_same: "same_task r r' \<Longrightarrow> held_row t r' \<longleftrightarrow> held_row t r"
  by (simp add: same_task_def held_row_def)

lemma held_attempt:
  assumes "held_row t r" "row_task r task"
  shows "lt_attempt t = attempt_of task (ta_number (lt_attempt t))"
  using assms by (simp add: held_row_def row_task_def attempt_of_def)

lemma outbox_row_task: "outbox_row tx ty k n t = Some r \<Longrightarrow> row_task r t"
  by (auto simp: outbox_row_def row_task_def split: prod.splits)

text \<open>An operation of the queue keeps every row, with its work, and adds none.\<close>

lemma queue_step_ids:
  assumes ok: "table_ok is_object rows" and "\<not> publishes op"
  shows "map ob_id (queue_step is_object op rows) = map ob_id rows"
proof (cases op)
  case (ClaimOp tx now fmt owner limit ld)
  obtain rows' res where cl: "claim is_object tx now rows fmt owner limit ld = (rows', res)" by fastforce
  from ok cl have "map ob_id rows' = map ob_id rows"
    by (cases rule: claim_cases) (use map_ob_id_claimed [OF ok] in auto)
  with ClaimOp cl show ?thesis by simp
next
  case (SettleOp tx task request)
  obtain rows' res where se: "settle is_object tx rows task request = (rows', res)" by fastforce
  from ok se have "map ob_id rows' = map ob_id rows"
    by (cases rule: settle_cases) (auto simp: replace_row_def)
  with SettleOp se show ?thesis by simp
next
  case (RecoverOp tx backoff limit)
  obtain rows' res where re: "recover_expired is_object tx backoff rows limit = (rows', res)" by fastforce
  from ok re have "map ob_id rows' = map ob_id rows"
  proof (cases rule: recover_cases)
    case recovered
    have "ob_id (if ob_id r \<in> rw_id ` set (expired_rows tx limit rows) then the (recovered_row tx backoff r) else r) = ob_id r"
      if r: "r \<in> set rows" for r
    proof (cases "ob_id r \<in> rw_id ` set (expired_rows tx limit rows)")
      case True
      with recovered(3) [OF r] obtain r' where "recovered_row tx backoff r = Some r'" "ob_status r = ''processing''"
        by (auto simp: is_expired_def)
      with recovered_row_ok(2) [OF table_okD [OF ok r]] True show ?thesis by (simp add: same_task_def)
    qed simp
    then show ?thesis by (simp add: recovered(1) recovered_rows_def)
  qed simp
  with RecoverOp re show ?thesis by simp
next
  case (RequeueOp ts i)
  then show ?thesis by (simp add: requeue_failed_def)
qed (use assms(2) in simp)

lemma queue_step_rows:
  assumes ok: "table_ok is_object rows" and "\<not> publishes op"
  shows "r \<in> set rows \<Longrightarrow> \<exists>r'\<in>set (queue_step is_object op rows). same_task r r'"
    and "r' \<in> set (queue_step is_object op rows) \<Longrightarrow> \<exists>r\<in>set rows. same_task r r'"
proof -
  show kept: "\<exists>r'\<in>set (queue_step is_object op rows). same_task r r'" if "r \<in> set rows" for r
    using queue_step_row [OF ok that, of op] by (auto simp: row_evolves_def)
  assume r': "r' \<in> set (queue_step is_object op rows)"
  then have "ob_id r' \<in> set (map ob_id rows)" unfolding queue_step_ids [OF assms, symmetric] by simp
  then obtain r where r: "r \<in> set rows" "ob_id r = ob_id r'" by auto
  from kept [OF r(1)] obtain r'' where "r'' \<in> set (queue_step is_object op rows)" "same_task r r''" by blast
  moreover from this r have "r'' = r'"
    using table_ok_unique [OF queue_step_table_ok [OF ok] _ r'] by (simp add: same_task_def)
  ultimately show "\<exists>r\<in>set rows. same_task r r'" using r(1) by blast
qed

section \<open>The invariant of the store and what it represents\<close>

definition store_ok :: "'v codec \<Rightarrow> 'v email_serde \<Rightarrow> 'v account_serde \<Rightarrow> 'v store \<Rightarrow> bool" where
  "store_ok c es us s \<longleftrightarrow> database_ok (cd_is_object c) (st_db s) \<and>
     aggregate_ok (EmailReservation_stored es) EmailReservation_apply EmailReservation_default (st_db s) \<and>
     aggregate_ok (UserAccount_stored us) UserAccount_apply UserAccount_default (st_db s) \<and>
     (\<forall>t\<in>set (st_held s). \<exists>r\<in>set (db_outbox (st_db s)). held_row t r)"

definition follows :: "'v codec \<Rightarrow> 'v email_serde \<Rightarrow> 'v account_serde \<Rightarrow> 'v store \<Rightarrow> 'v store \<Rightarrow> bool" where
  "follows c es us s s' \<longleftrightarrow> store_ok c es us s' \<and> grows (EmailReservation_stored es) (st_db s) (st_db s') \<and>
     grows (UserAccount_stored us) (st_db s) (st_db s') \<and> set (st_held s) \<subseteq> set (st_held s')"

definition represents :: "'v email_serde \<Rightarrow> 'v account_serde \<Rightarrow> 'v store \<Rightarrow> 'v system \<Rightarrow> bool" where
  "represents es us s w \<longleftrightarrow> sy_mailboxes w = events_of (EmailReservation_stored es) (st_db s) \<and>
     sy_accounts w = events_of (UserAccount_stored us) (st_db s) \<and>
     rel_set row_task (set (db_outbox (st_db s))) (set (sy_tasks w)) \<and> sy_console w = st_console s"

lemma store_ok_table: "store_ok c es us s \<Longrightarrow> table_ok (cd_is_object c) (db_outbox (st_db s))"
  by (simp add: store_ok_def database_ok_def)

text \<open>A commit or a write to the console: rows are only added, none of them completed.\<close>

definition quiet :: "'v store \<Rightarrow> 'v store \<Rightarrow> bool" where
  "quiet s s' \<longleftrightarrow> st_held s' = st_held s \<and> st_handled s' = st_handled s \<and> prefix (st_console s) (st_console s') \<and>
     set (db_outbox (st_db s)) \<subseteq> set (db_outbox (st_db s')) \<and>
     (\<forall>r\<in>set (db_outbox (st_db s')). ob_status r = ''completed'' \<longrightarrow> r \<in> set (db_outbox (st_db s)))"

abbreviation advanced where
  "advanced c es us s \<equiv> \<lambda>s' w'. represents es us s' w' \<and> follows c es us s s' \<and> quiet s s'"

lemma quiet_refl [simp]: "quiet s s"
  by (simp add: quiet_def)

lemma stored_types [simp]:
  "sa_TYPE (EmailReservation_stored es) = lit ''email_reservation''" "sa_serde (EmailReservation_stored es) = es"
  "sa_TYPE (UserAccount_stored us) = lit ''user_account''" "sa_serde (UserAccount_stored us) = us"
  by (simp_all add: EmailReservation_stored_def UserAccount_stored_def)

lemma stored_types_differ: "lit ''email_reservation'' \<noteq> lit ''user_account''"
  by (simp add: lit_def)

lemma empty_store_ok: "store_ok c es us empty_store" "represents es us empty_store empty_system"
  by (auto simp: store_ok_def represents_def empty_store_def empty_system_def database_ok_def table_ok_def aggregate_ok_def
      gap_free_def stream_def snapshots_of_def events_of_def rel_set_def)

definition task_of :: "'v OutboxRow \<Rightarrow> 'v NewTask" where
  "task_of r = \<lparr> nt_id = ob_id r, nt_format = \<lparr> task_type = ob_task_type r, task_version = ob_task_version r \<rparr>,
     nt_payload = ob_payload r, nt_metadata = ob_metadata r, nt_schedule = Now, nt_max_attempts = ob_max_attempts r \<rparr>"

lemma represents_exists: "\<exists>w. represents es us s w"
proof
  show "represents es us s \<lparr> sy_mailboxes = events_of (EmailReservation_stored es) (st_db s),
      sy_accounts = events_of (UserAccount_stored us) (st_db s), sy_tasks = map task_of (db_outbox (st_db s)),
      sy_console = st_console s \<rparr>"
    by (auto simp: represents_def rel_set_def row_task_def task_of_def)
qed

lemma committed_tasks:
  assumes "committed is_object tx ty tasks event n sn db db'" "rel_set row_task (set (db_outbox db)) (set ts)"
  shows "rel_set row_task (set (db_outbox db')) (set (ts @ tasks))" "set (db_outbox db) \<subseteq> set (db_outbox db')"
    "\<And>r. r \<in> set (db_outbox db') \<Longrightarrow> ob_status r = ''completed'' \<Longrightarrow> r \<in> set (db_outbox db)"
proof -
  from assms(1) obtain new where new: "db_outbox db' = db_outbox db @ new"
    "map (outbox_row tx ty (se_aggregate_id event) n) tasks = map Some new" by (auto simp: committed_def)
  then have "list_all2 row_task new tasks"
    by (auto simp: list_all2_conv_all_nth list_eq_iff_nth_eq [of "map _ _"] intro!: outbox_row_task [of tx ty "se_aggregate_id event" n])
  then have "rel_set row_task (set new) (set tasks)"
    using list.set_transfer [of row_task] unfolding rel_fun_def by blast
  with assms(2) show "rel_set row_task (set (db_outbox db')) (set (ts @ tasks))" unfolding new(1) rel_set_def by auto
  show "set (db_outbox db) \<subseteq> set (db_outbox db')" unfolding new(1) by simp
  have "ob_status r = ''pending''" if "r \<in> set new" for r
  proof -
    from that have "Some r \<in> set (map (outbox_row tx ty (se_aggregate_id event) n) tasks)" unfolding new(2) by simp
    then obtain t where "outbox_row tx ty (se_aggregate_id event) n t = Some r" by auto
    then show ?thesis by (auto simp: outbox_row_def split: prod.splits)
  qed
  then show "r \<in> set (db_outbox db)" if "r \<in> set (db_outbox db')" "ob_status r = ''completed''" for r
    using that unfolding new(1) by auto
qed

text \<open>A serial attempt on the tables is an attempt on what they represent.\<close>

lemma email_attempt:
  assumes run: "serial_run (cd_is_object c) (EmailReservation_stored es) EmailReservation_handle EmailReservation_apply
      EmailReservation_default tasks k command s s' r"
    and laws: "serde_laws es" and ok: "store_ok c es us s" and rep: "represents es us s w"
  shows "\<exists>w'. advanced c es us s s' w' \<and>
    attempts EmailReservation_handle EmailReservation_apply EmailReservation_default (\<lambda>w. sy_mailboxes w k)
      (commit_mailbox k tasks) command w w' r"
proof -
  have l: "serde_laws (sa_serde (EmailReservation_stored es))" using laws by simp
  from ok have db: "aggregate_ok (EmailReservation_stored es) EmailReservation_apply EmailReservation_default (st_db s)"
    "database_ok (cd_is_object c) (st_db s)" by (simp_all add: store_ok_def)
  note mail = rep [unfolded represents_def, THEN conjunct1]
  from run l db show ?thesis
  proof (cases rule: email_snapshots.serial_outcome)
    case (committed st e tx event sn)
    have acc: "aggregate_ok (UserAccount_stored us) UserAccount_apply UserAccount_default (st_db s')"
      "events_of (UserAccount_stored us) (st_db s') = events_of (UserAccount_stored us) (st_db s)"
      "grows (UserAccount_stored us) (st_db s) (st_db s')"
      using committed_other_aggregate [OF committed(5), of "UserAccount_stored us"] ok stored_types_differ
      by (auto simp: store_ok_def)
    have same: "st_held s' = st_held s" "st_console s' = st_console s" "st_handled s' = st_handled s" by (subst committed(4), simp)+
    from rep have ts: "rel_set row_task (set (db_outbox (st_db s))) (set (sy_tasks w))" by (simp add: represents_def)
    note tasks = committed_tasks [OF committed(5) ts]
    have "represents es us s' (commit_mailbox k tasks [e] w)"
      using rep acc(2) committed(7) tasks(1) same by (simp add: represents_def commit_mailbox_def)
    moreover have "follows c es us s s'"
      using ok acc(1,3) committed(6,8) committed_database_ok [OF db(2) committed(5)] tasks(2)
      unfolding follows_def store_ok_def same by blast
    moreover have "quiet s s'" using tasks(2,3) by (auto simp: quiet_def same)
    moreover have "attempts EmailReservation_handle EmailReservation_apply EmailReservation_default (\<lambda>w. sy_mailboxes w k)
        (commit_mailbox k tasks) command w (commit_mailbox k tasks [e] w) r"
      using committed(1-3) by (auto simp: mail intro: attempts.written attempts.maybe_written)
    ultimately show ?thesis by blast
  next
    case (rejected st d)
    with rep ok mail show ?thesis by (auto simp: follows_def intro!: exI [of _ w] attempts.refused)
  next
    case (failed x)
    with rep ok show ?thesis by (auto simp: follows_def intro!: exI [of _ w] attempts.not_written)
  qed
qed

lemma account_attempt:
  assumes run: "serial_run (cd_is_object c) (UserAccount_stored us) UserAccount_handle UserAccount_apply
      UserAccount_default tasks k command s s' r"
    and laws: "serde_laws us" and ok: "store_ok c es us s" and rep: "represents es us s w"
  shows "\<exists>w'. advanced c es us s s' w' \<and>
    attempts UserAccount_handle UserAccount_apply UserAccount_default (\<lambda>w. sy_accounts w k)
      (commit_account k tasks) command w w' r"
proof -
  have l: "serde_laws (sa_serde (UserAccount_stored us))" using laws by simp
  from ok have db: "aggregate_ok (UserAccount_stored us) UserAccount_apply UserAccount_default (st_db s)"
    "database_ok (cd_is_object c) (st_db s)" by (simp_all add: store_ok_def)
  from rep have accounts: "sy_accounts w = events_of (UserAccount_stored us) (st_db s)" by (simp add: represents_def)
  from run l db show ?thesis
  proof (cases rule: account_snapshots.serial_outcome)
    case (committed st e tx event sn)
    have mail: "aggregate_ok (EmailReservation_stored es) EmailReservation_apply EmailReservation_default (st_db s')"
      "events_of (EmailReservation_stored es) (st_db s') = events_of (EmailReservation_stored es) (st_db s)"
      "grows (EmailReservation_stored es) (st_db s) (st_db s')"
      using committed_other_aggregate [OF committed(5), of "EmailReservation_stored es"] ok stored_types_differ
      by (auto simp: store_ok_def)
    have same: "st_held s' = st_held s" "st_console s' = st_console s" "st_handled s' = st_handled s" by (subst committed(4), simp)+
    from rep have ts: "rel_set row_task (set (db_outbox (st_db s))) (set (sy_tasks w))" by (simp add: represents_def)
    note tasks = committed_tasks [OF committed(5) ts]
    have "represents es us s' (commit_account k tasks [e] w)"
      using rep mail(2) committed(7) tasks(1) same by (simp add: represents_def commit_account_def)
    moreover have "follows c es us s s'"
      using ok mail(1,3) committed(6,8) committed_database_ok [OF db(2) committed(5)] tasks(2)
      unfolding follows_def store_ok_def same by blast
    moreover have "quiet s s'" using tasks(2,3) by (auto simp: quiet_def same)
    moreover have "attempts UserAccount_handle UserAccount_apply UserAccount_default (\<lambda>w. sy_accounts w k)
        (commit_account k tasks) command w (commit_account k tasks [e] w) r"
      using committed(1-3) by (auto simp: accounts intro: attempts.written attempts.maybe_written)
    ultimately show ?thesis by blast
  next
    case (rejected st d)
    with rep ok accounts show ?thesis by (auto simp: follows_def intro!: exI [of _ w] attempts.refused)
  next
    case (failed x)
    with rep ok show ?thesis by (auto simp: follows_def intro!: exI [of _ w] attempts.not_written)
  qed
qed

section \<open>Two worlds with the same answers\<close>

text \<open>
  A use case makes one call of an executor, so that in two worlds whose executors answer alike it
  answers alike and leaves related worlds.
\<close>

definition alike :: "('a \<Rightarrow> 'b \<Rightarrow> bool) \<Rightarrow> 'a \<times> 'r \<Rightarrow> 'b \<times> 'r \<Rightarrow> bool" where
  "alike R x y \<longleftrightarrow> R (fst x) (fst y) \<and> snd x = snd y"

lemma alike_pair [simp]: "alike R (s, r) (w, r') \<longleftrightarrow> R s w \<and> r = r'"
  by (simp add: alike_def)

lemma alike_bind:
  assumes "alike R x y" "\<And>s w r. R s w \<Longrightarrow> alike R (f s r) (g w r)"
  shows "alike R (case x of (s, r) \<Rightarrow> f s r) (case y of (w, r) \<Rightarrow> g w r)"
  using assms by (cases x, cases y) auto

lemma reserve_alike:
  assumes "\<And>k command tasks. alike R (ex k command tasks s) (exA k command tasks w)" "R s w"
  shows "alike R (reserve_email c (CqrsEmailReservationGateway_execute_with_outbox ex) generator v4 email s)
    (reserve_email c (CqrsEmailReservationGateway_execute_with_outbox exA) generator v4 email w)"
  using assms(2) by (auto simp: reserve_email_def Let_def CqrsEmailReservationGateway_execute_with_outbox_def
      intro!: alike_bind [OF assms(1)] split: result.splits)

lemma request_code_alike:
  assumes "\<And>k command tasks. alike R (ex k command tasks s) (exA k command tasks w)" "R s w"
  shows "alike R (request_new_verification_code c (CqrsEmailReservationGateway_execute_with_outbox ex) generator v4 email s)
    (request_new_verification_code c (CqrsEmailReservationGateway_execute_with_outbox exA) generator v4 email w)"
  using assms(2) by (auto simp: request_new_verification_code_def Let_def CqrsEmailReservationGateway_execute_with_outbox_def
      intro!: alike_bind [OF assms(1)] split: result.splits)

lemma confirm_alike:
  assumes "\<And>k command tasks. alike R (ex k command tasks s) (exA k command tasks w)" "R s w"
  shows "alike R (confirm_email sha256_hex (CqrsEmailReservationGateway_execute ex) generator email account_id code s)
    (confirm_email sha256_hex (CqrsEmailReservationGateway_execute exA) generator email account_id code w)"
  using assms(2) by (auto simp: confirm_email_def Let_def CqrsEmailReservationGateway_execute_def
      CqrsEmailReservationGateway_execute_with_outbox_def intro!: alike_bind [OF assms(1)] split: result.splits)

lemma submit_alike:
  assumes "\<And>k command tasks. alike R (ex k command tasks s) (exA k command tasks w)" "R s w"
  shows "alike R (submit_profile sha256_hex date_naive c (CqrsEmailReservationGateway_execute_with_outbox ex) now v4 submission s)
    (submit_profile sha256_hex date_naive c (CqrsEmailReservationGateway_execute_with_outbox exA) now v4 submission w)"
  using assms(2) by (auto simp: submit_profile_def Let_def CqrsEmailReservationGateway_execute_with_outbox_def
      intro!: alike_bind [OF assms(1)] split: result.splits CommandGatewayError.splits)

lemma create_alike:
  assumes "\<And>k command tasks. alike R (ax k command tasks s) (axA k command tasks w)" "R s w"
  shows "alike R (create_account c (CqrsUserAccountGateway_execute_with_outbox uuid_fmt ax) now v4 x s)
    (create_account c (CqrsUserAccountGateway_execute_with_outbox uuid_fmt axA) now v4 x w)"
  using assms(2) by (auto simp: create_account_def Let_def CqrsUserAccountGateway_execute_with_outbox_def
      intro!: alike_bind [OF assms(1)] split: result.splits CommandGatewayError.splits UserAccountError.splits)

lemma record_alike:
  assumes "\<And>k command tasks. alike R (ex k command tasks s) (exA k command tasks w)"
  shows "alike R (record_account_created (CqrsEmailReservationGateway_execute ex) x s)
    (record_account_created (CqrsEmailReservationGateway_execute exA) x w)"
  by (auto simp: record_account_created_def CqrsEmailReservationGateway_execute_def
      CqrsEmailReservationGateway_execute_with_outbox_def
      intro!: alike_bind [OF assms] split: result.splits CommandGatewayError.splits EmailReservationError.splits)

lemma send_alike:
  assumes "\<And>text. alike R (write_all text s) (write_allA text w)" "\<And>s w. R s w \<Longrightarrow> alike R (flush s) (flushA w)" "R s w"
  shows "alike R (SendVerificationCodeTaskHandler_handle (ConsoleVerificationCodeSender_send uuid_fmt write_all flush) x a s)
    (SendVerificationCodeTaskHandler_handle (ConsoleVerificationCodeSender_send uuid_fmt write_allA flushA) x a w)"
  using assms(3) by (auto simp: SendVerificationCodeTaskHandler_handle_def ConsoleVerificationCodeSender_send_def Let_def
      intro!: alike_bind [OF assms(1)] alike_bind [OF assms(2)] split: bool.splits)

lemma alike_apsnd: "alike R x y \<Longrightarrow> alike R (apsnd f x) (apsnd f y)"
  by (simp add: alike_def)

lemma invoke_alike:
  assumes "\<And>x. alike R (handler x a s) (handlerA x a w)" "R s w"
  shows "alike R (JsonTaskAdapter_invoke fmt read handler a s) (JsonTaskAdapter_invoke fmt read handlerA a w)"
  using assms by (auto simp: JsonTaskAdapter_invoke_def split: option.splits)

lemma dispatch_alike:
  assumes d: "build_dispatcher c uuid_fmt write_all flush ex ax now v4 = Ok d"
    and dA: "build_dispatcher c uuid_fmt write_allA flushA exA axA now v4 = Ok dA"
    and ex: "\<And>k command tasks. alike R (ex k command tasks s) (exA k command tasks w)"
    and ax: "\<And>k command tasks. alike R (ax k command tasks s) (axA k command tasks w)"
    and con: "\<And>text. alike R (write_all text s) (write_allA text w)" "\<And>s w. R s w \<Longrightarrow> alike R (flush s) (flushA w)"
    and "R s w" "TaskDispatcher_dispatch d a s = Return (s', r)"
  obtains w' where "TaskDispatcher_dispatch dA a w = Return (w', r)" "R s' w'"
proof -
  have "\<exists>x y. TaskDispatcher_dispatch d a s = Return x \<and> TaskDispatcher_dispatch dA a w = Return y \<and> alike R x y"
    unfolding dispatch_service [OF d] dispatch_service [OF dA] using assms(7)
    by (auto intro!: invoke_alike alike_apsnd send_alike con create_alike ax record_alike ex)
  with assms(8) obtain y where "TaskDispatcher_dispatch dA a w = Return y" "alike R (s', r) y" by auto
  with that show thesis by (cases y) simp
qed

section \<open>Executors on the tables and on what they represent\<close>

lemma email_executor_alike:
  assumes ex: "email_executor_serial (cd_is_object c) es ex" and laws: "serde_laws es"
    and ok: "store_ok c es us s" and rep: "represents es us s w"
  shows "\<exists>exA. email_executor_ok exA \<and> (\<forall>k command tasks.
    alike (advanced c es us s) (ex k command tasks s) (exA k command tasks w))"
proof -
  have "\<exists>w'. advanced c es us s (fst (ex k command tasks s)) w' \<and>
      executes EmailReservation_handle EmailReservation_apply EmailReservation_default (\<lambda>w. sy_mailboxes w k)
        (commit_mailbox k tasks) command w w' (snd (ex k command tasks s))" for k command tasks
  proof -
    from ex obtain r where r: "serial_run (cd_is_object c) (EmailReservation_stored es) EmailReservation_handle EmailReservation_apply
        EmailReservation_default tasks k command s (fst (ex k command tasks s)) r"
      "snd (ex k command tasks s) = map_err map_aggregate_error r" unfolding email_executor_serial_def by blast
    from email_attempt [OF r(1) laws ok rep] attempts_executes r(2) show ?thesis by metis
  qed
  then obtain f where f: "\<And>k command tasks. advanced c es us s (fst (ex k command tasks s)) (f k command tasks) \<and>
      executes EmailReservation_handle EmailReservation_apply EmailReservation_default (\<lambda>w. sy_mailboxes w k)
        (commit_mailbox k tasks) command w (f k command tasks) (snd (ex k command tasks s))" by metis
  let ?exA = "\<lambda>k command tasks w'. if w' = w then (f k command tasks, snd (ex k command tasks s)) else reliable_email k command tasks w'"
  have "email_executor_ok ?exA"
    using f by (simp add: email_executor_ok_def reliable_ok(1) [unfolded email_executor_ok_def, rule_format])
  with f show ?thesis by (intro exI [of _ ?exA]) (simp add: alike_def)
qed

lemma account_executor_alike:
  assumes ax: "account_executor_serial (cd_is_object c) us ax" and laws: "serde_laws us"
    and ok: "store_ok c es us s" and rep: "represents es us s w"
  shows "\<exists>axA. account_executor_ok axA \<and> (\<forall>k command tasks.
    alike (advanced c es us s) (ax k command tasks s) (axA k command tasks w))"
proof -
  have "\<exists>w'. advanced c es us s (fst (ax k command tasks s)) w' \<and>
      executes UserAccount_handle UserAccount_apply UserAccount_default (\<lambda>w. sy_accounts w k)
        (commit_account k tasks) command w w' (snd (ax k command tasks s))" for k command tasks
  proof -
    from ax obtain r where r: "serial_run (cd_is_object c) (UserAccount_stored us) UserAccount_handle UserAccount_apply
        UserAccount_default tasks k command s (fst (ax k command tasks s)) r"
      "snd (ax k command tasks s) = map_err map_aggregate_error r" unfolding account_executor_serial_def by blast
    from account_attempt [OF r(1) laws ok rep] attempts_executes r(2) show ?thesis by metis
  qed
  then obtain f where f: "\<And>k command tasks. advanced c es us s (fst (ax k command tasks s)) (f k command tasks) \<and>
      executes UserAccount_handle UserAccount_apply UserAccount_default (\<lambda>w. sy_accounts w k)
        (commit_account k tasks) command w (f k command tasks) (snd (ax k command tasks s))" by metis
  let ?axA = "\<lambda>k command tasks w'. if w' = w then (f k command tasks, snd (ax k command tasks s)) else reliable_account k command tasks w'"
  have "account_executor_ok ?axA"
    using f by (simp add: account_executor_ok_def reliable_ok(2) [unfolded account_executor_ok_def, rule_format])
  with f show ?thesis by (intro exI [of _ ?axA]) (simp add: alike_def)
qed

section \<open>The refinement\<close>

lemma follows_refl: "store_ok c es us s \<Longrightarrow> follows c es us s s"
  by (simp add: follows_def)

lemma queue_follows:
  assumes "store_ok c es us s" "represents es us s w" "\<not> publishes op"
  defines "s' \<equiv> set_outbox (queue_step (cd_is_object c) op (db_outbox (st_db s))) s"
  shows "follows c es us s s'" "represents es us s' w"
proof -
  let ?rows = "db_outbox (st_db s)"
  have keep: "stream (st_db s') ty k = stream (st_db s) ty k" "snapshots_of (st_db s') ty k = snapshots_of (st_db s) ty k" for ty k
    by (simp_all add: s'_def set_outbox_def stream_def snapshots_of_def)
  note ok = store_ok_table [OF assms(1)]
  note rows = queue_step_rows [OF ok assms(3)]
  have sel: "db_outbox (st_db s') = queue_step (cd_is_object c) op ?rows" "st_held s' = st_held s" "st_console s' = st_console s"
    "db_events (st_db s') = db_events (st_db s)" "db_snapshots (st_db s') = db_snapshots (st_db s)"
    by (simp_all add: s'_def set_outbox_def)
  have "\<exists>r'\<in>set (db_outbox (st_db s')). held_row t r'" if "t \<in> set (st_held s)" for t
  proof -
    from assms(1) that obtain r where r: "r \<in> set ?rows" "held_row t r" by (auto simp: store_ok_def)
    from rows(1) [OF r(1)] obtain r' where "r' \<in> set (db_outbox (st_db s'))" "same_task r r'" unfolding sel by blast
    with r(2) held_row_same show ?thesis by blast
  qed
  moreover have "database_ok (cd_is_object c) (st_db s')"
    using assms(1) queue_step_table_ok [OF ok, of op] by (simp add: sel database_ok_def store_ok_def)
  moreover have "aggregate_ok (EmailReservation_stored es) EmailReservation_apply EmailReservation_default (st_db s')"
    "aggregate_ok (UserAccount_stored us) UserAccount_apply UserAccount_default (st_db s')"
    using assms(1) aggregate_ok_kept(1) [of "EmailReservation_stored es" _ _ "st_db s" "st_db s'"]
      aggregate_ok_kept(1) [of "UserAccount_stored us" _ _ "st_db s" "st_db s'"] by (simp_all add: store_ok_def keep)
  ultimately show "follows c es us s s'" by (simp add: follows_def store_ok_def keep grows_def sel(2))
  from assms(2) have rel: "rel_set row_task (set ?rows) (set (sy_tasks w))" by (simp add: represents_def)
  have "rel_set row_task (set (db_outbox (st_db s'))) (set (sy_tasks w))"
  proof (rule rel_setI)
    fix r'
    assume "r' \<in> set (db_outbox (st_db s'))"
    with rows(2) obtain r where "r \<in> set ?rows" "same_task r r'" unfolding sel by blast
    with rel row_task_same show "\<exists>t\<in>set (sy_tasks w). row_task r' t" by (blast dest: rel_setD1)
  next
    fix t
    assume "t \<in> set (sy_tasks w)"
    with rel obtain r where "r \<in> set ?rows" "row_task r t" by (blast dest: rel_setD2)
    moreover from rows(1) [OF this(1)] obtain r' where "r' \<in> set (db_outbox (st_db s'))" "same_task r r'" unfolding sel by blast
    ultimately show "\<exists>r'\<in>set (db_outbox (st_db s')). row_task r' t" using row_task_same by blast
  qed
  with assms(2) show "represents es us s' w" by (simp add: represents_def events_of_def keep sel fun_eq_iff)
qed

lemma claim_follows:
  assumes "store_ok c es us s" "represents es us s w"
    and cl: "claim (cd_is_object c) tx now (db_outbox (st_db s)) fmt owner limit lease_duration = (rows, Ok ts)"
  shows "follows c es us s ((set_outbox rows s)\<lparr> st_held := st_held s @ ts \<rparr>)"
    "represents es us ((set_outbox rows s)\<lparr> st_held := st_held s @ ts \<rparr>) w"
proof -
  let ?s = "set_outbox rows s"
  have step: "queue_step (cd_is_object c) (ClaimOp tx now fmt owner limit lease_duration) (db_outbox (st_db s)) = rows"
    using cl by simp
  have q: "follows c es us s ?s" "represents es us ?s w"
    using queue_follows [OF assms(1,2), of "ClaimOp tx now fmt owner limit lease_duration"] unfolding step by simp_all
  note ok = store_ok_table [OF assms(1)]
  have "\<exists>r\<in>set rows. held_row t r" if "t \<in> set ts" for t
  proof -
    from claimed_task [OF ok cl that] obtain r r' dl where "is_ready tx fmt r" "r' \<in> set rows" "same_task r r'" "t = leased_from fmt dl r'" .
    then have "held_row t r'" by (simp add: held_row_def leased_from_def is_ready_def same_task_def)
    with \<open>r' \<in> set rows\<close> show ?thesis by blast
  qed
  moreover have "db_outbox (st_db ?s) = rows" "st_held ?s = st_held s" by (simp_all add: set_outbox_def)
  ultimately have "\<forall>t\<in>set (st_held s @ ts). \<exists>r\<in>set (db_outbox (st_db ?s)). held_row t r"
    using q(1) unfolding follows_def store_ok_def by auto
  with q(1) show "follows c es us s (?s\<lparr> st_held := st_held s @ ts \<rparr>)" by (simp add: follows_def store_ok_def)
  from q(2) show "represents es us (?s\<lparr> st_held := st_held s @ ts \<rparr>) w" by (simp add: represents_def)
qed

lemma console_alike:
  assumes "represents es us s w" "store_ok c es us s"
  shows "alike (advanced c es us s) (store_write ok partial text s) (console_write ok partial text w)"
  using assms by (simp add: store_write_def console_write_def represents_def follows_def store_ok_def quiet_def)

section \<open>Completed rows\<close>

lemma maintained_completed:
  assumes ok: "table_ok is_object rows" and "maintains op"
    and r': "r' \<in> set (queue_step is_object op rows)" "ob_status r' = ''completed''"
  shows "r' \<in> set rows"
proof (cases op)
  case (ClaimOp tx now fmt owner limit ld)
  obtain rows' res where cl: "claim is_object tx now rows fmt owner limit ld = (rows', res)" by fastforce
  have "r' \<in> set rows" if "r' \<in> set (claimed_rows tx fmt owner limit ms rows)"
    "ready_ids tx fmt limit rows \<noteq> [] \<Longrightarrow> tx_add_ms tx (tx_clock_timestamp tx) ms \<noteq> None" for ms
    using that r'(2) by (cases "ready_ids tx fmt limit rows = []") (auto simp: claimed_rows_def claim_row_def split: if_splits)
  with ok cl r' ClaimOp show ?thesis by (cases rule: claim_cases [OF ok cl]) auto
next
  case (RecoverOp tx backoff limit)
  obtain rows' res where re: "recover_expired is_object tx backoff rows limit = (rows', res)" by fastforce
  from ok re show ?thesis
  proof (cases rule: recover_cases)
    case recovered
    from r'(1) RecoverOp re recovered(1) obtain r where r: "r \<in> set rows"
      "r' = (if ob_id r \<in> rw_id ` set (expired_rows tx limit rows) then the (recovered_row tx backoff r) else r)"
      by (auto simp: recovered_rows_def)
    have "ob_id r \<notin> rw_id ` set (expired_rows tx limit rows)"
    proof
      assume e: "ob_id r \<in> rw_id ` set (expired_rows tx limit rows)"
      with recovered(3) [OF r(1)] have "recovered_row tx backoff r = Some r'" "ob_status r = ''processing''"
        using r(2) by (auto simp: is_expired_def)
      from recovered_row_ok(5) [OF table_okD [OF ok r(1)] this(2,1)] r'(2) show False by (simp split: if_splits)
    qed
    with r show ?thesis by simp
  qed (use r' RecoverOp re in simp)
next
  case (RequeueOp ts i)
  with r' show ?thesis by (auto simp: requeue_failed_def split: if_splits)
qed (use assms(2) in simp_all)

lemma settled_completed:
  assumes ok: "table_ok is_object rows"
    and r': "r' \<in> set (queue_step is_object (SettleOp tx t request) rows)" "ob_status r' = ''completed''"
  shows "r' \<in> set rows \<or> request = SettlementRequest.Completed \<and> (\<exists>r\<in>set rows. same_task r r' \<and> ob_id r = ta_id (lt_attempt t))"
proof -
  obtain rows' res where se: "settle is_object tx rows t request = (rows', res)" by fastforce
  from ok se show ?thesis
  proof (cases rule: settle_cases)
    case (settled x x' ms)
    then have x: "row_ok is_object x" "ob_status x = ''processing''"
      using table_okD [OF ok settled(1)] by (auto simp: is_owned_def)
    note row = settle_row_ok [OF x settlement_parameters_status settled(4)]
    from r'(1) se have "r' = x' \<or> r' \<in> set rows" unfolding settled(8) by (auto simp: settled(8) replace_row_def)
    moreover have "request = SettlementRequest.Completed" if "ob_status x' = ''completed''"
      using that settled(4) by (cases request) (auto simp: settle_row_def split: if_splits)
    moreover have "ob_id x = ta_id (lt_attempt t)" using settled(2) by (simp add: is_owned_def)
    ultimately show ?thesis using row(2) settled(1) r'(2) by blast
  qed (use r' se in simp_all)
qed

lemma task_done_row:
  assumes "row_task r t"
  shows "task_done uuid_fmt c w t \<longleftrightarrow> task_done uuid_fmt c w (task_of r)"
proof -
  have "nt_format (task_of r) = nt_format t" "nt_payload (task_of r) = nt_payload t" "attempt_of (task_of r) n = attempt_of t n" for n
    using assms by (simp_all add: row_task_def task_of_def attempt_of_def)
  then show ?thesis by (simp add: task_done_def)
qed

lemma task_of_same: "same_task r r' \<Longrightarrow> task_of r' = task_of r"
  by (simp add: same_task_def task_of_def)

lemma events_grow: "grows a db db' \<Longrightarrow> set (events_of a db k) \<subseteq> set (events_of a db' k)"
proof -
  assume "grows a db db'"
  then obtain ys where "stream db' (sa_TYPE a) k = stream db (sa_TYPE a) k @ ys" unfolding grows_def prefix_def by blast
  then show ?thesis by (simp add: events_of_def)
qed

lemma done_follows:
  assumes "task_done uuid_fmt c w t" "represents es us s w" "represents es us s' w'" "follows c es us s s'"
    and "prefix (st_console s) (st_console s')"
  shows "task_done uuid_fmt c w' t"
proof -
  from assms(2-4) have g: "set (sy_mailboxes w k) \<subseteq> set (sy_mailboxes w' k)" "set (sy_accounts w k) \<subseteq> set (sy_accounts w' k)" for k
    by (simp_all add: represents_def follows_def events_grow)
  from assms(2,3,5) obtain ys where ys: "sy_console w' = sy_console w @ ys" by (auto simp: represents_def prefix_def)
  show ?thesis unfolding task_done_def
  proof (intro conjI impI)
    assume "nt_format t = send_format"
    with assms(1) obtain x n pre post where "cd_read_send c (nt_payload t) = Some x"
      "sy_console w = pre @ console_line uuid_fmt (VerificationCodeDelivery_from x) (attempt_of t n) @ post"
      unfolding task_done_def by blast
    then show "\<exists>x n pre post. cd_read_send c (nt_payload t) = Some x \<and>
        sy_console w' = pre @ console_line uuid_fmt (VerificationCodeDelivery_from x) (attempt_of t n) @ post"
      by (intro exI [of _ x] exI [of _ n] exI [of _ pre] exI [of _ "post @ ys"]) (simp add: ys)
  next
    assume "nt_format t = create_format"
    with assms(1) obtain x ts where "cd_read_create c (nt_payload t) = Some x"
      "created_in uuid_fmt w (ct_email x) (ct_account_id x) (ct_profile x) ts" unfolding task_done_def by blast
    with g(2) show "\<exists>x ts. cd_read_create c (nt_payload t) = Some x \<and>
        created_in uuid_fmt w' (ct_email x) (ct_account_id x) (ct_profile x) ts" unfolding created_in_def by blast
  next
    assume "nt_format t = record_format"
    with assms(1) obtain x where "cd_read_record c (nt_payload t) = Some x"
      "AccountCreationCompleted (rt_email x) (rt_account_id x) (rt_created_at x) \<in> set (sy_mailboxes w (as_str (rt_email x)))"
      unfolding task_done_def by blast
    with g(1) show "\<exists>x. cd_read_record c (nt_payload t) = Some x \<and>
        AccountCreationCompleted (rt_email x) (rt_account_id x) (rt_created_at x) \<in> set (sy_mailboxes w' (as_str (rt_email x)))" by blast
  qed
qed

section \<open>Every step is simulated\<close>

text \<open>
  \<open>tracks\<close>: the tables represent the system, and in it every task with a completed row, and every
  task a handler has answered \<open>Ok\<close> for, has had its effect.
\<close>

definition tracks ::
  "(Uuid \<Rightarrow> rstring) \<Rightarrow> 'v codec \<Rightarrow> 'v email_serde \<Rightarrow> 'v account_serde \<Rightarrow> 'v store \<Rightarrow> 'v system \<Rightarrow> bool" where
  "tracks uuid_fmt c es us s w \<longleftrightarrow> represents es us s w \<and>
     (\<forall>t. (t, Ok ()) \<in> st_handled s \<longrightarrow> (\<exists>r\<in>set (db_outbox (st_db s)). held_row t r \<and> task_done uuid_fmt c w (task_of r))) \<and>
     (\<forall>r\<in>set (db_outbox (st_db s)). ob_status r = ''completed'' \<longrightarrow> task_done uuid_fmt c w (task_of r))"

lemma tracks_empty: "tracks uuid_fmt c es us empty_store empty_system"
  using empty_store_ok(2) by (simp add: tracks_def empty_store_def)

lemma tracks_advanced:
  assumes "tracks uuid_fmt c es us s w" "advanced c es us s s' w'"
  shows "tracks uuid_fmt c es us s' w'"
proof -
  from assms have same: "represents es us s w" "represents es us s' w'" "st_handled s' = st_handled s"
    and rows: "set (db_outbox (st_db s)) \<subseteq> set (db_outbox (st_db s'))"
    and old: "\<And>r. r \<in> set (db_outbox (st_db s')) \<Longrightarrow> ob_status r = ''completed'' \<Longrightarrow> r \<in> set (db_outbox (st_db s))"
    by (simp_all add: tracks_def quiet_def)
  have mono: "task_done uuid_fmt c w t \<Longrightarrow> task_done uuid_fmt c w' t" for t
    using done_follows [OF _ same(1,2)] assms(2) by (simp add: quiet_def)
  have "\<exists>r\<in>set (db_outbox (st_db s')). held_row t r \<and> task_done uuid_fmt c w' (task_of r)" if "(t, Ok ()) \<in> st_handled s" for t
  proof -
    from assms(1) that obtain r where "r \<in> set (db_outbox (st_db s))" "held_row t r" "task_done uuid_fmt c w (task_of r)"
      unfolding tracks_def by blast
    with rows mono show ?thesis by blast
  qed
  moreover have "task_done uuid_fmt c w' (task_of r)" if "r \<in> set (db_outbox (st_db s'))" "ob_status r = ''completed''" for r
    using old [OF that] that(2) assms(1) mono by (simp add: tracks_def)
  ultimately show ?thesis using same by (simp add: tracks_def)
qed

text \<open>The operations of the queue represent no step; they may complete a row its handler has answered for.\<close>

lemma tracks_queue:
  assumes tr: "tracks uuid_fmt c es us s w" and ok: "store_ok c es us s" and op: "\<not> publishes op"
    and completes: "\<And>r'. r' \<in> set (queue_step (cd_is_object c) op (db_outbox (st_db s))) \<Longrightarrow> ob_status r' = ''completed'' \<Longrightarrow>
      task_done uuid_fmt c w (task_of r')"
  shows "tracks uuid_fmt c es us (set_outbox (queue_step (cd_is_object c) op (db_outbox (st_db s))) s) w"
    (is "tracks _ _ _ _ ?s' w")
proof -
  from tr have rep: "represents es us s w" by (simp add: tracks_def)
  note t = store_ok_table [OF ok]
  have sel: "db_outbox (st_db ?s') = queue_step (cd_is_object c) op (db_outbox (st_db s))" "st_handled ?s' = st_handled s"
    by (simp_all add: set_outbox_def)
  have "\<exists>r'\<in>set (db_outbox (st_db ?s')). held_row h r' \<and> task_done uuid_fmt c w (task_of r')" if "(h, Ok ()) \<in> st_handled s" for h
  proof -
    from tr that obtain r where r: "r \<in> set (db_outbox (st_db s))" "held_row h r" "task_done uuid_fmt c w (task_of r)"
      unfolding tracks_def by blast
    from queue_step_rows(1) [OF t op r(1)] obtain r' where "r' \<in> set (db_outbox (st_db ?s'))" "same_task r r'" unfolding sel by blast
    with r(2,3) held_row_same task_of_same show ?thesis by metis
  qed
  with queue_follows(2) [OF ok rep op] completes show ?thesis unfolding tracks_def sel by blast
qed

lemma tracks_maintained:
  assumes "tracks uuid_fmt c es us s w" "store_ok c es us s" "maintains op"
  shows "tracks uuid_fmt c es us (set_outbox (queue_step (cd_is_object c) op (db_outbox (st_db s))) s) w"
proof (rule tracks_queue [OF assms(1,2)])
  show "\<not> publishes op" using assms(3) by (cases op) simp_all
  fix r'
  assume "r' \<in> set (queue_step (cd_is_object c) op (db_outbox (st_db s)))" "ob_status r' = ''completed''"
  from maintained_completed [OF store_ok_table [OF assms(2)] assms(3) this] have "r' \<in> set (db_outbox (st_db s))" .
  with assms(1) \<open>ob_status r' = ''completed''\<close> show "task_done uuid_fmt c w (task_of r')" by (simp add: tracks_def)
qed

lemma tracks_settled:
  assumes tr: "tracks uuid_fmt c es us s w" and ok: "store_ok c es us s" and may: "may_settle s t request"
  shows "tracks uuid_fmt c es us (set_outbox (queue_step (cd_is_object c) (SettleOp tx t request) (db_outbox (st_db s))) s) w"
proof (rule tracks_queue [OF tr ok])
  note table = store_ok_table [OF ok]
  fix r'
  assume r': "r' \<in> set (queue_step (cd_is_object c) (SettleOp tx t request) (db_outbox (st_db s)))" "ob_status r' = ''completed''"
  from settled_completed [OF table r'] show "task_done uuid_fmt c w (task_of r')"
  proof (elim disjE conjE bexE)
    assume "r' \<in> set (db_outbox (st_db s))"
    with tr r'(2) show ?thesis by (simp add: tracks_def)
  next
    fix r
    assume "request = SettlementRequest.Completed" and r: "r \<in> set (db_outbox (st_db s))" "same_task r r'" "ob_id r = ta_id (lt_attempt t)"
    with may obtain answer delay where "(t, answer) \<in> st_handled s" "SettlementRequest.Completed = settlement_request answer delay"
      by (auto simp: may_settle_def)
    then have "(t, Ok ()) \<in> st_handled s" by (auto elim: settlement_request.elims [OF sym])
    with tr obtain r0 where r0: "r0 \<in> set (db_outbox (st_db s))" "held_row t r0" "task_done uuid_fmt c w (task_of r0)"
      unfolding tracks_def by blast
    with r(1,3) table_ok_unique [OF table r0(1) r(1)] have "r0 = r" by (simp add: held_row_def)
    with r0(3) task_of_same [OF r(2)] show ?thesis by simp
  qed
qed simp

text \<open>A delivery on the tables is a delivery of the published task.\<close>

lemma delivery_simulated:
  assumes laws: "codec_ok c" "serde_laws es" "serde_laws us" and ok: "store_ok c es us s"
    and rep: "represents es us s w" and inv: "sys_inv uuid_fmt c w" and t: "t \<in> set (st_held s)"
    and ex: "email_executor_serial (cd_is_object c) es ex" and ax: "account_executor_serial (cd_is_object c) us ax"
    and d: "build_dispatcher c uuid_fmt (store_write written partial) (store_flush flushed) ex ax now v4 = Ok d"
    and run: "TaskDispatcher_dispatch d (lt_attempt t) s = Return (s', handled)"
  obtains w' r where "advanced c es us s s' w'" "sys_step sha256_hex date_naive uuid_fmt c w w'"
    "r \<in> set (db_outbox (st_db s))" "held_row t r" "handled = Ok () \<Longrightarrow> task_done uuid_fmt c w' (task_of r)"
proof -
  from ok rep have R: "advanced c es us s s w" by (simp add: follows_refl)
  obtain exA where exA: "email_executor_ok exA" "\<forall>k command tasks. alike (advanced c es us s) (ex k command tasks s) (exA k command tasks w)"
    using email_executor_alike [OF ex laws(2) ok rep] by blast
  obtain axA where axA: "account_executor_ok axA" "\<forall>k command tasks. alike (advanced c es us s) (ax k command tasks s) (axA k command tasks w)"
    using account_executor_alike [OF ax laws(3) ok rep] by blast
  obtain dA where dA: "build_dispatcher c uuid_fmt (console_write written partial) (console_flush flushed) exA axA now v4 = Ok dA"
    using dispatcher_built by blast
  have flush: "alike (advanced c es us s) (store_flush flushed x) (console_flush flushed y)" if "advanced c es us s x y" for x y
    using that by (simp add: store_flush_def console_flush_def)
  obtain w' where w': "TaskDispatcher_dispatch dA (lt_attempt t) w = Return (w', handled)" "advanced c es us s s' w'"
    using dispatch_alike [of c uuid_fmt _ _ ex ax now v4 d _ _ exA axA dA "advanced c es us s" s w,
        OF d dA exA(2) [rule_format] axA(2) [rule_format] console_alike [OF rep ok] flush R run] by blast
  from ok t obtain r where r: "r \<in> set (db_outbox (st_db s))" "held_row t r" by (auto simp: store_ok_def)
  with rep obtain task where task: "task \<in> set (sy_tasks w)" "row_task r task" by (auto simp: represents_def dest: rel_setD1)
  from held_attempt [OF r(2) task(2)] obtain n where "lt_attempt t = attempt_of task n" by blast
  note a = w'(1) [unfolded this]
  have "task_done uuid_fmt c w' (task_of r)" if "handled = Ok ()"
    using delivered_done [OF laws(1) inv task(1) exA(1) axA(1) dA a [unfolded that]] task_done_row [OF task(2)] by blast
  with that w'(2) sys_step.delivers [OF task(1) exA(1) axA(1) dA a] r show thesis by blast
qed

lemma stored_step_simulated:
  assumes laws: "codec_ok c" "serde_laws es" "serde_laws us" and step: "stored_step sha256_hex date_naive uuid_fmt c es us s s'"
    and ok: "store_ok c es us s" and tr: "tracks uuid_fmt c es us s w" and inv: "sys_inv uuid_fmt c w"
  shows "follows c es us s s' \<and> (\<exists>w'. reaches sha256_hex date_naive uuid_fmt c w w' \<and> tracks uuid_fmt c es us s' w')"
proof -
  let ?R = "advanced c es us s"
  from tr have rep: "represents es us s w" by (simp add: tracks_def)
  with ok have R: "?R s w" by (simp add: follows_refl)
  have request: ?thesis if "?R s' w'" "sys_step sha256_hex date_naive uuid_fmt c w w'" for w'
    using that tracks_advanced [OF tr that(1)] by blast
  have executor: "\<exists>exA. email_executor_ok exA \<and> (\<forall>k command tasks. alike ?R (ex k command tasks s) (exA k command tasks w))"
    if "email_executor_serial (cd_is_object c) es ex" for ex using email_executor_alike [OF that laws(2) ok rep] .
  from step show ?thesis
  proof cases
    case (stored_reserves ex generator v4 email reserved)
    with executor obtain exA where exA: "email_executor_ok exA" "\<forall>k command tasks. alike ?R (ex k command tasks s) (exA k command tasks w)" by blast
    obtain w' r where w': "reserve_email c (CqrsEmailReservationGateway_execute_with_outbox exA) generator v4 email w = (w', r)" by fastforce
    have "?R s' w'"
      using reserve_alike [of ?R ex s exA w, OF exA(2) [rule_format] R, of c generator v4 email] unfolding stored_reserves(3) w' by simp
    from request [OF this sys_step.reserves [OF exA(1) stored_reserves(2) w']] show ?thesis .
  next
    case (stored_requests_code ex generator v4 email requested)
    with executor obtain exA where exA: "email_executor_ok exA" "\<forall>k command tasks. alike ?R (ex k command tasks s) (exA k command tasks w)" by blast
    obtain w' r where w': "request_new_verification_code c (CqrsEmailReservationGateway_execute_with_outbox exA) generator v4 email w = (w', r)"
      by fastforce
    have "?R s' w'"
      using request_code_alike [of ?R ex s exA w, OF exA(2) [rule_format] R, of c generator v4 email] unfolding stored_requests_code(3) w' by simp
    from request [OF this sys_step.requests_code [OF exA(1) stored_requests_code(2) w']] show ?thesis .
  next
    case (stored_confirms ex generator email account_id code confirmed)
    with executor obtain exA where exA: "email_executor_ok exA" "\<forall>k command tasks. alike ?R (ex k command tasks s) (exA k command tasks w)" by blast
    obtain w' r where w': "confirm_email sha256_hex (CqrsEmailReservationGateway_execute exA) generator email account_id code w = (w', r)"
      by fastforce
    have "?R s' w'"
      using confirm_alike [of ?R ex s exA w, OF exA(2) [rule_format] R, of sha256_hex generator email account_id code]
      unfolding stored_confirms(2) w' by simp
    from request [OF this sys_step.confirms [OF exA(1) w']] show ?thesis .
  next
    case (stored_submits ex now v4 submission submitted)
    with executor obtain exA where exA: "email_executor_ok exA" "\<forall>k command tasks. alike ?R (ex k command tasks s) (exA k command tasks w)" by blast
    obtain w' r where w': "submit_profile sha256_hex date_naive c (CqrsEmailReservationGateway_execute_with_outbox exA) now v4 submission w = (w', r)"
      by fastforce
    have "?R s' w'"
      using submit_alike [of ?R ex s exA w, OF exA(2) [rule_format] R, of sha256_hex date_naive c now v4 submission]
      unfolding stored_submits(2) w' by simp
    from request [OF this sys_step.submits [OF exA(1) w']] show ?thesis .
  next
    case (stored_delivers t ex ax written partial flushed now v4 d s1 handled)
    from delivery_simulated [OF laws ok rep inv stored_delivers(2-6)] obtain w' r where
      w': "?R s1 w'" "sys_step sha256_hex date_naive uuid_fmt c w w'" "r \<in> set (db_outbox (st_db s))" "held_row t r"
      "handled = Ok () \<Longrightarrow> task_done uuid_fmt c w' (task_of r)" by metis
    have "tracks uuid_fmt c es us s' w'"
      using tracks_advanced [OF tr w'(1)] w'(1,3-5) unfolding stored_delivers(1)
      by (auto simp: tracks_def represents_def quiet_def)
    moreover have "follows c es us s s'" using w'(1) unfolding stored_delivers(1) by (simp add: follows_def store_ok_def)
    ultimately show ?thesis using w'(2) by blast
  next
    case (stored_abandons t ex ax written partial flushed now v4 d unanswered)
    from delivery_simulated [OF laws ok rep inv stored_abandons] obtain w' where
      "?R s' w'" "sys_step sha256_hex date_naive uuid_fmt c w w'" by metis
    then show ?thesis by (rule request)
  next
    case (stored_settles t request tx)
    have "\<not> publishes (SettleOp tx t request)" by simp
    from tracks_settled [OF tr ok stored_settles(2)] queue_follows(1) [OF ok rep this] stored_settles(1) show ?thesis by blast
  next
    case (stored_claims tx now fmt owner limit lease_duration rows ts)
    have "tracks uuid_fmt c es us (set_outbox rows s) w"
      using tracks_maintained [OF tr ok, of "ClaimOp tx now fmt owner limit lease_duration"] stored_claims(2) by simp
    then have "tracks uuid_fmt c es us s' w" unfolding stored_claims(1) by (simp add: tracks_def represents_def)
    with claim_follows(1) [OF ok rep stored_claims(2)] stored_claims(1) show ?thesis by blast
  next
    case (stored_queues op)
    from stored_queues(2) have "\<not> publishes op" by (cases op) simp_all
    with tracks_maintained [OF tr ok stored_queues(2)] queue_follows(1) [OF ok rep] stored_queues(1) show ?thesis by blast
  qed
qed

text \<open>What is reachable on the tables.\<close>

abbreviation stored_reaches where
  "stored_reaches sha256_hex date_naive uuid_fmt c es us s s' \<equiv> (stored_step sha256_hex date_naive uuid_fmt c es us)\<^sup>*\<^sup>* s s'"

lemma stored_reaches_simulated:
  assumes laws: "codec_ok c" "serde_laws es" "serde_laws us"
    and "stored_reaches sha256_hex date_naive uuid_fmt c es us empty_store s"
  shows "store_ok c es us s \<and> (\<exists>w. reaches sha256_hex date_naive uuid_fmt c empty_system w \<and> tracks uuid_fmt c es us s w)"
  using assms(4)
proof (induction rule: rtranclp_induct)
  case base
  show ?case using empty_store_ok(1) tracks_empty by blast
next
  case (step s s')
  then obtain w where w: "reaches sha256_hex date_naive uuid_fmt c empty_system w" "tracks uuid_fmt c es us s w" by blast
  from stored_step_simulated [OF laws step(2) _ w(2) reaches_inv [OF laws(1) w(1) empty_system_inv]] step.IH w(1) show ?case
    by (meson follows_def rtranclp_trans)
qed

end
