(* ===== verification/Stored_Interleaving.thy ===== *)
theory Stored_Interleaving
  imports Stored_Registration Queue_Guarantees
begin

text \<open>
  Requests and deliveries that others interleave with. \<open>stored_step\<close> executes the command of a use case
  at one moment. Here the use cases run over the whole stack of \<open>postgres/command_factory.rs\<close> instead:
  the retrying executor over a framework that reads, decides and writes at different moments, between
  which others take any steps of the system.

  The theory shows that nothing else can happen this way: what such a request or delivery comes to is
  also reached by steps of others followed by the same request or delivery at one moment.
\<close>

section \<open>The stack\<close>

text \<open>
  \<open>ex\<close> is the executor over a reader and a framework that keep their contracts. A call that panics has written
  nothing; it is taken as one whose storage was unavailable, which answers no more than an abandoned call.
\<close>

definition stack ::
  "('v store \<Rightarrow> 'v store \<Rightarrow> bool) \<Rightarrow> ('v \<Rightarrow> bool) \<Rightarrow> ('s, 'e, 'v) stored_aggregate
     \<Rightarrow> ('s \<Rightarrow> 'c \<Rightarrow> ('e list, 'd) result run) \<Rightarrow> ('s \<Rightarrow> 'e \<Rightarrow> 's run) \<Rightarrow> 's \<Rightarrow> 'v PostgresEventRepository
     \<Rightarrow> ('v PostgresEventRepositoryWithOutbox \<Rightarrow> nat \<Rightarrow> 'store) \<Rightarrow> ('store \<Rightarrow> 'fw)
     \<Rightarrow> ('fw \<Rightarrow> rstring \<Rightarrow> 'c \<Rightarrow> ('v store, unit, 'd) operation) \<Rightarrow> (AggregateConflictRetryPolicy \<Rightarrow> nat \<Rightarrow> duration run)
     \<Rightarrow> (duration \<Rightarrow> 'v store \<Rightarrow> 'v store) \<Rightarrow> PostgresCommandConfig \<Rightarrow> ('v store, 'c, 'v, 'd) executor \<Rightarrow> bool" where
  "stack others is_object a handle app initial reader new_snapshot_store new_framework fw_execute backoff sleep config ex \<longleftrightarrow>
     reader_laws reader \<and> (\<forall>d w. others\<^sup>*\<^sup>* w (sleep d w)) \<and>
     (\<forall>k command tasks w w' r. fw_execute (new_framework (new_snapshot_store
          (with_outbox (PostgresEventRepositoryWithOutbox_new reader) tasks) (cc_snapshot_interval config))) k command w = Return (w', r) \<longrightarrow>
        framework_run is_object others a handle app initial
          (with_outbox (PostgresEventRepositoryWithOutbox_new reader) tasks) k command w w' r) \<and>
     (\<forall>k command tasks w. case command_executor reader new_snapshot_store new_framework fw_execute backoff sleep config
         k command tasks w of Return x \<Rightarrow> ex k command tasks w = x
       | Panic \<Rightarrow> (\<exists>w0. others\<^sup>*\<^sup>* w w0 \<and> ex k command tasks w = (w0, Err CommandGatewayError.Unavailable)))"

lemma stack_call:
  assumes "stack others is_object a handle app initial reader new_snapshot_store new_framework fw_execute backoff sleep config ex"
  shows "case command_executor reader new_snapshot_store new_framework fw_execute backoff sleep config k command tasks w of
      Return x \<Rightarrow> ex k command tasks w = x
    | Panic \<Rightarrow> (\<exists>w0. others\<^sup>*\<^sup>* w w0 \<and> ex k command tasks w = (w0, Err CommandGatewayError.Unavailable))"
  using assms unfolding stack_def by blast

lemma reachable_store:
  assumes laws: "codec_ok c" "serde_laws es" "serde_laws us"
    and reach: "stored_reaches sha256_hex date_naive uuid_fmt c es us empty_store w"
  shows "database_ok (cd_is_object c) (st_db w)"
    "aggregate_ok (EmailReservation_stored es) EmailReservation_apply EmailReservation_default (st_db w)"
    "aggregate_ok (UserAccount_stored us) UserAccount_apply UserAccount_default (st_db w)"
    "stored_step sha256_hex date_naive uuid_fmt c es us w w' \<Longrightarrow> follows c es us w w'"
proof -
  from stored_reaches_simulated [OF assms] obtain v where v: "store_ok c es us w" "tracks uuid_fmt c es us w v"
    "reaches sha256_hex date_naive uuid_fmt c empty_system v" by blast
  then show "database_ok (cd_is_object c) (st_db w)"
    "aggregate_ok (EmailReservation_stored es) EmailReservation_apply EmailReservation_default (st_db w)"
    "aggregate_ok (UserAccount_stored us) UserAccount_apply UserAccount_default (st_db w)" by (simp_all add: store_ok_def)
  assume "stored_step sha256_hex date_naive uuid_fmt c es us w w'"
  from stored_step_simulated [OF laws this v(1,2) reaches_inv [OF laws(1) v(3) empty_system_inv]]
  show "follows c es us w w'" by blast
qed

lemma email_stack_serial:
  assumes laws: "codec_ok c" "serde_laws es" "serde_laws us"
    and st: "stack (stored_step sha256_hex date_naive uuid_fmt c es us) (cd_is_object c) (EmailReservation_stored es)
      EmailReservation_handle EmailReservation_apply EmailReservation_default reader new_snapshot_store new_framework fw_execute
      backoff sleep config ex"
    and w: "stored_reaches sha256_hex date_naive uuid_fmt c es us empty_store w"
  shows "\<exists>w0 r. stored_reaches sha256_hex date_naive uuid_fmt c es us w w0 \<and>
    serial_run (cd_is_object c) (EmailReservation_stored es) EmailReservation_handle EmailReservation_apply EmailReservation_default
      tasks k command w0 (fst (ex k command tasks w)) r \<and> snd (ex k command tasks w) = map_err map_aggregate_error r"
proof (cases "command_executor reader new_snapshot_store new_framework fw_execute backoff sleep config k command tasks w")
  case Panic
  then obtain w0 where "stored_reaches sha256_hex date_naive uuid_fmt c es us w w0" "ex k command tasks w = (w0, Err CommandGatewayError.Unavailable)"
    using stack_call [OF st, of k command tasks w] by auto
  then show ?thesis by (intro exI [of _ w0] exI [of _ "Err DatabaseConnectionError"]) (simp add: serial_failed)
next
  case (Return x)
  then have x: "ex k command tasks w = x" using stack_call [OF st, of k command tasks w] by simp
  show ?thesis
  proof (rule email_snapshots.executor_serial
      [where ok = "stored_reaches sha256_hex date_naive uuid_fmt c es us empty_store" and reader = reader
        and new_snapshot_store = new_snapshot_store and new_framework = new_framework and fw_execute = fw_execute and backoff = backoff
        and sleep = sleep and config = config, OF _ _ _ w])
    note r = reachable_store [OF laws]
    show "reader_laws reader" using st by (simp add: stack_def)
    show "database_ok (cd_is_object c) (st_db w) \<and>
        aggregate_ok (EmailReservation_stored es) EmailReservation_apply EmailReservation_default (st_db w)"
      if "stored_reaches sha256_hex date_naive uuid_fmt c es us empty_store w" for w using r(1,2) [OF that] by simp
    show "stored_reaches sha256_hex date_naive uuid_fmt c es us empty_store w' \<and> grows (EmailReservation_stored es) (st_db w) (st_db w')"
      if "stored_step sha256_hex date_naive uuid_fmt c es us w w'" "stored_reaches sha256_hex date_naive uuid_fmt c es us empty_store w" for w w'
      using r(4) [OF that(2,1)] that by (auto simp: follows_def)
    show "command_executor reader new_snapshot_store new_framework fw_execute backoff sleep config k command tasks w =
        Return (fst (ex k command tasks w), snd (ex k command tasks w))" by (simp add: Return x)
  qed (use st in \<open>simp_all add: stack_def\<close>)
qed

lemma account_stack_serial:
  assumes laws: "codec_ok c" "serde_laws es" "serde_laws us"
    and st: "stack (stored_step sha256_hex date_naive uuid_fmt c es us) (cd_is_object c) (UserAccount_stored us)
      UserAccount_handle UserAccount_apply UserAccount_default reader new_snapshot_store new_framework fw_execute
      backoff sleep config ax"
    and w: "stored_reaches sha256_hex date_naive uuid_fmt c es us empty_store w"
  shows "\<exists>w0 r. stored_reaches sha256_hex date_naive uuid_fmt c es us w w0 \<and>
    serial_run (cd_is_object c) (UserAccount_stored us) UserAccount_handle UserAccount_apply UserAccount_default
      tasks k command w0 (fst (ax k command tasks w)) r \<and> snd (ax k command tasks w) = map_err map_aggregate_error r"
proof (cases "command_executor reader new_snapshot_store new_framework fw_execute backoff sleep config k command tasks w")
  case Panic
  then obtain w0 where "stored_reaches sha256_hex date_naive uuid_fmt c es us w w0" "ax k command tasks w = (w0, Err CommandGatewayError.Unavailable)"
    using stack_call [OF st, of k command tasks w] by auto
  then show ?thesis by (intro exI [of _ w0] exI [of _ "Err DatabaseConnectionError"]) (simp add: serial_failed)
next
  case (Return x)
  then have x: "ax k command tasks w = x" using stack_call [OF st, of k command tasks w] by simp
  show ?thesis
  proof (rule account_snapshots.executor_serial
      [where ok = "stored_reaches sha256_hex date_naive uuid_fmt c es us empty_store" and reader = reader
        and new_snapshot_store = new_snapshot_store and new_framework = new_framework and fw_execute = fw_execute and backoff = backoff
        and sleep = sleep and config = config, OF _ _ _ w])
    note r = reachable_store [OF laws]
    show "reader_laws reader" using st by (simp add: stack_def)
    show "database_ok (cd_is_object c) (st_db w) \<and>
        aggregate_ok (UserAccount_stored us) UserAccount_apply UserAccount_default (st_db w)"
      if "stored_reaches sha256_hex date_naive uuid_fmt c es us empty_store w" for w using r(1,3) [OF that] by simp
    show "stored_reaches sha256_hex date_naive uuid_fmt c es us empty_store w' \<and> grows (UserAccount_stored us) (st_db w) (st_db w')"
      if "stored_step sha256_hex date_naive uuid_fmt c es us w w'" "stored_reaches sha256_hex date_naive uuid_fmt c es us empty_store w" for w w'
      using r(4) [OF that(2,1)] that by (auto simp: follows_def)
    show "command_executor reader new_snapshot_store new_framework fw_execute backoff sleep config k command tasks w =
        Return (fst (ax k command tasks w), snd (ax k command tasks w))" by (simp add: Return x)
  qed (use st in \<open>simp_all add: stack_def\<close>)
qed

section \<open>Use cases make one call\<close>

text \<open>What a use case answers and leaves depends on at most one call of its executor.\<close>

definition one_call :: "(('w, 'c, 'v, 'd) executor \<Rightarrow> 'w \<Rightarrow> 'w \<times> 'r) \<Rightarrow> bool" where
  "one_call f \<longleftrightarrow> (\<forall>ex s. (\<forall>ex'. f ex' s = f ex s) \<or>
     (\<exists>k command tasks. \<forall>ex' s0. ex' k command tasks s0 = ex k command tasks s \<longrightarrow> f ex' s0 = f ex s))"

lemma no_call [intro]: "one_call (\<lambda>_. f)"
  by (simp add: one_call_def)

lemma one_call_of [intro]: "one_call (\<lambda>ex s. g (ex k command tasks s))"
  unfolding one_call_def by metis

lemma one_call_apsnd: "one_call f \<Longrightarrow> one_call (\<lambda>ex s. apsnd g (f ex s))"
  unfolding one_call_def by metis

lemma reserve_call: "one_call (\<lambda>ex. reserve_email c (CqrsEmailReservationGateway_execute_with_outbox ex) generator v4 email)"
  unfolding reserve_email_def CqrsEmailReservationGateway_execute_with_outbox_def Let_def
  by (rule result.exhaust [of "NewTask_new (cd_is_object c) (cd_empty c) v4 (SendVerificationCodeTaskV1_payload c
      \<lparr> sv_email = email, sv_account_id = rm_account_id generator, sv_verification_code = rm_verification_code generator \<rparr>)"]) auto

lemma request_code_call:
  "one_call (\<lambda>ex. request_new_verification_code c (CqrsEmailReservationGateway_execute_with_outbox ex) generator v4 email)"
  unfolding request_new_verification_code_def CqrsEmailReservationGateway_execute_with_outbox_def Let_def
  by (rule result.exhaust [of "NewTask_new (cd_is_object c) (cd_empty c) v4 (SendVerificationCodeTaskV1_payload c
      \<lparr> sv_email = email, sv_account_id = rm_account_id generator, sv_verification_code = rm_verification_code generator \<rparr>)"]) auto

lemma confirm_call:
  "one_call (\<lambda>ex. confirm_email sha256_hex (CqrsEmailReservationGateway_execute ex) generator email account_id code)"
  unfolding confirm_email_def CqrsEmailReservationGateway_execute_with_outbox_def CqrsEmailReservationGateway_execute_def Let_def
  by (cases "1000000 \<le> code \<and> code \<le> 9999999") auto

lemma submit_call:
  "one_call (\<lambda>ex. submit_profile sha256_hex date_naive c (CqrsEmailReservationGateway_execute_with_outbox ex) now v4 submission)"
  unfolding submit_profile_def CqrsEmailReservationGateway_execute_with_outbox_def Let_def
  by (rule result.exhaust [of "NewTask_new (cd_is_object c) (cd_empty c) v4 (CreateAccountTaskV1_payload c
      \<lparr> ct_email = ps_email submission, ct_account_id = ps_account_id submission,
        ct_profile = RegistrationProfile_new (ps_first_name submission) (ps_last_name submission) (ps_date_of_birth submission)
          (date_naive now) \<rparr>)"]) auto

lemma create_call: "one_call (\<lambda>ax. create_account c (CqrsUserAccountGateway_execute_with_outbox uuid_fmt ax) now v4 x)"
  unfolding create_account_def CqrsUserAccountGateway_execute_with_outbox_def Let_def
  by (rule result.exhaust [of "NewTask_new (cd_is_object c) (cd_empty c) v4 (RecordAccountCreatedTaskV1_payload c
      \<lparr> rt_email = ct_email x, rt_account_id = ct_account_id x, rt_profile = ct_profile x, rt_created_at = now \<rparr>)"]) auto

lemma record_call: "one_call (\<lambda>ex. record_account_created (CqrsEmailReservationGateway_execute ex) x)"
  unfolding record_account_created_def CqrsEmailReservationGateway_execute_def CqrsEmailReservationGateway_execute_with_outbox_def
  by auto

lemma invoke_call:
  assumes "\<And>x. one_call (\<lambda>ex. f ex x)"
  shows "one_call (\<lambda>ex. JsonTaskAdapter_invoke fmt read (\<lambda>payload _ w. apsnd g (f ex payload w)) a)"
  unfolding JsonTaskAdapter_invoke_def
  by (cases "ta_format a = fmt"; cases "read (ta_payload a)") (auto intro!: one_call_apsnd assms)

section \<open>Interleaved calls come to steps\<close>

lemma call_interleaved:
  assumes "one_call f" "R s s" and found: "\<And>k command tasks. \<exists>s0. R s s0 \<and> P k command tasks s0 (ex k command tasks s)"
    and serial: "\<And>k command tasks s. P k command tasks s (serial k command tasks s)"
  shows "\<exists>s0 ex'. R s s0 \<and> (\<forall>k command tasks s. P k command tasks s (ex' k command tasks s)) \<and> f ex' s0 = f ex s"
proof -
  from assms(1) consider "\<forall>ex'. f ex' s = f ex s"
    | (call) k command tasks where "\<And>ex' s0. ex' k command tasks s0 = ex k command tasks s \<Longrightarrow> f ex' s0 = f ex s"
    unfolding one_call_def by metis
  then show ?thesis
  proof cases
    case 1
    with assms(2) serial show ?thesis by blast
  next
    case call
    from found obtain s0 where s0: "R s s0" "P k command tasks s0 (ex k command tasks s)" by blast
    let ?ex = "\<lambda>k' command' tasks' w. if (k', command', tasks', w) = (k, command, tasks, s0) then ex k command tasks s
      else serial k' command' tasks' w"
    have "f ?ex s0 = f ex s" by (rule call) simp
    with s0 serial show ?thesis by (intro exI [of _ s0] exI [of _ ?ex]) simp
  qed
qed

lemma email_call_interleaved:
  assumes laws: "codec_ok c" "serde_laws es" "serde_laws us"
    and st: "stack (stored_step sha256_hex date_naive uuid_fmt c es us) (cd_is_object c) (EmailReservation_stored es)
      EmailReservation_handle EmailReservation_apply EmailReservation_default reader new_snapshot_store new_framework fw_execute
      backoff sleep config ex"
    and s: "stored_reaches sha256_hex date_naive uuid_fmt c es us empty_store s" and f: "one_call f"
  shows "\<exists>s0 ex'. stored_reaches sha256_hex date_naive uuid_fmt c es us s s0 \<and> email_executor_serial (cd_is_object c) es ex' \<and>
    f ex' s0 = f ex s"
  unfolding email_executor_serial_def
proof (rule call_interleaved [OF f])
  show "\<exists>r. serial_run (cd_is_object c) (EmailReservation_stored es) EmailReservation_handle EmailReservation_apply
      EmailReservation_default tasks k command s (fst (serial_email c es undefined (cd_empty c) k command tasks s)) r \<and>
    snd (serial_email c es undefined (cd_empty c) k command tasks s) = map_err map_aggregate_error r" for k command tasks s
    by (rule serial_execute_serial)
qed (use email_stack_serial [OF laws st s] in blast)+

lemma account_call_interleaved:
  assumes laws: "codec_ok c" "serde_laws es" "serde_laws us"
    and st: "stack (stored_step sha256_hex date_naive uuid_fmt c es us) (cd_is_object c) (UserAccount_stored us)
      UserAccount_handle UserAccount_apply UserAccount_default reader new_snapshot_store new_framework fw_execute
      backoff sleep config ax"
    and s: "stored_reaches sha256_hex date_naive uuid_fmt c es us empty_store s" and f: "one_call f"
  shows "\<exists>s0 ax'. stored_reaches sha256_hex date_naive uuid_fmt c es us s s0 \<and> account_executor_serial (cd_is_object c) us ax' \<and>
    f ax' s0 = f ax s"
  unfolding account_executor_serial_def
proof (rule call_interleaved [OF f])
  show "\<exists>r. serial_run (cd_is_object c) (UserAccount_stored us) UserAccount_handle UserAccount_apply
      UserAccount_default tasks k command s (fst (serial_account c us undefined (cd_empty c) k command tasks s)) r \<and>
    snd (serial_account c us undefined (cd_empty c) k command tasks s) = map_err map_aggregate_error r" for k command tasks s
    by (rule serial_execute_serial)
qed (use account_stack_serial [OF laws st s] in blast)+

text \<open>One request or delivery of the service, with the executors it was wired with.\<close>

inductive service_step ::
  "(rstring \<Rightarrow> rstring) \<Rightarrow> (DateTime \<Rightarrow> NaiveDate) \<Rightarrow> (Uuid \<Rightarrow> rstring) \<Rightarrow> 'v codec \<Rightarrow> 'v stored_email_executor
     \<Rightarrow> 'v stored_account_executor \<Rightarrow> 'v store \<Rightarrow> 'v store \<Rightarrow> bool"
  for sha256_hex date_naive uuid_fmt c ex ax where
  service_reserves: "material_ok generator \<Longrightarrow>
     reserve_email c (CqrsEmailReservationGateway_execute_with_outbox ex) generator v4 email s = (s', reserved) \<Longrightarrow>
     service_step sha256_hex date_naive uuid_fmt c ex ax s s'"
| service_requests_code: "material_ok generator \<Longrightarrow>
     request_new_verification_code c (CqrsEmailReservationGateway_execute_with_outbox ex) generator v4 email s = (s', requested) \<Longrightarrow>
     service_step sha256_hex date_naive uuid_fmt c ex ax s s'"
| service_confirms:
    "confirm_email sha256_hex (CqrsEmailReservationGateway_execute ex) generator email account_id code s = (s', confirmed) \<Longrightarrow>
     service_step sha256_hex date_naive uuid_fmt c ex ax s s'"
| service_submits:
    "submit_profile sha256_hex date_naive c (CqrsEmailReservationGateway_execute_with_outbox ex) now v4 submission s = (s', submitted) \<Longrightarrow>
     service_step sha256_hex date_naive uuid_fmt c ex ax s s'"
| service_delivers: "t \<in> set (st_held s) \<Longrightarrow>
     build_dispatcher c uuid_fmt (store_write written partial) (store_flush flushed) ex ax now v4 = Ok d \<Longrightarrow>
     TaskDispatcher_dispatch d (lt_attempt t) s = Return (s', handled) \<Longrightarrow>
     service_step sha256_hex date_naive uuid_fmt c ex ax s (s'\<lparr> st_handled := insert (t, handled) (st_handled s') \<rparr>)"
| service_abandons: "t \<in> set (st_held s) \<Longrightarrow>
     build_dispatcher c uuid_fmt (store_write written partial) (store_flush flushed) ex ax now v4 = Ok d \<Longrightarrow>
     TaskDispatcher_dispatch d (lt_attempt t) s = Return (s', unanswered) \<Longrightarrow>
     service_step sha256_hex date_naive uuid_fmt c ex ax s s'"

lemma stored_reaches_grow:
  assumes laws: "codec_ok c" "serde_laws es" "serde_laws us"
    and s: "stored_reaches sha256_hex date_naive uuid_fmt c es us empty_store s"
    and "stored_reaches sha256_hex date_naive uuid_fmt c es us s s'"
  shows "follows c es us s s'"
  using assms(5)
proof (induction rule: rtranclp_induct)
  case base
  show ?case using stored_reaches_simulated [OF laws s] by (simp add: follows_refl)
next
  case (step s1 s2)
  from s step(1) have "stored_reaches sha256_hex date_naive uuid_fmt c es us empty_store s1" by (rule rtranclp_trans)
  from reachable_store(4) [OF laws this step(2)] step.IH show ?case
    unfolding follows_def by (auto intro: grows_trans)
qed

lemma dispatch_interleaved:
  assumes laws: "codec_ok c" "serde_laws es" "serde_laws us"
    and ste: "stack (stored_step sha256_hex date_naive uuid_fmt c es us) (cd_is_object c) (EmailReservation_stored es)
      EmailReservation_handle EmailReservation_apply EmailReservation_default reader new_snapshot_store new_framework fw_execute
      backoff sleep config ex"
    and sta: "stack (stored_step sha256_hex date_naive uuid_fmt c es us) (cd_is_object c) (UserAccount_stored us)
      UserAccount_handle UserAccount_apply UserAccount_default reader' new_snapshot_store' new_framework' fw_execute'
      backoff' sleep' config' ax"
    and s: "stored_reaches sha256_hex date_naive uuid_fmt c es us empty_store s"
    and d: "build_dispatcher c uuid_fmt write_all flush ex ax now v4 = Ok d"
    and run: "TaskDispatcher_dispatch d a s = Return (s', handled)"
  shows "\<exists>s0 ex' ax' d'. stored_reaches sha256_hex date_naive uuid_fmt c es us s s0 \<and> email_executor_serial (cd_is_object c) es ex' \<and>
    account_executor_serial (cd_is_object c) us ax' \<and> build_dispatcher c uuid_fmt write_all flush ex' ax' now v4 = Ok d' \<and>
    TaskDispatcher_dispatch d' a s0 = Return (s', handled)"
proof -
  let ?ex = "serial_email c es undefined (cd_empty c)" and ?ax = "serial_account c us undefined (cd_empty c)"
  note serial = serial_executors(1) [of c es undefined "cd_empty c"] serial_executors(2) [of c us undefined "cd_empty c"]
  have found: ?thesis if "stored_reaches sha256_hex date_naive uuid_fmt c es us s s0" "email_executor_serial (cd_is_object c) es ex'"
      "account_executor_serial (cd_is_object c) us ax'"
      "\<And>d'. build_dispatcher c uuid_fmt write_all flush ex' ax' now v4 = Ok d' \<Longrightarrow>
        TaskDispatcher_dispatch d' a s0 = TaskDispatcher_dispatch d a s" for s0 ex' ax'
    using that dispatcher_built [of c uuid_fmt write_all flush ex' ax' now v4] run by metis
  consider (create) "ta_format a = create_format" | (completion) "ta_format a = record_format"
    | (other) "ta_format a \<noteq> create_format" "ta_format a \<noteq> record_format" by blast
  then show ?thesis
  proof cases
    case create
    have "one_call (\<lambda>ax. JsonTaskAdapter_invoke create_format (cd_read_create c) (\<lambda>payload _ w. apsnd (map_err delivery_error)
        (create_account c (CqrsUserAccountGateway_execute_with_outbox uuid_fmt ax) now v4 payload w)) a)"
      by (rule invoke_call) (rule create_call)
    from account_call_interleaved [OF laws sta s this] obtain s0 ax' where
      "stored_reaches sha256_hex date_naive uuid_fmt c es us s s0" "account_executor_serial (cd_is_object c) us ax'"
      "JsonTaskAdapter_invoke create_format (cd_read_create c) (\<lambda>payload _ w. apsnd (map_err delivery_error)
          (create_account c (CqrsUserAccountGateway_execute_with_outbox uuid_fmt ax') now v4 payload w)) a s0 =
        JsonTaskAdapter_invoke create_format (cd_read_create c) (\<lambda>payload _ w. apsnd (map_err delivery_error)
          (create_account c (CqrsUserAccountGateway_execute_with_outbox uuid_fmt ax) now v4 payload w)) a s" by blast
    with create found [OF _ serial(1)] show ?thesis by (simp add: dispatch_service [OF d] dispatch_service lit_def)
  next
    case completion
    have "one_call (\<lambda>ex. JsonTaskAdapter_invoke record_format (cd_read_record c) (\<lambda>payload _ w. apsnd (map_err delivery_error)
        (record_account_created (CqrsEmailReservationGateway_execute ex) payload w)) a)"
      by (rule invoke_call) (rule record_call)
    from email_call_interleaved [OF laws ste s this] obtain s0 ex' where
      "stored_reaches sha256_hex date_naive uuid_fmt c es us s s0" "email_executor_serial (cd_is_object c) es ex'"
      "JsonTaskAdapter_invoke record_format (cd_read_record c) (\<lambda>payload _ w. apsnd (map_err delivery_error)
          (record_account_created (CqrsEmailReservationGateway_execute ex') payload w)) a s0 =
        JsonTaskAdapter_invoke record_format (cd_read_record c) (\<lambda>payload _ w. apsnd (map_err delivery_error)
          (record_account_created (CqrsEmailReservationGateway_execute ex) payload w)) a s" by blast
    with completion found [OF _ _ serial(2)] show ?thesis by (simp add: dispatch_service [OF d] dispatch_service lit_def)
  next
    case other
    then show ?thesis by (intro found [OF rtranclp.rtrancl_refl serial]) (simp add: dispatch_service [OF d] dispatch_service)
  qed
qed

lemma service_step_stored:
  assumes laws: "codec_ok c" "serde_laws es" "serde_laws us"
    and ste: "stack (stored_step sha256_hex date_naive uuid_fmt c es us) (cd_is_object c) (EmailReservation_stored es)
      EmailReservation_handle EmailReservation_apply EmailReservation_default reader new_snapshot_store new_framework fw_execute
      backoff sleep config ex"
    and sta: "stack (stored_step sha256_hex date_naive uuid_fmt c es us) (cd_is_object c) (UserAccount_stored us)
      UserAccount_handle UserAccount_apply UserAccount_default reader' new_snapshot_store' new_framework' fw_execute'
      backoff' sleep' config' ax"
    and s: "stored_reaches sha256_hex date_naive uuid_fmt c es us empty_store s"
    and step: "service_step sha256_hex date_naive uuid_fmt c ex ax s s'"
  shows "stored_reaches sha256_hex date_naive uuid_fmt c es us s s'"
proof -
  let ?step = "stored_step sha256_hex date_naive uuid_fmt c es us"
  note call = email_call_interleaved [OF laws ste s]
  have found: "?step\<^sup>*\<^sup>* s s'" if "?step\<^sup>*\<^sup>* s s0" "?step s0 s'" for s0 using that by (rule rtranclp.rtrancl_into_rtrancl)
  from step show ?thesis
  proof cases
    case (service_reserves generator v4 email reserved)
    from call [OF reserve_call, of c generator v4 email] service_reserves obtain s0 ex' where "?step\<^sup>*\<^sup>* s s0"
      "email_executor_serial (cd_is_object c) es ex'"
      "reserve_email c (CqrsEmailReservationGateway_execute_with_outbox ex') generator v4 email s0 = (s', reserved)" by auto
    with service_reserves(1) stored_reserves found show ?thesis by metis
  next
    case (service_requests_code generator v4 email requested)
    from call [OF request_code_call, of c generator v4 email] service_requests_code obtain s0 ex' where "?step\<^sup>*\<^sup>* s s0"
      "email_executor_serial (cd_is_object c) es ex'"
      "request_new_verification_code c (CqrsEmailReservationGateway_execute_with_outbox ex') generator v4 email s0 = (s', requested)" by auto
    with service_requests_code(1) stored_requests_code found show ?thesis by metis
  next
    case (service_confirms generator email account_id code confirmed)
    from call [OF confirm_call, of sha256_hex generator email account_id code] service_confirms obtain s0 ex' where "?step\<^sup>*\<^sup>* s s0"
      "email_executor_serial (cd_is_object c) es ex'"
      "confirm_email sha256_hex (CqrsEmailReservationGateway_execute ex') generator email account_id code s0 = (s', confirmed)" by auto
    with stored_confirms found show ?thesis by metis
  next
    case (service_submits now v4 submission submitted)
    from call [OF submit_call, of sha256_hex date_naive c now v4 submission] service_submits obtain s0 ex' where "?step\<^sup>*\<^sup>* s s0"
      "email_executor_serial (cd_is_object c) es ex'"
      "submit_profile sha256_hex date_naive c (CqrsEmailReservationGateway_execute_with_outbox ex') now v4 submission s0 = (s', submitted)"
      by auto
    with stored_submits found show ?thesis by metis
  next
    case (service_delivers t written partial flushed now v4 d s1 handled)
    from dispatch_interleaved [OF laws ste sta s service_delivers(3,4)] obtain s0 ex' ax' d' where s0: "?step\<^sup>*\<^sup>* s s0"
      and e: "email_executor_serial (cd_is_object c) es ex'" "account_executor_serial (cd_is_object c) us ax'"
      and d': "build_dispatcher c uuid_fmt (store_write written partial) (store_flush flushed) ex' ax' now v4 = Ok d'"
        "TaskDispatcher_dispatch d' (lt_attempt t) s0 = Return (s1, handled)" by blast
    have "t \<in> set (st_held s0)" using stored_reaches_grow [OF laws s s0] service_delivers(2) by (auto simp: follows_def)
    from stored_delivers [OF this e d'] s0 found show ?thesis unfolding service_delivers(1) by blast
  next
    case (service_abandons t written partial flushed now v4 d unanswered)
    from dispatch_interleaved [OF laws ste sta s service_abandons(2,3)] obtain s0 ex' ax' d' where s0: "?step\<^sup>*\<^sup>* s s0"
      and e: "email_executor_serial (cd_is_object c) es ex'" "account_executor_serial (cd_is_object c) us ax'"
      and d': "build_dispatcher c uuid_fmt (store_write written partial) (store_flush flushed) ex' ax' now v4 = Ok d'"
        "TaskDispatcher_dispatch d' (lt_attempt t) s0 = Return (s', unanswered)" by blast
    have "t \<in> set (st_held s0)" using stored_reaches_grow [OF laws s s0] service_abandons(1) by (auto simp: follows_def)
    from stored_abandons [OF this e d'] s0 found show ?thesis by blast
  qed
qed

section \<open>A stack, for the witnesses\<close>

text \<open>A reader over the tables, and a framework that makes one attempt with a snapshot after every command.\<close>

definition table_reader :: "'v PostgresEventRepository" where
  "table_reader = \<lparr> rd_get_events = (\<lambda>ty k db. Ok (map row_event (sort_key ev_sequence (stream db ty k)))),
     rd_get_last_events = (\<lambda>ty k n db. Ok (map row_event (sort_key ev_sequence (filter (\<lambda>r. int n < ev_sequence r) (stream db ty k))))),
     rd_get_snapshot = (\<lambda>ty k db. Ok (case snapshots_of db ty k of [] \<Rightarrow> None | r # _ \<Rightarrow> Some (row_snapshot r))) \<rparr>"

lemma table_reader_laws: "reader_laws table_reader"
  by (auto simp: reader_laws_def table_reader_def split: list.splits)

fun write_result :: "(unit, PersistenceError) result \<Rightarrow> (unit, 'd AggregateError) result" where
  "write_result (Ok _) = Ok ()"
| "write_result (Err OptimisticLockError) = Err AggregateConflict"
| "write_result (Err (ConnectionError _)) = Err DatabaseConnectionError"
| "write_result (Err (UnknownError _)) = Err UnexpectedError"

lemma write_result_answer: "write_answer written (write_result written)"
  by (cases written rule: write_result.cases) simp_all

definition load_aggregate ::
  "('s, 'e, 'v) stored_aggregate \<Rightarrow> ('s \<Rightarrow> 'e \<Rightarrow> 's run) \<Rightarrow> 's \<Rightarrow> 'v PostgresEventRepositoryWithOutbox \<Rightarrow> rstring
     \<Rightarrow> 'v Database \<Rightarrow> ('s \<times> nat \<times> nat) option" where
  "load_aggregate a app initial repository k db =
     (case get_snapshot repository (sa_TYPE a) k db of Err _ \<Rightarrow> None
      | Ok None \<Rightarrow> (case get_events repository (sa_TYPE a) k db of Err _ \<Rightarrow> None
          | Ok evs \<Rightarrow> (case those (map (\<lambda>e. read_event a (se_payload e)) evs) of None \<Rightarrow> None
              | Some es \<Rightarrow> (case replay app initial es of Panic \<Rightarrow> None | Return s \<Rightarrow> Some (s, last_sequence 0 evs, 0))))
      | Ok (Some sn) \<Rightarrow> (case read_state a (ss_aggregate sn) of None \<Rightarrow> None
          | Some s0 \<Rightarrow> (case get_last_events repository (sa_TYPE a) k (ss_current_sequence sn) db of Err _ \<Rightarrow> None
              | Ok evs \<Rightarrow> (case those (map (\<lambda>e. read_event a (se_payload e)) evs) of None \<Rightarrow> None
                  | Some es \<Rightarrow> (case replay app s0 es of Panic \<Rightarrow> None
                      | Return s \<Rightarrow> Some (s, last_sequence (ss_current_sequence sn) evs, ss_current_snapshot sn))))))"

lemma load_aggregate_loads:
  "load_aggregate a app initial repository k db = Some (s, n, version) \<Longrightarrow> loads a app initial repository k db db s n version"
  by (auto simp: load_aggregate_def split: result.splits option.splits run.splits intro: loads.intros)

definition attempt_once ::
  "('v \<Rightarrow> bool) \<Rightarrow> ('s, 'e, 'v) stored_aggregate \<Rightarrow> ('s \<Rightarrow> 'c \<Rightarrow> ('e list, 'd) result run) \<Rightarrow> ('s \<Rightarrow> 'e \<Rightarrow> 's run) \<Rightarrow> 's
     \<Rightarrow> Tx \<Rightarrow> 'v \<Rightarrow> 'v PostgresEventRepositoryWithOutbox \<Rightarrow> rstring \<Rightarrow> 'c \<Rightarrow> ('v store, unit, 'd) operation" where
  "attempt_once is_object a handle app initial tx metadata repository k command w =
     (case load_aggregate a app initial repository k (st_db w) of None \<Rightarrow> Return (w, Err UnexpectedError)
      | Some (s, n, version) \<Rightarrow> bind_run (handle s command) (\<lambda>decision. case decision of
            Err d \<Rightarrow> Return (w, Err (UserError d))
          | Ok evs \<Rightarrow> bind_run (replay app s evs) (\<lambda>s'. bind_run (replay app s' evs) (\<lambda>s''.
              case persist is_object tx Connected repository (sa_TYPE a) (serialize_events a k metadata n evs)
                  (Some (k, write_state a s'', Suc version)) (st_db w) of
                (db, written) \<Rightarrow> Return (w\<lparr> st_db := db \<rparr>, write_result written)))))"

lemma attempt_once_run:
  assumes "attempt_once is_object a handle app initial tx metadata repository k command w = Return (w', r)"
  shows "framework_run is_object others a handle app initial repository k command w w' r"
proof (cases "load_aggregate a app initial repository k (st_db w)")
  case None
  with assms show ?thesis by (auto simp: attempt_once_def intro!: framework_run.failed)
next
  case (Some x)
  obtain s n version where x: "x = (s, n, version)" by (cases x)
  note l = load_aggregate_loads [OF Some [unfolded x]]
  from assms Some x obtain decision where d: "handle s command = Return decision" by (auto simp: attempt_once_def)
  show ?thesis
  proof (cases decision)
    case (Ok evs)
    with assms Some x d obtain s' s'' where s': "replay app s evs = Return s'" "replay app s' evs = Return s''"
      by (auto simp: attempt_once_def)
    obtain db written where p: "persist is_object tx Connected repository (sa_TYPE a) (serialize_events a k metadata n evs)
        (Some (k, write_state a s'', Suc version)) (st_db w) = (db, written)" by fastforce
    from s' have "framework_run is_object others a handle app initial repository k command w (w\<lparr> st_db := db \<rparr>) (write_result written)"
      by (intro decided [OF rtranclp.rtrancl_refl rtranclp.rtrancl_refl l _ s'(1) _ rtranclp.rtrancl_refl _ p write_result_answer])
        (auto simp: d Ok link_ok_def)
    with assms Some x d Ok s' p show ?thesis by (simp add: attempt_once_def)
  next
    case (Err e)
    with assms Some x d have "w' = w" "r = Err (UserError e)" by (simp_all add: attempt_once_def)
    with rejected [OF rtranclp.rtrancl_refl rtranclp.rtrancl_refl l] d Err show ?thesis by simp
  qed
qed

definition demo_command_config :: PostgresCommandConfig where
  "demo_command_config = \<lparr> cc_snapshot_interval = 25, cc_conflict_retry =
     \<lparr> cp_max_attempts = 3, cp_initial_backoff = from_millis 5, cp_max_backoff = from_millis 50, cp_jitter_ratio = 1 / 5 \<rparr> \<rparr>"

lemma demo_command_config_default: "PostgresCommandConfig_default = Return demo_command_config"
  by (simp add: PostgresCommandConfig_default_def AggregateConflictRetryPolicy_default_def AggregateConflictRetryPolicy_new_def
      PostgresCommandConfig_new_def demo_command_config_def rust_defs)

definition attempting_executor ::
  "('v \<Rightarrow> bool) \<Rightarrow> ('s, 'e, 'v) stored_aggregate \<Rightarrow> ('s \<Rightarrow> 'c \<Rightarrow> ('e list, 'd) result run) \<Rightarrow> ('s \<Rightarrow> 'e \<Rightarrow> 's run) \<Rightarrow> 's
     \<Rightarrow> Tx \<Rightarrow> 'v \<Rightarrow> ('v store, 'c, 'v, 'd) executor" where
  "attempting_executor is_object a handle app initial tx metadata k command tasks w =
     (case command_executor table_reader (\<lambda>repository _. repository) (\<lambda>store. store)
         (attempt_once is_object a handle app initial tx metadata) (\<lambda>_ _. Return 0) (\<lambda>_ w. w) demo_command_config k command tasks w of
        Panic \<Rightarrow> (w, Err CommandGatewayError.Unavailable)
      | Return x \<Rightarrow> x)"

lemma attempting_executor_eq:
  "attempting_executor is_object a handle app initial tx metadata k command tasks w =
     (case attempt_once is_object a handle app initial tx metadata
         (with_outbox (PostgresEventRepositoryWithOutbox_new table_reader) tasks) k command w of
        Panic \<Rightarrow> (w, Err CommandGatewayError.Unavailable)
      | Return (w', r) \<Rightarrow> if r = Err AggregateConflict then attempting_executor is_object a handle app initial tx metadata k command tasks w
          else (w', map_err map_aggregate_error r))"
  by (auto simp: attempting_executor_def command_executor_def CqrsCommandExecutor_execute_def retry_on_aggregate_conflict_def
      demo_command_config_def Let_def numeral_3_eq_3 split: run.splits)

lemma attempting_stack:
  "stack others is_object a handle app initial table_reader (\<lambda>repository _. repository) (\<lambda>store. store)
     (attempt_once is_object a handle app initial tx metadata)
     (\<lambda>_ _. Return 0) (\<lambda>_ w. w) demo_command_config (attempting_executor is_object a handle app initial tx metadata)"
  unfolding stack_def
  by (intro conjI allI impI)
    (auto simp: attempting_executor_def intro: table_reader_laws attempt_once_run split: run.splits)

datatype stored_value = TaskValue demo_value | EmailEvent EmailReservationEvent | EmailState EmailReservation
  | AccountEvent UserAccountEvent | AccountState UserAccount

definition stored_codec :: "stored_value codec" where
  "stored_codec = \<lparr> cd_is_object = (\<lambda>_. True), cd_empty = TaskValue EmptyObject,
     cd_send = (\<lambda>x. Some (TaskValue (SendValue x))), cd_create = (\<lambda>x. Some (TaskValue (CreateValue x))),
     cd_record = (\<lambda>x. Some (TaskValue (RecordValue x))),
     cd_read_send = (\<lambda>v. case v of TaskValue (SendValue x) \<Rightarrow> Some x | _ \<Rightarrow> None),
     cd_read_create = (\<lambda>v. case v of TaskValue (CreateValue x) \<Rightarrow> Some x | _ \<Rightarrow> None),
     cd_read_record = (\<lambda>v. case v of TaskValue (RecordValue x) \<Rightarrow> Some x | _ \<Rightarrow> None) \<rparr>"

definition email_values :: "stored_value email_serde" where
  "email_values = \<lparr> sd_write_event = EmailEvent, sd_read_event = (\<lambda>v. case v of EmailEvent e \<Rightarrow> Some e | _ \<Rightarrow> None),
     sd_write_state = EmailState, sd_read_state = (\<lambda>v. case v of EmailState s \<Rightarrow> Some s | _ \<Rightarrow> None) \<rparr>"

definition account_values :: "stored_value account_serde" where
  "account_values = \<lparr> sd_write_event = AccountEvent, sd_read_event = (\<lambda>v. case v of AccountEvent e \<Rightarrow> Some e | _ \<Rightarrow> None),
     sd_write_state = AccountState, sd_read_state = (\<lambda>v. case v of AccountState s \<Rightarrow> Some s | _ \<Rightarrow> None) \<rparr>"

lemma stored_values_ok: "codec_ok stored_codec" "serde_laws email_values" "serde_laws account_values"
  by (simp_all add: codec_ok_def stored_codec_def serde_laws_def email_values_def account_values_def)

abbreviation demo_stored_reaches where
  "demo_stored_reaches \<equiv> stored_reaches id id demo_fmt stored_codec email_values account_values"

definition stored_email_executor :: "stored_value stored_email_executor" where
  "stored_email_executor = attempting_executor (\<lambda>_. True) (EmailReservation_stored email_values) EmailReservation_handle
     EmailReservation_apply EmailReservation_default (demo_tx 0) (TaskValue EmptyObject)"

definition stored_account_executor :: "stored_value stored_account_executor" where
  "stored_account_executor = attempting_executor (\<lambda>_. True) (UserAccount_stored account_values) UserAccount_handle
     UserAccount_apply UserAccount_default (demo_tx 0) (TaskValue EmptyObject)"

text \<open>Rows of the mailbox of the witnesses, with a snapshot at its last event, and its tasks.\<close>

definition email_event_row :: "nat \<Rightarrow> EmailReservationEvent \<Rightarrow> stored_value EventRow" where
  "email_event_row n e = \<lparr> ev_aggregate_type = lit ''email_reservation'', ev_aggregate_id = as_str demo_email, ev_sequence = int n,
     ev_event_type = lit (EmailReservationEvent_event_type e), ev_event_version = lit (EmailReservationEvent_event_version e),
     ev_payload = EmailEvent e, ev_metadata = TaskValue EmptyObject \<rparr>"

definition email_snapshot_row :: "nat \<Rightarrow> ReservationPhase \<Rightarrow> stored_value SnapshotRow" where
  "email_snapshot_row n p = \<lparr> sn_aggregate_type = lit ''email_reservation'', sn_aggregate_id = as_str demo_email,
     sn_last_sequence = int n, sn_current_snapshot = int n, sn_payload = EmailState \<lparr> phase = p \<rparr> \<rparr>"

definition pending_row :: "Uuid \<Rightarrow> nat \<Rightarrow> string \<Rightarrow> demo_value \<Rightarrow> stored_value OutboxRow" where
  "pending_row i n ty v = \<lparr> ob_id = i, ob_aggregate_type = lit ''email_reservation'', ob_aggregate_id = as_str demo_email,
     ob_aggregate_sequence = int n, ob_task_type = lit ty, ob_task_version = 1, ob_payload = TaskValue v,
     ob_metadata = TaskValue EmptyObject, ob_status = ''pending'', ob_available_at = 0, ob_finished_at = None, ob_attempts = 0,
     ob_max_attempts = 10, ob_last_error = None, ob_locked_by = None, ob_lock_token = None, ob_locked_until = None \<rparr>"

definition demo_store :: "stored_value EventRow list \<Rightarrow> stored_value SnapshotRow list \<Rightarrow> stored_value outbox \<Rightarrow> stored_value store" where
  "demo_store evs sns rows = \<lparr> st_db = \<lparr> db_events = evs, db_snapshots = sns, db_outbox = rows \<rparr>, st_held = [], st_handled = {}, st_console = [] \<rparr>"

definition stored_reserved :: "stored_value store" where
  "stored_reserved = fst (reserve_email stored_codec (CqrsEmailReservationGateway_execute_with_outbox stored_email_executor)
     demo_generator 1 demo_email empty_store)"

definition stored_confirmed :: "stored_value store" where
  "stored_confirmed = fst (confirm_email id (CqrsEmailReservationGateway_execute stored_email_executor)
     demo_generator demo_email (UserAccountId 2) 1234567 stored_reserved)"

definition stored_accepted :: "stored_value store" where
  "stored_accepted = fst (submit_profile id id stored_codec (CqrsEmailReservationGateway_execute_with_outbox stored_email_executor)
     20 2 demo_submission stored_confirmed)"

lemmas stored_value_defs = stored_codec_def email_values_def account_values_def EmailReservation_stored_def UserAccount_stored_def
  read_event_def read_state_def write_state_def row_event_def row_snapshot_def demo_tx_def

lemmas stored_executor_defs = stored_email_executor_def attempting_executor_eq attempt_once_def load_aggregate_def table_reader_def
  with_outbox_def PostgresEventRepositoryWithOutbox_new_def get_snapshot_def get_events_def get_last_events_def persist_def
  stream_def snapshots_of_def last_sequence_def empty_store_def

lemmas stored_write_defs = persist_command_def WritePlan_new_def persist_one_def write_statement_def event_key_def event_row_def
  snapshot_key_def sequence_as_i64_def i64_try_from_def i64_max_def validate_bind_count_def usize_checked_mul_def usize_checked_add_def
  usize_max_def insert_tasks_def insert_rows_def outbox_row_def row_ok_def i32_max_def

lemmas stored_demo_defs = stored_executor_defs stored_value_defs stored_write_defs email_event_row_def email_snapshot_row_def
  pending_row_def demo_store_def reserve_email_def confirm_email_def submit_profile_def Let_def
  CqrsEmailReservationGateway_execute_def CqrsEmailReservationGateway_execute_with_outbox_def demo_email_def demo_generator_def
  demo_submission_def demo_profile_def lit_def EmailReservation_default_def email_handler_defs task_data_defs
  SendVerificationCodeTaskV1_payload_def CreateAccountTaskV1_payload_def Email_to_string_def

abbreviation "demo_send \<equiv> \<lparr> sv_email = demo_email, sv_account_id = UserAccountId 2, sv_verification_code = 1234567 \<rparr>"
abbreviation "demo_create \<equiv> \<lparr> ct_email = demo_email, ct_account_id = UserAccountId 2, ct_profile = demo_profile \<rparr>"

lemma stored_reserved_eq:
  "reserve_email stored_codec (CqrsEmailReservationGateway_execute_with_outbox stored_email_executor) demo_generator 1 demo_email empty_store =
     (stored_reserved, Ok \<lparr> re_email = demo_email, re_account_id = UserAccountId 2 \<rparr>)"
  "stored_reserved = demo_store [email_event_row 1 (EmailReserved demo_email (UserAccountId 2) 1234567)]
     [email_snapshot_row 1 (AwaitingCode (UserAccountId 2) 1234567)] [pending_row 1 1 ''send_verification_code'' (SendValue demo_send)]"
  by (simp_all add: stored_reserved_def stored_demo_defs)

lemma stored_confirmed_eq:
  "confirm_email id (CqrsEmailReservationGateway_execute stored_email_executor) demo_generator demo_email (UserAccountId 2) 1234567
     stored_reserved = (stored_confirmed, Ok \<lparr> ve_email = demo_email, ve_account_id = UserAccountId 2, ve_account_creation_token = lit ''d'' \<rparr>)"
  "stored_confirmed = demo_store [email_event_row 1 (EmailReserved demo_email (UserAccountId 2) 1234567),
       email_event_row 2 (EmailVerified demo_email (UserAccountId 2) (lit ''d''))]
     [email_snapshot_row 2 (AwaitingProfile (UserAccountId 2) (lit ''d''))] [pending_row 1 1 ''send_verification_code'' (SendValue demo_send)]"
  by (simp_all add: stored_confirmed_def stored_reserved_eq(2) stored_demo_defs)

lemma stored_accepted_eq:
  "submit_profile id id stored_codec (CqrsEmailReservationGateway_execute_with_outbox stored_email_executor) 20 2 demo_submission
     stored_confirmed = (stored_accepted, Ok \<lparr> as_email = demo_email, as_account_id = UserAccountId 2 \<rparr>)"
  "stored_accepted = demo_store [email_event_row 1 (EmailReserved demo_email (UserAccountId 2) 1234567),
       email_event_row 2 (EmailVerified demo_email (UserAccountId 2) (lit ''d'')),
       email_event_row 3 (RegistrationProfileAccepted demo_email (UserAccountId 2) (lit ''d'') demo_profile)]
     [email_snapshot_row 3 (CreatingAccount (UserAccountId 2) (lit ''d'') demo_profile)]
     [pending_row 1 1 ''send_verification_code'' (SendValue demo_send), pending_row 2 3 ''create_account'' (CreateValue demo_create)]"
  by (simp_all add: stored_accepted_def stored_confirmed_eq(2) stored_demo_defs trim_def is_whitespace_def)

abbreviation demo_service_step where
  "demo_service_step \<equiv> service_step id id demo_fmt stored_codec stored_email_executor stored_account_executor"

lemma demo_service_steps:
  "demo_service_step empty_store stored_reserved" "demo_service_step stored_reserved stored_confirmed"
  "demo_service_step stored_confirmed stored_accepted"
proof -
  have "material_ok demo_generator" by (simp add: material_ok_def demo_generator_def code_ok_def)
  then show "demo_service_step empty_store stored_reserved" by (rule service_reserves [OF _ stored_reserved_eq(1)])
qed (rule service_confirms [OF stored_confirmed_eq(1)] service_submits [OF stored_accepted_eq(1)])+

lemma demo_stacks:
  "stack others (cd_is_object stored_codec) (EmailReservation_stored email_values) EmailReservation_handle EmailReservation_apply
     EmailReservation_default table_reader (\<lambda>repository _. repository) (\<lambda>store. store)
     (attempt_once (\<lambda>_. True) (EmailReservation_stored email_values) EmailReservation_handle
        EmailReservation_apply EmailReservation_default (demo_tx 0) (TaskValue EmptyObject))
     (\<lambda>_ _. Return 0) (\<lambda>_ w. w) demo_command_config stored_email_executor"
  "stack others (cd_is_object stored_codec) (UserAccount_stored account_values) UserAccount_handle UserAccount_apply
     UserAccount_default table_reader (\<lambda>repository _. repository) (\<lambda>store. store)
     (attempt_once (\<lambda>_. True) (UserAccount_stored account_values) UserAccount_handle
        UserAccount_apply UserAccount_default (demo_tx 0) (TaskValue EmptyObject))
     (\<lambda>_ _. Return 0) (\<lambda>_ w. w) demo_command_config stored_account_executor"
  using attempting_stack by (simp_all add: stored_email_executor_def stored_account_executor_def stored_codec_def)

lemma demo_stored_reached:
  "demo_stored_reaches empty_store stored_reserved" "demo_stored_reaches empty_store stored_confirmed"
  "demo_stored_reaches empty_store stored_accepted"
proof -
  note step = service_step_stored [OF stored_values_ok demo_stacks]
  show r: "demo_stored_reaches empty_store stored_reserved" by (rule step [OF rtranclp.rtrancl_refl demo_service_steps(1)])
  show c: "demo_stored_reaches empty_store stored_confirmed" by (rule rtranclp_trans [OF r step [OF r demo_service_steps(2)]])
  show "demo_stored_reaches empty_store stored_accepted" by (rule rtranclp_trans [OF c step [OF c demo_service_steps(3)]])
qed

section \<open>Properties\<close>

text \<open>
  C8. A command takes effect at one moment. Whatever others do while the stack reads, decides, writes and
  retries, its answer and effect are those of one moment during the call: the decision of the
  aggregate on the stream at that moment, committed with its event and tasks as the next of that stream,
  or reported as rejected; or an error that changed nothing.
\<close>

theorem commands_take_effect_at_one_moment:
  assumes "codec_ok c" "serde_laws es" "serde_laws us"
    and st: "stack (stored_step sha256_hex date_naive uuid_fmt c es us) (cd_is_object c) (EmailReservation_stored es)
      EmailReservation_handle EmailReservation_apply EmailReservation_default reader new_snapshot_store new_framework fw_execute
      backoff sleep config ex"
    and "stored_reaches sha256_hex date_naive uuid_fmt c es us empty_store s" and call: "ex k command tasks s = (s', r)"
  shows "\<exists>s0. stored_reaches sha256_hex date_naive uuid_fmt c es us s s0 \<and>
    ((\<exists>st e tx event sn. replay EmailReservation_apply EmailReservation_default (events_of (EmailReservation_stored es) (st_db s0) k) = Return st \<and>
        EmailReservation_handle st command = Return (Ok [e]) \<and> (r = Ok () \<or> r = Err CommandGatewayError.Unavailable) \<and>
        committed (cd_is_object c) tx (lit ''email_reservation'') tasks event (int (se_sequence event)) sn (st_db s0) (st_db s') \<and>
        events_of (EmailReservation_stored es) (st_db s') =
          (events_of (EmailReservation_stored es) (st_db s0))(k := events_of (EmailReservation_stored es) (st_db s0) k @ [e])) \<or>
     (\<exists>st d. replay EmailReservation_apply EmailReservation_default (events_of (EmailReservation_stored es) (st_db s0) k) = Return st \<and>
        EmailReservation_handle st command = Return (Err d) \<and> r = Err (CommandGatewayError.Domain d) \<and> s' = s0) \<or>
     ((r = Err CommandGatewayError.Conflict \<or> r = Err CommandGatewayError.Unavailable) \<and> s' = s0))"
proof -
  from email_stack_serial [OF assms(1-5), of tasks k command] call obtain s0 x where
    s0: "stored_reaches sha256_hex date_naive uuid_fmt c es us s s0" and x: "r = map_err map_aggregate_error x" and
    run: "serial_run (cd_is_object c) (EmailReservation_stored es) EmailReservation_handle EmailReservation_apply EmailReservation_default
      tasks k command s0 s' x" by auto
  have laws: "serde_laws (sa_serde (EmailReservation_stored es))" using assms(2) by simp
  note ok = reachable_store [OF assms(1-3) rtranclp_trans [OF assms(5) s0]]
  from run laws ok(2,1) show ?thesis
  proof (cases rule: email_snapshots.serial_outcome)
    case (committed st e tx event sn)
    from committed(3) x have "r = Ok () \<or> r = Err CommandGatewayError.Unavailable" by auto
    with committed s0 show ?thesis by (intro exI [of _ s0] conjI [OF s0] disjI1 exI [of _ st] exI [of _ e] exI [of _ tx] exI [of _ event] exI [of _ sn]) simp
  next
    case (rejected st d)
    with s0 x show ?thesis by (intro exI [of _ s0] conjI [OF s0] disjI2 disjI1 exI [of _ st] exI [of _ d]) simp
  next
    case (failed y)
    with x have "r = Err CommandGatewayError.Conflict \<or> r = Err CommandGatewayError.Unavailable" by (cases y) auto
    with s0 failed(3) show ?thesis by blast
  qed
qed

theorem commands_take_effect_at_one_moment_witness:
  "\<exists>s0 e. demo_stored_reaches stored_reserved s0 \<and>
     stored_email_executor (as_str demo_email) (VerifyEmail demo_email (UserAccountId 2) 1234567 (lit ''d'')) [] stored_reserved =
       (stored_confirmed, Ok ()) \<and>
     events_of (EmailReservation_stored email_values) (st_db stored_confirmed) (as_str demo_email) =
       events_of (EmailReservation_stored email_values) (st_db s0) (as_str demo_email) @ [e]"
proof -
  have call: "stored_email_executor (as_str demo_email) (VerifyEmail demo_email (UserAccountId 2) 1234567 (lit ''d'')) [] stored_reserved =
      (stored_confirmed, Ok ())"
    by (simp add: stored_confirmed_eq(2) stored_reserved_eq(2) stored_demo_defs)
  from commands_take_effect_at_one_moment [OF stored_values_ok demo_stacks(1) demo_stored_reached(1) call] call
  show ?thesis by auto
qed

end
