(* ===== verification/Stored_Guarantees.thy ===== *)
theory Stored_Guarantees
  imports Stored_Interleaving
begin

text \<open>
  The guarantees of the service on its tables, over \<open>Stored_Registration\<close>: what the rows of events,
  snapshots and outbox say about each other in every reachable store, and that an accepted
  registration can be completed by operations of the queue and deliveries of its rows.
\<close>

section \<open>Every unfinished row can be delivered\<close>

text \<open>
  The operations of the queue use here a transaction that meets no fault and no lock and starts
  late enough (\<open>demo_tx\<close> at that time), with a limit that the table does not exceed.
\<close>

definition same_but_rows :: "'v store \<Rightarrow> 'v store \<Rightarrow> bool" where
  "same_but_rows s s' \<longleftrightarrow> db_events (st_db s') = db_events (st_db s) \<and> db_snapshots (st_db s') = db_snapshots (st_db s) \<and>
     st_console s' = st_console s \<and> map ob_id (db_outbox (st_db s')) = map ob_id (db_outbox (st_db s))"

lemma same_but_rows_trans: "same_but_rows s s1 \<Longrightarrow> same_but_rows s1 s2 \<Longrightarrow> same_but_rows s s2"
  by (simp add: same_but_rows_def)

lemma demo_tx_sel [simp]:
  "tx_fault (demo_tx t) = NoFault" "tx_statement_timestamp (demo_tx t) = t" "tx_clock_timestamp (demo_tx t) = t"
  "tx_update_timestamp (demo_tx t) i = t" "\<not> tx_locked (demo_tx t) i" "tx_add_ms (demo_tx t) u n = Some (u + 1000 * n)"
  by (simp_all add: demo_tx_def)

lemma maintained:
  assumes "store_ok c es us s" "maintains op"
  defines "s' \<equiv> set_outbox (queue_step (cd_is_object c) op (db_outbox (st_db s))) s"
  shows "stored_step sha256_hex date_naive uuid_fmt c es us s s'" "store_ok c es us s'" "same_but_rows s s'"
    "db_outbox (st_db s') = queue_step (cd_is_object c) op (db_outbox (st_db s))"
proof -
  from assms(2) have p: "\<not> publishes op" by (cases op) simp_all
  obtain w where "represents es us s w" using represents_exists by blast
  from queue_follows(1) [OF assms(1) this p] show "store_ok c es us s'" by (simp add: s'_def follows_def)
  show "stored_step sha256_hex date_naive uuid_fmt c es us s s'" unfolding s'_def by (rule stored_queues [OF assms(2)])
  show "db_outbox (st_db s') = queue_step (cd_is_object c) op (db_outbox (st_db s))" "same_but_rows s s'"
    using queue_step_ids [OF store_ok_table [OF assms(1)] p] by (simp_all add: s'_def set_outbox_def same_but_rows_def)
qed

lemma pending_can_be_held:
  assumes ok: "store_ok c es us s" and r: "r \<in> set (db_outbox (st_db s))" "ob_status r = ''pending''"
    and n: "int (length (db_outbox (st_db s))) \<le> i64_max"
  shows "\<exists>s' t. stored_step sha256_hex date_naive uuid_fmt c es us s s' \<and> t \<in> set (st_held s') \<and> held_row t r \<and> same_but_rows s s'"
proof -
  let ?rows = "db_outbox (st_db s)" and ?tx = "demo_tx (ob_available_at r)"
  let ?fmt = "\<lparr> task_type = ob_task_type r, task_version = ob_task_version r \<rparr>"
  note table = store_ok_table [OF ok]
  obtain rows' ts where cl: "claim (cd_is_object c) ?tx 0 ?rows ?fmt (lit ''w'') (length ?rows) 1000000 = (rows', Ok ts)"
    using claim_succeeds [OF table, of ?tx 1000000 "length ?rows" 0 1000000 ?fmt "lit ''w''"] n
    by (auto simp: as_millis_def nanos_per_milli_def i64_max_def instant_defs)
  have "r \<in> set (take (length ?rows) (sort_key (\<lambda>r. (ob_available_at r, ob_id r)) (filter (\<lambda>r. is_ready ?tx ?fmt r \<and> \<not> tx_locked ?tx (ob_id r)) ?rows)))"
    using r by (simp add: is_ready_def)
  then have "ob_id r \<in> set (ready_ids ?tx ?fmt (length ?rows) ?rows)" by (auto simp: ready_ids_def)
  then obtain t where t: "t \<in> set ts" "ta_id (lt_attempt t) = ob_id r" unfolding claimed_ids(2) [OF table cl, symmetric] by auto
  from claimed_task [OF table cl t(1)] obtain r0 r' dl where
    r0: "r0 \<in> set ?rows" "is_ready ?tx ?fmt r0" "same_task r0 r'" "t = leased_from ?fmt dl r'" by metis
  with t(2) have "ob_id r0 = ob_id r" by (simp add: leased_from_def same_task_def)
  with table_ok_unique [OF table r0(1) r(1)] have "r0 = r" by simp
  moreover from r0 have "held_row t r'" by (simp add: held_row_def leased_from_def is_ready_def same_task_def)
  ultimately have "held_row t r" using held_row_same [OF r0(3)] by simp
  moreover have "map ob_id rows' = map ob_id ?rows"
    using queue_step_ids [OF table, of "ClaimOp ?tx 0 ?fmt (lit ''w'') (length ?rows) 1000000"] cl by simp
  ultimately show ?thesis using stored_claims [OF cl] t(1)
    by (intro exI [of _ "(set_outbox rows' s)\<lparr> st_held := st_held s @ ts \<rparr>"] exI [of _ t]) (simp add: same_but_rows_def set_outbox_def)
qed

lemma failed_can_be_held:
  assumes ok: "store_ok c es us s" and r: "r \<in> set (db_outbox (st_db s))" "ob_status r = ''failed''"
    and n: "int (length (db_outbox (st_db s))) \<le> i64_max"
  shows "\<exists>s' t. stored_reaches sha256_hex date_naive uuid_fmt c es us s s' \<and> t \<in> set (st_held s') \<and> held_row t r \<and> same_but_rows s s'"
proof -
  let ?r = "r\<lparr> ob_status := ''pending'', ob_attempts := 0, ob_available_at := 0, ob_finished_at := None,
    ob_last_error := None, ob_locked_by := None, ob_lock_token := None, ob_locked_until := None \<rparr>"
  have "maintains (RequeueOp 0 (ob_id r))" by simp
  note q = maintained [OF ok this, unfolded queue_step.simps]
  let ?s = "set_outbox (requeue_failed 0 (ob_id r) (db_outbox (st_db s))) s"
  have "?r \<in> set (db_outbox (st_db ?s))"
    unfolding q(4) unfolding requeue_failed_def set_map by (rule rev_image_eqI [OF r(1)]) (simp add: r(2))
  moreover have "length (db_outbox (st_db ?s)) = length (db_outbox (st_db s))"
    unfolding q(4) by (simp add: requeue_failed_def)
  ultimately obtain s' t where s': "stored_step sha256_hex date_naive uuid_fmt c es us ?s s'" "t \<in> set (st_held s')" "held_row t ?r"
    "same_but_rows ?s s'" using pending_can_be_held [OF q(2)] n by force
  from s'(3) have "held_row t r" by (simp add: held_row_def)
  with s' q(1,3) same_but_rows_trans show ?thesis by (meson r_into_rtranclp rtranclp.rtrancl_into_rtrancl)
qed

lemma row_can_be_held:
  assumes ok: "store_ok c es us s" and r: "r \<in> set (db_outbox (st_db s))" "ob_status r \<noteq> ''completed''"
    and n: "int (length (db_outbox (st_db s))) \<le> i64_max"
  shows "\<exists>s' t. stored_reaches sha256_hex date_naive uuid_fmt c es us s s' \<and> t \<in> set (st_held s') \<and> held_row t r \<and> same_but_rows s s'"
proof -
  let ?rows = "db_outbox (st_db s)"
  note table = store_ok_table [OF ok]
  from table_okD [OF table r(1)] r(2) consider (pending) "ob_status r = ''pending''" | (failed) "ob_status r = ''failed''"
    | (leased) until where "ob_status r = ''processing''" "ob_locked_until r = Some until" unfolding row_ok_def by auto
  then show ?thesis
  proof cases
    case pending
    with pending_can_be_held [OF ok r(1) _ n] show ?thesis by blast
  next
    case failed
    from failed_can_be_held [OF ok r(1) failed n] show ?thesis .
  next
    case leased
    let ?tx = "demo_tx until" and ?b = "\<lambda>_ _. 0 :: duration"
    have m: "maintains (RecoverOp ?tx ?b (length ?rows))" by simp
    let ?s = "set_outbox (queue_step (cd_is_object c) (RecoverOp ?tx ?b (length ?rows)) ?rows) s"
    note q = maintained [OF ok m]
    obtain rows' report where re: "recover_expired (cd_is_object c) ?tx ?b ?rows (length ?rows) = (rows', Ok report)"
      using recover_succeeds [OF table, of ?tx "length ?rows" ?b] n by (auto simp: as_millis_def i64_max_def)
    have "ob_id r \<in> rw_id ` set (expired_rows ?tx (length ?rows) ?rows)"
      using leased by (intro expired_rows_all [OF r(1)]) (simp_all add: is_expired_def)
    moreover obtain r' where r': "recovered_row ?tx ?b r = Some r'" by (auto simp: recovered_row_def recover_row_def)
    moreover from table re have "rows' = recovered_rows ?tx ?b (rw_id ` set (expired_rows ?tx (length ?rows) ?rows)) ?rows"
      by (cases rule: recover_cases) auto
    ultimately have in': "r' \<in> set rows'"
      unfolding recovered_rows_def set_map by (auto intro!: rev_image_eqI [OF r(1)] simp del: if_image_distrib)
    note row = recovered_row_ok [OF table_okD [OF table r(1)] leased(1) r']
    then have same: "same_task r r'" and st: "ob_status r' \<in> {''failed'', ''pending''}" by simp_all
    have rows': "db_outbox (st_db ?s) = rows'" using q(4) re by simp
    have n': "int (length (db_outbox (st_db ?s))) \<le> i64_max"
      using q(3) n unfolding same_but_rows_def by (metis length_map)
    from st obtain s' t where "stored_reaches sha256_hex date_naive uuid_fmt c es us ?s s'" "t \<in> set (st_held s')" "held_row t r'"
      "same_but_rows ?s s'"
    proof (elim insertE emptyE)
      assume "ob_status r' = ''failed''"
      from failed_can_be_held [OF q(2) _ this n'] in' that show ?thesis unfolding rows' by blast
    next
      assume "ob_status r' = ''pending''"
      from pending_can_be_held [OF q(2) _ this n'] in' that show ?thesis unfolding rows' by blast
    qed
    with q(1,3) held_row_same [OF same] same_but_rows_trans show ?thesis by (meson converse_rtranclp_into_rtranclp)
  qed
qed

section \<open>Accepted registrations can be completed on the tables\<close>

definition tracked ::
  "(Uuid \<Rightarrow> rstring) \<Rightarrow> 'v codec \<Rightarrow> 'v email_serde \<Rightarrow> 'v account_serde \<Rightarrow> 'v store \<Rightarrow> 'v system \<Rightarrow> bool" where
  "tracked uuid_fmt c es us s w \<longleftrightarrow> store_ok c es us s \<and> tracks uuid_fmt c es us s w \<and> sys_inv uuid_fmt c w"

lemma tracked_reaches:
  assumes laws: "codec_ok c" "serde_laws es" "serde_laws us" and "tracked uuid_fmt c es us s w"
    and "stored_reaches sha256_hex date_naive uuid_fmt c es us s s'"
  shows "\<exists>w'. tracked uuid_fmt c es us s' w' \<and> reaches sha256_hex date_naive uuid_fmt c w w'"
  using assms(5)
proof (induction rule: rtranclp_induct)
  case base
  with assms(4) show ?case by blast
next
  case (step s' s'')
  then obtain w' where w': "tracked uuid_fmt c es us s' w'" "reaches sha256_hex date_naive uuid_fmt c w w'" by blast
  then have "store_ok c es us s'" "tracks uuid_fmt c es us s' w'" "sys_inv uuid_fmt c w'" by (simp_all add: tracked_def)
  from stored_step_simulated [OF laws step(2) this] obtain w'' where "store_ok c es us s''"
    "reaches sha256_hex date_naive uuid_fmt c w' w''" "tracks uuid_fmt c es us s'' w''" by (auto simp: follows_def)
  with w' reaches_inv [OF laws(1) this(2)] show ?case by (auto simp: tracked_def)
qed

lemma tracked_same:
  assumes "tracked uuid_fmt c es us s w" "tracked uuid_fmt c es us s' w'" "same_but_rows s s'"
  shows "sy_mailboxes w' = sy_mailboxes w" "sy_accounts w' = sy_accounts w"
  using assms by (auto simp: tracked_def tracks_def represents_def same_but_rows_def events_of_def stream_def fun_eq_iff)

lemma task_done_held:
  assumes "held_row t r" "held_row t r'"
  shows "task_done uuid_fmt c w (task_of r') \<longleftrightarrow> task_done uuid_fmt c w (task_of r)"
proof -
  have "nt_format (task_of r') = nt_format (task_of r)" "nt_payload (task_of r') = nt_payload (task_of r)"
    "attempt_of (task_of r') n = attempt_of (task_of r) n" for n
    using assms by (simp_all add: held_row_def task_of_def attempt_of_def)
  then show ?thesis by (simp add: task_done_def)
qed

lemma delivery_done:
  assumes laws: "codec_ok c" "serde_laws es" "serde_laws us" and tr: "tracked uuid_fmt c es us s w"
    and t: "t \<in> set (st_held s)" "held_row t r"
    and ex: "email_executor_serial (cd_is_object c) es ex" and ax: "account_executor_serial (cd_is_object c) us ax"
    and d: "build_dispatcher c uuid_fmt (store_write written partial) (store_flush flushed) ex ax now v4 = Ok d"
    and run: "TaskDispatcher_dispatch d (lt_attempt t) s = Return (s1, Ok ())"
  shows "\<exists>s' w'. stored_step sha256_hex date_naive uuid_fmt c es us s s' \<and> st_db s' = st_db s1 \<and>
    tracked uuid_fmt c es us s' w' \<and> task_done uuid_fmt c w' (task_of r)"
proof -
  let ?s = "s1\<lparr> st_handled := insert (t, Ok ()) (st_handled s1) \<rparr>"
  have step: "stored_step sha256_hex date_naive uuid_fmt c es us s ?s" by (rule stored_delivers [OF t(1) ex ax d run])
  then have "stored_reaches sha256_hex date_naive uuid_fmt c es us s ?s" by blast
  from tracked_reaches [OF laws tr this] obtain w' where w': "tracked uuid_fmt c es us ?s w'" by blast
  have "(t, Ok ()) \<in> st_handled ?s" by simp
  with w' obtain r' where "held_row t r'" "task_done uuid_fmt c w' (task_of r')" unfolding tracked_def tracks_def by blast
  with task_done_held [OF t(2)] step w' show ?thesis by (intro exI [of _ ?s] exI [of _ w']) auto
qed

text \<open>A task of the system has its row; what the row says was done, was done.\<close>

lemma tracked_task:
  assumes "tracked uuid_fmt c es us s w" "t \<in> set (sy_tasks w)"
  obtains r where "r \<in> set (db_outbox (st_db s))" "row_task r t"
    "ob_status r = ''completed'' \<Longrightarrow> task_done uuid_fmt c w t"
proof -
  from assms obtain r where r: "r \<in> set (db_outbox (st_db s))" "row_task r t"
    by (auto simp: tracked_def tracks_def represents_def dest: rel_setD2)
  moreover have "task_done uuid_fmt c w t" if "ob_status r = ''completed''"
    using assms(1) r that task_done_row [OF r(2)] by (auto simp: tracked_def tracks_def)
  ultimately show thesis using that by blast
qed

lemma fresh_uuid:
  assumes "int (length (xs :: Uuid list)) < i64_max"
  obtains v where "v \<notin> set xs"
proof -
  have "card (set xs) < CARD(Uuid)" using card_length [of xs] assms by (simp add: i64_max_def card_word)
  then have "set xs \<noteq> UNIV" by auto
  with that show thesis by blast
qed

lemma published_row:
  assumes "codec_ok c" "cd_is_object c v" "ty \<noteq> []" "v4 \<notin> set (map ob_id rows)" "table_ok (cd_is_object c) rows" "0 < n"
  shows "\<exists>r. insert_tasks (cd_is_object c) (demo_tx ts) aty k n [published c v4 ty v] rows = Some (rows @ [r])"
proof -
  let ?t = "published c v4 ty v"
  obtain r where r: "outbox_row (demo_tx ts) aty k n ?t = Some r" by (auto simp: outbox_row_def published_def)
  have "new_task_ok (cd_is_object c) ?t" "nt_max_attempts ?t \<le> i32_max" "nt_id ?t = v4"
    using assms(1-3) by (auto simp: new_task_ok_def published_def format_ok_def codec_ok_def i32_max_def)
  with outbox_row_ok [OF _ _ assms(6) r] have "row_ok (cd_is_object c) r" "ob_id r = v4" by simp_all
  with r assms(4,5) show ?thesis by (auto simp: insert_tasks_def insert_rows_def table_ok_def)
qed

text \<open>Both continuations commit when the storage holds; a created account has a new row for its completion.\<close>

lemma create_commits:
  assumes "codec_ok c" and ok: "store_ok c es us s" and "profile_ok (ct_profile x)"
    and events: "events_of (UserAccount_stored us) (st_db s) (uuid_fmt (as_uuid (ct_account_id x))) = []"
    and n: "int (length (db_outbox (st_db s))) < i64_max"
  shows "\<exists>v4 db r. create_account c (CqrsUserAccountGateway_execute_with_outbox uuid_fmt (serial_account c us (demo_tx 0) (cd_empty c)))
      0 v4 x s = (s\<lparr> st_db := db \<rparr>, Ok ()) \<and> db_outbox db = db_outbox (st_db s) @ [r] \<and>
    (\<forall>ty k. ty \<noteq> lit ''user_account'' \<longrightarrow> stream db ty k = stream (st_db s) ty k)"
proof -
  let ?e = "ct_email x" and ?i = "ct_account_id x" and ?p = "ct_profile x" and ?a = "UserAccount_stored us"
  let ?k = "uuid_fmt (as_uuid ?i)" and ?rows = "db_outbox (st_db s)" and ?command = "create_command (ct_account_id x) (ct_email x) (ct_profile x) 0"
  let ?ev = "creation_event (created_account ?i ?e ?p 0)" and ?ty = "lit ''record_account_created''"
  have len: "length (stream (st_db s) (sa_TYPE ?a) ?k) = 0" using events by (simp add: events_of_def)
  obtain v4 where v4: "v4 \<notin> set (map ob_id ?rows)" using fresh_uuid [of "map ob_id ?rows"] n by auto
  from record_task_built [OF assms(1), of v4 "\<lparr> rt_email = ?e, rt_account_id = ?i, rt_profile = ?p, rt_created_at = 0 \<rparr>"] obtain v where
    v: "NewTask_new (cd_is_object c) (cd_empty c) v4 (RecordAccountCreatedTaskV1_payload c
      \<lparr> rt_email = ?e, rt_account_id = ?i, rt_profile = ?p, rt_created_at = 0 \<rparr>) = Ok (published c v4 ?ty v)" by blast
  then have "cd_is_object c v" by (auto simp: task_data_defs published_def split: if_splits)
  from published_row [OF assms(1) this _ v4 store_ok_table [OF ok], of ?ty] obtain r where
    ins: "insert_tasks (cd_is_object c) (demo_tx 0) (sa_TYPE ?a) ?k (int (Suc (length (stream (st_db s) (sa_TYPE ?a) ?k))))
      [published c v4 ?ty v] ?rows = Some (?rows @ [r])" by (force simp: lit_def)
  from create_fresh [of UserAccount_default ?i ?e ?p 0] assms(3)
  have h: "UserAccount_handle UserAccount_default ?command = Return (Ok [?ev])" by (simp add: UserAccount_default_def)
  obtain st where app: "UserAccount_apply UserAccount_default ?ev = Return st"
    by (simp add: UserAccount_default_def creation_event_def)
  have rep: "replay UserAccount_apply UserAccount_default (events_of ?a (st_db s) ?k) = Return UserAccount_default" by (simp add: events)
  have gap: "gap_free (st_db s) (sa_TYPE ?a) ?k" using ok by (simp add: store_ok_def aggregate_ok_def)
  have short: "int (length (stream (st_db s) (sa_TYPE ?a) ?k)) < i64_max" using len by (simp add: i64_max_def)
  have "(if [published c v4 ?ty v] = [] then Some ?rows else insert_tasks (cd_is_object c) (demo_tx 0) (sa_TYPE ?a) ?k
      (int (Suc (length (stream (st_db s) (sa_TYPE ?a) ?k)))) [published c v4 ?ty v] ?rows) = Some (?rows @ [r])" using ins by simp
  from serial_execute_commits [where handle = UserAccount_handle and app = UserAccount_apply, OF rep h app gap short _ this, of "cd_empty c"]
  obtain db where db: "serial_account c us (demo_tx 0) (cd_empty c) ?k ?command [published c v4 ?ty v] s =
      (s\<lparr> st_db := db \<rparr>, Ok ())" "db_outbox db = ?rows @ [r]" "\<forall>ty k. ty \<noteq> sa_TYPE ?a \<longrightarrow> stream db ty k = stream (st_db s) ty k"
    by auto
  then show ?thesis
    by (intro exI [of _ v4] exI [of _ db] exI [of _ r])
      (simp add: create_account_def v CqrsUserAccountGateway_execute_with_outbox_def UserAccountId_to_string_def create_command_def)
qed

lemma record_commits:
  assumes ok: "store_ok c es us s" and legal: "legal_history (events_of (EmailReservation_stored es) (st_db s) (as_str (rt_email x)))"
    and phase: "phase_after (rev (events_of (EmailReservation_stored es) (st_db s) (as_str (rt_email x)))) =
      CreatingAccount (rt_account_id x) dg (rt_profile x)"
    and n: "int (length (events_of (EmailReservation_stored es) (st_db s) (as_str (rt_email x)))) < i64_max"
  shows "\<exists>db. record_account_created (CqrsEmailReservationGateway_execute (serial_email c es (demo_tx 0) (cd_empty c))) x s =
    (s\<lparr> st_db := db \<rparr>, Ok ())"
proof -
  let ?a = "EmailReservation_stored es" and ?k = "as_str (rt_email x)"
  let ?st = "\<lparr> phase = CreatingAccount (rt_account_id x) dg (rt_profile x) \<rparr>"
  let ?ev = "AccountCreationCompleted (rt_email x) (rt_account_id x) (rt_created_at x)"
  let ?command = "RecordAccountCreated (rt_email x) (rt_account_id x) (rt_profile x) (rt_created_at x)"
  have h: "EmailReservation_handle ?st ?command = Return (Ok [?ev])" by (simp add: handle_record_account_created_def)
  obtain st where app: "EmailReservation_apply ?st ?ev = Return st" by simp
  have rep: "replay EmailReservation_apply EmailReservation_default (events_of ?a (st_db s) ?k) = Return ?st"
    using legal_replay [OF legal] phase by simp
  have gap: "gap_free (st_db s) (sa_TYPE ?a) ?k" using ok by (simp add: store_ok_def aggregate_ok_def)
  have short: "int (length (stream (st_db s) (sa_TYPE ?a) ?k)) < i64_max" using n by (simp add: events_of_def)
  from serial_execute_commits [where handle = EmailReservation_handle and app = EmailReservation_apply and tasks = "[]"
      and is_object = "cd_is_object c" and tx = "demo_tx 0" and rows = "db_outbox (st_db s)" and metadata = "cd_empty c", OF rep h app gap short]
  obtain db where "serial_email c es (demo_tx 0) (cd_empty c) ?k ?command [] s = (s\<lparr> st_db := db \<rparr>, Ok ())" by auto
  then show ?thesis
    by (intro exI [of _ db]) (simp add: record_account_created_def CqrsEmailReservationGateway_execute_def Email_to_string_def
        CqrsEmailReservationGateway_execute_with_outbox_def)
qed

lemma stored_create:
  assumes laws: "codec_ok c" "serde_laws es" "serde_laws us" and tr: "tracked uuid_fmt c es us s w"
    and a: "accepted_in w e i p" and fresh: "sy_accounts w (uuid_fmt (as_uuid i)) = []"
    and n: "int (length (db_outbox (st_db s))) < i64_max"
  shows "\<exists>s' w' ts. stored_reaches sha256_hex date_naive uuid_fmt c es us s s' \<and> tracked uuid_fmt c es us s' w' \<and>
    created_in uuid_fmt w' e i p ts \<and> sy_mailboxes w' = sy_mailboxes w \<and> length (db_outbox (st_db s')) = Suc (length (db_outbox (st_db s)))"
proof -
  let ?x = "\<lparr> ct_email = e, ct_account_id = i, ct_profile = p \<rparr>"
  from tr have inv: "sys_inv uuid_fmt c w" and ok: "store_ok c es us s" by (simp_all add: tracked_def)
  from inv a obtain t0 where t0: "t0 \<in> set (sy_tasks w)" "create_task_for c e i p t0"
    unfolding sys_inv_def followups_ok_def by blast
  from tracked_task [OF tr t0(1)] obtain r where r: "r \<in> set (db_outbox (st_db s))" "row_task r t0"
    "ob_status r = ''completed'' \<Longrightarrow> task_done uuid_fmt c w t0" by blast
  have "ob_status r \<noteq> ''completed''"
    using r(3) t0(2) fresh by (auto simp: task_done_def create_task_for_def created_in_def)
  from row_can_be_held [OF ok r(1) this] n obtain s1 t where s1: "stored_reaches sha256_hex date_naive uuid_fmt c es us s s1"
    "t \<in> set (st_held s1)" "held_row t r" "same_but_rows s s1" by force
  from tracked_reaches [OF laws tr s1(1)] obtain w1 where w1: "tracked uuid_fmt c es us s1 w1" by blast
  note same = tracked_same [OF tr w1 s1(4)]
  from w1 have ok1: "store_ok c es us s1" and rep: "represents es us s1 w1" by (simp_all add: tracked_def tracks_def)
  have events: "events_of (UserAccount_stored us) (st_db s1) (uuid_fmt (as_uuid (ct_account_id ?x))) = []"
    using rep fresh same(2) by (simp add: represents_def)
  have rows1: "length (db_outbox (st_db s1)) = length (db_outbox (st_db s))"
    using s1(4) unfolding same_but_rows_def by (metis length_map)
  have "profile_ok (ct_profile ?x)" using accepted_after_verification [OF _ a] inv by (auto simp: sys_inv_def)
  from create_commits [where x = ?x and uuid_fmt = uuid_fmt, OF laws(1) ok1 this events] n rows1 obtain v4 db r2 where
    db: "create_account c (CqrsUserAccountGateway_execute_with_outbox uuid_fmt (serial_account c us (demo_tx 0) (cd_empty c))) 0 v4 ?x s1 =
      (s1\<lparr> st_db := db \<rparr>, Ok ())" "db_outbox db = db_outbox (st_db s1) @ [r2]"
      "\<And>ty k. ty \<noteq> lit ''user_account'' \<Longrightarrow> stream db ty k = stream (st_db s1) ty k" by metis
  obtain d where d: "build_dispatcher c uuid_fmt (store_write True []) (store_flush True) (serial_email c es (demo_tx 0) (cd_empty c))
      (serial_account c us (demo_tx 0) (cd_empty c)) 0 v4 = Ok d" using dispatcher_built by blast
  have "ta_format (lt_attempt t) = create_format" "cd_read_create c (ta_payload (lt_attempt t)) = Some ?x"
    using t0(2) r(2) s1(3) by (auto simp: create_task_for_def held_row_def row_task_def)
  with db(1) have run: "TaskDispatcher_dispatch d (lt_attempt t) s1 = Return (s1\<lparr> st_db := db \<rparr>, Ok ())"
    by (simp add: dispatch_service [OF d] JsonTaskAdapter_invoke_def lit_def)
  from delivery_done [OF laws w1 s1(2,3) serial_executors d run, of sha256_hex date_naive] obtain s' w' where
    s': "stored_step sha256_hex date_naive uuid_fmt c es us s1 s'" "st_db s' = db" "tracked uuid_fmt c es us s' w'"
      "task_done uuid_fmt c w' (task_of r)" by auto
  then have "task_done uuid_fmt c w' t0" using task_done_row [OF r(2)] by blast
  then obtain ts where "created_in uuid_fmt w' e i p ts" using t0(2) by (auto simp: task_done_def create_task_for_def)
  moreover have "sy_mailboxes w' = sy_mailboxes w"
    using s'(3) rep same(1) db(3) stored_types_differ
    by (auto simp: tracked_def tracks_def represents_def s'(2) events_of_def fun_eq_iff)
  moreover have "length (db_outbox (st_db s')) = Suc (length (db_outbox (st_db s)))" by (simp add: s'(2) db(2) rows1)
  moreover have "stored_reaches sha256_hex date_naive uuid_fmt c es us s s'" using s1(1) s'(1) by (rule rtranclp.rtrancl_into_rtrancl)
  ultimately show ?thesis using s'(3) by blast
qed

lemma stored_record:
  assumes laws: "codec_ok c" "serde_laws es" "serde_laws us" and tr: "tracked uuid_fmt c es us s w"
    and k: "created_in uuid_fmt w e i p ts"
    and n: "int (length (db_outbox (st_db s))) \<le> i64_max" "int (length (sy_mailboxes w (as_str e))) < i64_max"
  shows "\<exists>s' w'. stored_reaches sha256_hex date_naive uuid_fmt c es us s s' \<and> tracked uuid_fmt c es us s' w' \<and>
    AccountCreationCompleted e i ts \<in> set (sy_mailboxes w' (as_str e))"
proof (cases "AccountCreationCompleted e i ts \<in> set (sy_mailboxes w (as_str e))")
  case False
  let ?x = "\<lparr> rt_email = e, rt_account_id = i, rt_profile = p, rt_created_at = ts \<rparr>"
  let ?h = "sy_mailboxes w (as_str e)"
  from tr have inv: "sys_inv uuid_fmt c w" and ok: "store_ok c es us s" by (simp_all add: tracked_def)
  from inv k obtain t0 where t0: "t0 \<in> set (sy_tasks w)" "record_task_for c e i p ts t0"
    unfolding sys_inv_def followups_ok_def by blast
  from tracked_task [OF tr t0(1)] obtain r where r: "r \<in> set (db_outbox (st_db s))" "row_task r t0"
    "ob_status r = ''completed'' \<Longrightarrow> task_done uuid_fmt c w t0" by blast
  have "ob_status r \<noteq> ''completed''" using r(3) t0(2) False by (auto simp: task_done_def record_task_for_def)
  from row_can_be_held [OF ok r(1) this n(1)] obtain s1 t where s1: "stored_reaches sha256_hex date_naive uuid_fmt c es us s s1"
    "t \<in> set (st_held s1)" "held_row t r" "same_but_rows s s1" by blast
  from tracked_reaches [OF laws tr s1(1)] obtain w1 where w1: "tracked uuid_fmt c es us s1 w1" by blast
  note same = tracked_same [OF tr w1 s1(4)]
  from w1 have ok1: "store_ok c es us s1" and rep: "represents es us s1 w1" by (simp_all add: tracked_def tracks_def)
  have events: "events_of (EmailReservation_stored es) (st_db s1) (as_str (rt_email ?x)) = ?h"
    using rep same(1) by (simp add: represents_def)
  have h: "legal_history ?h" using inv by (simp add: sys_inv_defs)
  obtain dg where dg: "phase_after (rev ?h) = CreatingAccount i dg p" using accepted_phase [OF inv k] False by metis
  from record_commits [where c = c, OF ok1, of ?x dg] events h dg n(2) obtain db where
    db: "record_account_created (CqrsEmailReservationGateway_execute (serial_email c es (demo_tx 0) (cd_empty c))) ?x s1 =
      (s1\<lparr> st_db := db \<rparr>, Ok ())" by auto
  obtain d where d: "build_dispatcher c uuid_fmt (store_write True []) (store_flush True) (serial_email c es (demo_tx 0) (cd_empty c))
      (serial_account c us (demo_tx 0) (cd_empty c)) 0 0 = Ok d" using dispatcher_built by blast
  have "ta_format (lt_attempt t) = record_format" "cd_read_record c (ta_payload (lt_attempt t)) = Some ?x"
    using t0(2) r(2) s1(3) by (auto simp: record_task_for_def held_row_def row_task_def)
  with db have run: "TaskDispatcher_dispatch d (lt_attempt t) s1 = Return (s1\<lparr> st_db := db \<rparr>, Ok ())"
    by (simp add: dispatch_service [OF d] JsonTaskAdapter_invoke_def lit_def)
  from delivery_done [OF laws w1 s1(2,3) serial_executors d run, of sha256_hex date_naive] obtain s' w' where
    s': "stored_step sha256_hex date_naive uuid_fmt c es us s1 s'" "tracked uuid_fmt c es us s' w'"
      "task_done uuid_fmt c w' (task_of r)" by auto
  then have "task_done uuid_fmt c w' t0" using task_done_row [OF r(2)] by blast
  then have "AccountCreationCompleted e i ts \<in> set (sy_mailboxes w' (as_str e))"
    using t0(2) by (auto simp: task_done_def record_task_for_def)
  with s' s1(1) show ?thesis by (meson rtranclp.rtrancl_into_rtrancl)
qed (use tr in blast)

abbreviation mailbox_events where
  "mailbox_events es s e \<equiv> events_of (EmailReservation_stored es) (st_db s) (as_str e)"

abbreviation account_events where
  "account_events us s \<equiv> events_of (UserAccount_stored us) (st_db s)"

lemma reached_tracked:
  assumes "codec_ok c" "serde_laws es" "serde_laws us" "stored_reaches sha256_hex date_naive uuid_fmt c es us empty_store s"
  shows "\<exists>w. tracked uuid_fmt c es us s w \<and> reaches sha256_hex date_naive uuid_fmt c empty_system w"
proof (rule tracked_reaches [OF assms(1-3) _ assms(4)])
  show "tracked uuid_fmt c es us empty_store empty_system"
    using empty_store_ok(1) tracks_empty empty_system_inv unfolding tracked_def by blast
qed

lemma tracked_sel:
  assumes "tracked uuid_fmt c es us s w"
  shows "sy_mailboxes w = events_of (EmailReservation_stored es) (st_db s)" "sy_accounts w = account_events us s" "sy_console w = st_console s"
  using assms by (simp_all add: tracked_def tracks_def represents_def)

lemma stored_can_complete:
  assumes laws: "codec_ok c" "serde_laws es" "serde_laws us" and "inj uuid_fmt"
    and s: "stored_reaches sha256_hex date_naive uuid_fmt c es us empty_store s"
    and a: "RegistrationProfileAccepted e i dg p \<in> set (mailbox_events es s e)"
    and only: "\<forall>e' dg' p'. RegistrationProfileAccepted e' i dg' p' \<in> set (mailbox_events es s e') \<longrightarrow> e' = e"
    and n: "int (length (db_outbox (st_db s))) < i64_max" "int (length (mailbox_events es s e)) < i64_max"
  shows "\<exists>s' t. stored_reaches sha256_hex date_naive uuid_fmt c es us s s' \<and>
    creation_event (created_account i e p t) \<in> set (account_events us s' (uuid_fmt (as_uuid i))) \<and>
    AccountCreationCompleted e i t \<in> set (mailbox_events es s' e)"
proof -
  from reached_tracked [OF laws s] obtain w where tr: "tracked uuid_fmt c es us s w" by blast
  then have inv: "sys_inv uuid_fmt c w" by (simp add: tracked_def)
  from a have acc: "accepted_in w e i p" by (auto simp: accepted_in_def tracked_sel(1) [OF tr])
  have finish: ?thesis if s1: "stored_reaches sha256_hex date_naive uuid_fmt c es us s s1" "tracked uuid_fmt c es us s1 w1"
      "created_in uuid_fmt w1 e i p t" "sy_mailboxes w1 = sy_mailboxes w" "int (length (db_outbox (st_db s1))) \<le> i64_max" for s1 w1 t
  proof -
    have "int (length (sy_mailboxes w1 (as_str e))) < i64_max" using n(2) s1(4) tracked_sel(1) [OF tr] by simp
    from stored_record [OF laws s1(2,3,5) this] obtain s' w' where s': "stored_reaches sha256_hex date_naive uuid_fmt c es us s1 s'"
      "tracked uuid_fmt c es us s' w'" "AccountCreationCompleted e i t \<in> set (sy_mailboxes w' (as_str e))" by blast
    then have inv': "sys_inv uuid_fmt c w'" by (simp add: tracked_def)
    from completed_created [OF inv' s'(3)] obtain p' where p': "created_in uuid_fmt w' e i p' t" .
    have "accepted_in w' e i p"
    proof -
      have "set (mailbox_events es s e) \<subseteq> set (mailbox_events es s' e)"
        using stored_reaches_grow [OF laws s rtranclp_trans [OF s1(1) s'(1)]] by (auto simp: follows_def dest!: events_grow)
      with a show ?thesis by (auto simp: accepted_in_def tracked_sel(1) [OF s'(2)])
    qed
    with created_singleton(2) [OF inv' p'] accepted_once [of w' e i p' i p] inv' have "p' = p" by (simp add: sys_inv_def)
    with p' s'(3) rtranclp_trans [OF s1(1) s'(1)] show ?thesis by (auto simp: created_in_def tracked_sel [OF s'(2)])
  qed
  show ?thesis
  proof (cases "sy_accounts w (uuid_fmt (as_uuid i)) = []")
    case True
    from stored_create [OF laws tr acc True n(1)] n(1) finish show ?thesis by (metis add.commute of_nat_Suc zless_imp_add1_zle)
  next
    case False
    have "\<forall>e' p'. accepted_in w e' i p' \<longrightarrow> e' = e" using only by (auto simp: accepted_in_def tracked_sel(1) [OF tr])
    then obtain t where "sy_accounts w (uuid_fmt (as_uuid i)) = [creation_event (created_account i e p t)]"
      by (rule existing_account [OF assms(4) inv acc _ False])
    then have "created_in uuid_fmt w e i p t" by (simp add: created_in_def)
    from finish [OF rtranclp.rtrancl_refl tr this] n(1) show ?thesis by simp
  qed
qed

lemma snapshot_row_sound:
  assumes "aggregate_ok a app initial db" "sn \<in> set (db_snapshots db)" "sn_aggregate_type sn = sa_TYPE a"
  shows "snapshot_sound a app initial db (sn_aggregate_id sn) sn"
  using assms by (simp add: aggregate_ok_def snapshots_of_def)

section \<open>Completed rows\<close>

text \<open>What the work of a row leaves: the line with the code, the account, or the completion of the reservation.\<close>

definition took_effect ::
  "(Uuid \<Rightarrow> rstring) \<Rightarrow> 'v codec \<Rightarrow> 'v email_serde \<Rightarrow> 'v account_serde \<Rightarrow> 'v store \<Rightarrow> 'v OutboxRow \<Rightarrow> bool" where
  "took_effect uuid_fmt c es us s r \<longleftrightarrow>
    (ob_task_type r = lit ''send_verification_code'' \<and> (\<exists>x n pre post. cd_read_send c (ob_payload r) = Some x \<and>
        st_console s = pre @ console_line uuid_fmt (VerificationCodeDelivery_from x) (attempt_of (task_of r) n) @ post)) \<or>
    (ob_task_type r = lit ''create_account'' \<and> (\<exists>x t. cd_read_create c (ob_payload r) = Some x \<and>
        creation_event (created_account (ct_account_id x) (ct_email x) (ct_profile x) t) \<in>
          set (account_events us s (uuid_fmt (as_uuid (ct_account_id x)))))) \<or>
    (ob_task_type r = lit ''record_account_created'' \<and> (\<exists>x. cd_read_record c (ob_payload r) = Some x \<and>
        AccountCreationCompleted (rt_email x) (rt_account_id x) (rt_created_at x) \<in> set (mailbox_events es s (rt_email x))))"

lemma completed_effect:
  assumes laws: "codec_ok c" "serde_laws es" "serde_laws us"
    and s: "stored_reaches sha256_hex date_naive uuid_fmt c es us empty_store s"
    and r: "r \<in> set (db_outbox (st_db s))" "ob_status r = ''completed''"
  shows "took_effect uuid_fmt c es us s r"
proof -
  from reached_tracked [OF laws s] obtain w where tr: "tracked uuid_fmt c es us s w" by blast
  note sel = tracked_sel [OF tr]
  from tr r have "task_done uuid_fmt c w (task_of r)" by (simp add: tracked_def tracks_def)
  note effect = this [unfolded task_done_def created_in_def sel]
  from tr r(1) obtain t where t: "t \<in> set (sy_tasks w)" "row_task r t" by (auto simp: tracked_def tracks_def represents_def dest: rel_setD1)
  with tr have "nt_format t \<in> {send_format, create_format, record_format}" by (simp add: tracked_def sys_inv_def task_ok_def)
  moreover have "nt_format (task_of r) = nt_format t" "nt_payload (task_of r) = ob_payload r"
    "task_type (nt_format t) = ob_task_type r" using t(2) by (simp_all add: row_task_def task_of_def)
  ultimately show ?thesis using effect unfolding took_effect_def by (elim insertE emptyE) auto
qed

section \<open>A completed registration, for the witnesses\<close>

lemma stored_accepted_events:
  "events_of (EmailReservation_stored email_values) (st_db stored_accepted) = (\<lambda>k. if k = as_str demo_email then
     [EmailReserved demo_email (UserAccountId 2) 1234567, EmailVerified demo_email (UserAccountId 2) (lit ''d''),
      RegistrationProfileAccepted demo_email (UserAccountId 2) (lit ''d'') demo_profile] else [])"
  by (rule ext) (simp add: stored_accepted_eq(2) events_of_def stream_def demo_store_def email_event_row_def EmailReservation_stored_def
      read_event_def email_values_def)

lemma demo_accepted_rows:
  "RegistrationProfileAccepted demo_email (UserAccountId 2) (lit ''d'') demo_profile \<in> set (mailbox_events email_values stored_accepted demo_email)"
  "\<forall>e dg p. RegistrationProfileAccepted e (UserAccountId 2) dg p \<in> set (mailbox_events email_values stored_accepted e) \<longrightarrow> e = demo_email"
  "int (length (db_outbox (st_db stored_accepted))) < i64_max"
  "int (length (mailbox_events email_values stored_accepted demo_email)) < i64_max"
  by (simp_all add: stored_accepted_events i64_max_def split: if_splits)
    (simp add: stored_accepted_eq(2) demo_store_def)

lemma demo_stored_completed:
  "\<exists>s t. demo_stored_reaches stored_accepted s \<and>
     creation_event (created_account (UserAccountId 2) demo_email demo_profile t) \<in> set (account_events account_values s (demo_fmt 2))"
  using stored_can_complete [OF stored_values_ok demo_fmt_inj demo_stored_reached(3) demo_accepted_rows] by auto

text \<open>The task of the reservation, claimed, delivered to the console and settled.\<close>

definition leased_send :: "stored_value OutboxRow" where
  "leased_send = (pending_row 1 1 ''send_verification_code'' (SendValue demo_send))\<lparr> ob_status := ''processing'', ob_attempts := 1,
     ob_locked_by := Some (lit ''w''), ob_lock_token := Some 101, ob_locked_until := Some 60000000 \<rparr>"

definition held_send :: "stored_value LeasedTask" where
  "held_send = \<lparr> lt_attempt = \<lparr> ta_id = 1, ta_format = send_format, ta_payload = TaskValue (SendValue demo_send),
     ta_metadata = TaskValue EmptyObject, ta_number = 1 \<rparr>, lt_lease = \<lparr> tl_lock_token = 101, tl_deadline = 60000000000 \<rparr> \<rparr>"

definition sent_row :: "stored_value OutboxRow" where
  "sent_row = (pending_row 1 1 ''send_verification_code'' (SendValue demo_send))\<lparr> ob_status := ''completed'', ob_attempts := 1,
     ob_finished_at := Some 0 \<rparr>"

definition stored_leased :: "stored_value store" where
  "stored_leased = (set_outbox [leased_send] stored_reserved)\<lparr> st_held := [held_send] \<rparr>"

definition stored_sent :: "stored_value store" where
  "stored_sent = stored_leased\<lparr> st_console := console_line demo_fmt (VerificationCodeDelivery_from demo_send) (lt_attempt held_send),
     st_handled := {(held_send, Ok ())} \<rparr>"

definition stored_settled :: "stored_value store" where
  "stored_settled = set_outbox [sent_row] stored_sent"

lemmas stored_send_defs = leased_send_def held_send_def sent_row_def stored_leased_def stored_sent_def stored_settled_def set_outbox_def
  stored_reserved_eq(2) demo_store_def pending_row_def

lemma demo_claimed:
  "claim (cd_is_object stored_codec) (demo_tx 0) 0 (db_outbox (st_db stored_reserved)) send_format (lit ''w'') 1 60000000000 =
      ([leased_send], Ok [held_send])"
  by (simp add: claim_def rust_defs begin_queue_transaction_def milliseconds_def claim_statement_def Let_def ready_ids_def is_ready_def
        claim_row_def row_ok_def ClaimRow_from_row_def into_claimed_task_def TaskAttempt_new_def validate_payload_def
        validate_metadata_def tx_commit_def demo_tx_def stored_send_defs stored_codec_def lit_def)

lemma demo_stored_steps:
  "stored_step id id demo_fmt stored_codec email_values account_values stored_reserved stored_leased"
  "stored_step id id demo_fmt stored_codec email_values account_values stored_leased stored_sent"
  "stored_step id id demo_fmt stored_codec email_values account_values stored_sent stored_settled"
proof -
  from stored_claims [OF demo_claimed] show "stored_step id id demo_fmt stored_codec email_values account_values stored_reserved stored_leased"
    by (simp add: stored_leased_def stored_reserved_eq(2) demo_store_def)
  obtain d where d: "build_dispatcher stored_codec demo_fmt (store_write True []) (store_flush True)
      (serial_email stored_codec email_values (demo_tx 0) (TaskValue EmptyObject))
      (serial_account stored_codec account_values (demo_tx 0) (TaskValue EmptyObject)) 0 0 = Ok d" using dispatcher_built by blast
  have run: "TaskDispatcher_dispatch d (lt_attempt held_send) stored_leased =
      Return (stored_leased\<lparr> st_console := console_line demo_fmt (VerificationCodeDelivery_from demo_send) (lt_attempt held_send) \<rparr>, Ok ())"
    by (simp add: dispatch_service [OF d] JsonTaskAdapter_invoke_def SendVerificationCodeTaskHandler_handle_def
        ConsoleVerificationCodeSender_send_def store_write_def store_flush_def stored_send_defs stored_codec_def)
  have "held_send \<in> set (st_held stored_leased)" by (simp add: stored_leased_def)
  from stored_delivers [OF this serial_executors d run]
  show "stored_step id id demo_fmt stored_codec email_values account_values stored_leased stored_sent"
    by (simp add: stored_sent_def stored_leased_def set_outbox_def stored_reserved_eq(2) demo_store_def)
  have "may_settle stored_sent held_send SettlementRequest.Completed" by (auto simp: may_settle_def stored_sent_def intro: exI [of _ "Ok ()"])
  moreover have "settle (cd_is_object stored_codec) (demo_tx 0) (db_outbox (st_db stored_sent)) held_send SettlementRequest.Completed =
      ([sent_row], Ok SettlementResult.Completed)"
    by (simp add: settle_def begin_queue_transaction_def milliseconds_def rust_defs settle_statement_def is_owned_def is_live_def
        settle_row_def row_ok_def settlement_result_def tx_commit_def demo_tx_def stored_send_defs stored_codec_def lit_def)
  ultimately show "stored_step id id demo_fmt stored_codec email_values account_values stored_sent stored_settled"
    using stored_settles [of stored_sent held_send SettlementRequest.Completed id id demo_fmt stored_codec email_values account_values "demo_tx 0"]
    by (simp add: stored_settled_def)
qed

lemma demo_stored_settled: "demo_stored_reaches empty_store stored_settled"
  using demo_stored_reached(1) demo_stored_steps by (meson rtranclp.rtrancl_into_rtrancl)

section \<open>Properties\<close>

text \<open>
  C2. Whatever the service does on its tables, the decoded event streams, the outbox rows and the console
  are those of a reachable state of the registration, so that every property of reachable
  registrations holds of the tables.
\<close>

theorem tables_refine_registration:
  assumes "codec_ok c" "serde_laws es" "serde_laws us"
    and "stored_reaches sha256_hex date_naive uuid_fmt c es us empty_store s"
  shows "\<exists>w. reaches sha256_hex date_naive uuid_fmt c empty_system w \<and> represents es us s w"
  using reached_tracked [OF assms] by (auto simp: tracked_def tracks_def)

theorem tables_refine_registration_witness:
  "demo_stored_reaches empty_store stored_accepted \<and>
   (\<exists>w. reaches id id demo_fmt stored_codec empty_system w \<and> represents email_values account_values stored_accepted w)"
  using tables_refine_registration [OF stored_values_ok demo_stored_reached(3)] demo_stored_reached(3) by blast

text \<open>
  C1. A row of an account in the table of events is the only one of its account, has number 1 and decodes to
  a creation, and the rows of the mailbox it names decode to a stream that verified the address
  under the account's identifier and then accepted exactly the account's profile.
\<close>

theorem account_rows_come_from_verified_mailboxes:
  assumes laws: "codec_ok c" "serde_laws es" "serde_laws us"
    and s: "stored_reaches sha256_hex date_naive uuid_fmt c es us empty_store s"
    and rows: "stream (st_db s) (lit ''user_account'') k \<noteq> []"
  shows "\<exists>r i e p t h d evs. stream (st_db s) (lit ''user_account'') k = [r] \<and> ev_sequence r = 1 \<and>
    sd_read_event us (ev_payload r) = Some (creation_event (created_account i e p t)) \<and> k = uuid_fmt (as_uuid i) \<and> profile_ok p \<and>
    mailbox_events es s e = h @ EmailVerified e i d # RegistrationProfileAccepted e i d p # evs"
proof -
  let ?st = "stream (st_db s) (lit ''user_account'') k"
  from reached_tracked [OF laws s] obtain w where tr: "tracked uuid_fmt c es us s w" by blast
  note sel = tracked_sel [OF tr]
  from tr have inv: "sys_inv uuid_fmt c w" by (simp add: tracked_def)
  have "sy_accounts w k \<noteq> []" using rows by (simp add: sel(2) events_of_def)
  from account_origin [OF inv this] obtain i e p t h d evs where
    o: "account_events us s k = [creation_event (created_account i e p t)]" "k = uuid_fmt (as_uuid i)" "profile_ok p"
      "mailbox_events es s e = h @ EmailVerified e i d # RegistrationProfileAccepted e i d p # evs" unfolding sel by blast
  from o(1) obtain r where r: "?st = [r]" "the (read_event (UserAccount_stored us) (ev_payload r)) = creation_event (created_account i e p t)"
    by (auto simp: events_of_def)
  have "aggregate_ok (UserAccount_stored us) UserAccount_apply UserAccount_default (st_db s)" by (rule reachable_store(3) [OF laws s])
  moreover have "r \<in> set ?st" by (simp add: r(1))
  ultimately have "gap_free (st_db s) (lit ''user_account'') k" "read_event (UserAccount_stored us) (ev_payload r) \<noteq> None"
    unfolding aggregate_ok_def stored_types by blast+
  with r have "ev_sequence r = 1" "sd_read_event us (ev_payload r) = Some (creation_event (created_account i e p t))"
    by (auto simp: gap_free_def read_event_def)
  with r(1) o(2-4) show ?thesis by blast
qed

theorem account_rows_come_from_verified_mailboxes_witness:
  "\<exists>s r. demo_stored_reaches empty_store s \<and> stream (st_db s) (lit ''user_account'') (demo_fmt 2) = [r] \<and> ev_sequence r = 1"
proof -
  from demo_stored_completed obtain s t where s: "demo_stored_reaches stored_accepted s"
    "creation_event (created_account (UserAccountId 2) demo_email demo_profile t) \<in> set (account_events account_values s (demo_fmt 2))" by blast
  then have "stream (st_db s) (lit ''user_account'') (demo_fmt 2) \<noteq> []" by (auto simp: events_of_def)
  with account_rows_come_from_verified_mailboxes [OF stored_values_ok rtranclp_trans [OF demo_stored_reached(3) s(1)]]
    rtranclp_trans [OF demo_stored_reached(3) s(1)] show ?thesis by blast
qed

text \<open>
  C5. The queue completes a task only when its work is done: for every completed row of the outbox, the
  line with the code was written to the console, or the account of the payload is in the table of
  events, or the completion is in the stream of the mailbox. No row is completed that has none of the three formats.
\<close>

theorem completed_rows_took_effect:
  assumes laws: "codec_ok c" "serde_laws es" "serde_laws us"
    and s: "stored_reaches sha256_hex date_naive uuid_fmt c es us empty_store s"
    and r: "r \<in> set (db_outbox (st_db s))" "ob_status r = ''completed''"
  shows "(ob_task_type r = lit ''send_verification_code'' \<and> (\<exists>x n pre post. cd_read_send c (ob_payload r) = Some x \<and>
        st_console s = pre @ console_line uuid_fmt (VerificationCodeDelivery_from x) (attempt_of (task_of r) n) @ post)) \<or>
    (ob_task_type r = lit ''create_account'' \<and> (\<exists>x t. cd_read_create c (ob_payload r) = Some x \<and>
        creation_event (created_account (ct_account_id x) (ct_email x) (ct_profile x) t) \<in>
          set (account_events us s (uuid_fmt (as_uuid (ct_account_id x)))))) \<or>
    (ob_task_type r = lit ''record_account_created'' \<and> (\<exists>x. cd_read_record c (ob_payload r) = Some x \<and>
        AccountCreationCompleted (rt_email x) (rt_account_id x) (rt_created_at x) \<in> set (mailbox_events es s (rt_email x))))"
  using completed_effect [OF assms] unfolding took_effect_def .

theorem completed_rows_took_effect_witness:
  "\<exists>x n pre post. sent_row \<in> set (db_outbox (st_db stored_settled)) \<and> ob_status sent_row = ''completed'' \<and>
     cd_read_send stored_codec (ob_payload sent_row) = Some x \<and>
     st_console stored_settled = pre @ console_line demo_fmt (VerificationCodeDelivery_from x) (attempt_of (task_of sent_row) n) @ post"
proof -
  have row: "sent_row \<in> set (db_outbox (st_db stored_settled))" "ob_status sent_row = ''completed''"
    "ob_task_type sent_row = lit ''send_verification_code''" by (simp_all add: stored_send_defs)
  from completed_rows_took_effect [OF stored_values_ok demo_stored_settled row(1,2)] row show ?thesis
    unfolding row(3) by (auto simp: lit_def)
qed

text \<open>
  C17. A snapshot is a state its stream has had: the row of every snapshot, of mailboxes and of accounts, has
  the number of an event of its stream, or zero, and its payload reads back as the state after the events up to that number.
\<close>

theorem snapshots_agree_with_events:
  assumes laws: "codec_ok c" "serde_laws es" "serde_laws us"
    and s: "stored_reaches sha256_hex date_naive uuid_fmt c es us empty_store s"
    and sn: "sn \<in> set (db_snapshots (st_db s))"
  shows "(sn_aggregate_type sn = lit ''email_reservation'' \<longrightarrow>
      (\<exists>m st. m \<le> length (stream (st_db s) (lit ''email_reservation'') (sn_aggregate_id sn)) \<and> sn_last_sequence sn = int m \<and>
        sd_read_state es (sn_payload sn) = Some st \<and> replay EmailReservation_apply EmailReservation_default
          (take m (events_of (EmailReservation_stored es) (st_db s) (sn_aggregate_id sn))) = Return st)) \<and>
    (sn_aggregate_type sn = lit ''user_account'' \<longrightarrow>
      (\<exists>m st. m \<le> length (stream (st_db s) (lit ''user_account'') (sn_aggregate_id sn)) \<and> sn_last_sequence sn = int m \<and>
        sd_read_state us (sn_payload sn) = Some st \<and> replay UserAccount_apply UserAccount_default
          (take m (events_of (UserAccount_stored us) (st_db s) (sn_aggregate_id sn))) = Return st))"
proof -
  note email = snapshot_row_sound [OF reachable_store(2) [OF laws s] sn]
  note account = snapshot_row_sound [OF reachable_store(3) [OF laws s] sn]
  show ?thesis using email account by (simp add: snapshot_sound_def read_state_def)
qed

theorem snapshots_agree_with_events_witness:
  "\<exists>m st. m \<le> 3 \<and> sd_read_state email_values (EmailState \<lparr> phase = CreatingAccount (UserAccountId 2) (lit ''d'') demo_profile \<rparr>) = Some st \<and>
     replay EmailReservation_apply EmailReservation_default (take m (mailbox_events email_values stored_accepted demo_email)) = Return st"
proof -
  let ?sn = "email_snapshot_row 3 (CreatingAccount (UserAccountId 2) (lit ''d'') demo_profile)"
  have sn: "?sn \<in> set (db_snapshots (st_db stored_accepted))" by (simp add: stored_accepted_eq(2) demo_store_def)
  have sel: "sn_aggregate_type ?sn = lit ''email_reservation''" "sn_aggregate_id ?sn = as_str demo_email" "sn_last_sequence ?sn = int 3"
    "sn_payload ?sn = EmailState \<lparr> phase = CreatingAccount (UserAccountId 2) (lit ''d'') demo_profile \<rparr>"
    by (simp_all add: email_snapshot_row_def)
  from snapshots_agree_with_events [OF stored_values_ok demo_stored_reached(3) sn, unfolded sel] show ?thesis by force
qed



end
