(* ===== verification/Stored_Http.thy ===== *)
theory Stored_Http
  imports Stored_Guarantees Http_Api
begin

text \<open>
  Requests of clients over the tables: the routes of \<open>presentation/http.rs\<close> with their services over the
  stack of \<open>postgres/command_factory.rs\<close>, while others use the same tables.

  The theory shows that a request comes to at most one call of its executor, so that its response can be
  read against the tables at one moment of the request.
\<close>

section \<open>A request makes one call\<close>

lemma answer_apsnd:
  "answer into_response (case x of (w, Err e) \<Rightarrow> (w, Err (f e)) | (w, Ok y) \<Rightarrow> (w, Ok (g y))) =
     apsnd (\<lambda>r. case r of Ok y \<Rightarrow> g y | Err e \<Rightarrow> into_response (f e)) x"
  by (cases x) (auto split: result.splits)

text \<open>
  A route answers by itself, or with what it makes of the answer of one use case; in two worlds it makes
  the same of it.
\<close>

lemma router_cases:
  fixes env sha256_hex date_naive g now v4 endpoint and c :: "'v codec"
  obtains (plain) response where "\<And>ex :: ('w, EmailReservationCommand, 'v, EmailReservationError) executor. router env sha256_hex date_naive c ex g now v4 endpoint =
      (\<lambda>s. (s, response))"
      "\<And>exA :: ('x, EmailReservationCommand, 'v, EmailReservationError) executor. router env sha256_hex date_naive c exA g now v4 endpoint =
      (\<lambda>s. (s, response))"
  | (reserve) f email where "\<And>ex :: ('w, EmailReservationCommand, 'v, EmailReservationError) executor. router env sha256_hex date_naive c ex g now v4 endpoint =
      (\<lambda>s. apsnd f (reserve_email c (CqrsEmailReservationGateway_execute_with_outbox ex) g v4 email s))"
      "\<And>exA :: ('x, EmailReservationCommand, 'v, EmailReservationError) executor. router env sha256_hex date_naive c exA g now v4 endpoint =
      (\<lambda>s. apsnd f (reserve_email c (CqrsEmailReservationGateway_execute_with_outbox exA) g v4 email s))"
  | (request) f email where "\<And>ex :: ('w, EmailReservationCommand, 'v, EmailReservationError) executor. router env sha256_hex date_naive c ex g now v4 endpoint =
      (\<lambda>s. apsnd f (request_new_verification_code c (CqrsEmailReservationGateway_execute_with_outbox ex) g v4 email s))"
      "\<And>exA :: ('x, EmailReservationCommand, 'v, EmailReservationError) executor. router env sha256_hex date_naive c exA g now v4 endpoint =
      (\<lambda>s. apsnd f (request_new_verification_code c (CqrsEmailReservationGateway_execute_with_outbox exA) g v4 email s))"
  | (confirm) f email account_id code where "\<And>ex :: ('w, EmailReservationCommand, 'v, EmailReservationError) executor. router env sha256_hex date_naive c ex g now v4 endpoint =
      (\<lambda>s. apsnd f (confirm_email sha256_hex (CqrsEmailReservationGateway_execute ex) g email account_id code s))"
      "\<And>exA :: ('x, EmailReservationCommand, 'v, EmailReservationError) executor. router env sha256_hex date_naive c exA g now v4 endpoint =
      (\<lambda>s. apsnd f (confirm_email sha256_hex (CqrsEmailReservationGateway_execute exA) g email account_id code s))"
  | (submit) f submission where "\<And>ex :: ('w, EmailReservationCommand, 'v, EmailReservationError) executor. router env sha256_hex date_naive c ex g now v4 endpoint =
      (\<lambda>s. apsnd f (submit_profile sha256_hex date_naive c (CqrsEmailReservationGateway_execute_with_outbox ex) now v4 submission s))"
      "\<And>exA :: ('x, EmailReservationCommand, 'v, EmailReservationError) executor. router env sha256_hex date_naive c exA g now v4 endpoint =
      (\<lambda>s. apsnd f (submit_profile sha256_hex date_naive c (CqrsEmailReservationGateway_execute_with_outbox exA) now v4 submission s))"
proof (cases endpoint)
  case (Reserve payload)
  show thesis
  proof (cases "\<exists>request email. payload = Ok request \<and> parse_email env (rq_email request) = Ok email")
    case True
    then obtain request email where "payload = Ok request" "parse_email env (rq_email request) = Ok email" by blast
    with Reserve show thesis by (intro reserve [of "\<lambda>r. case r of Ok y \<Rightarrow> \<lparr> rs_status = 202, rs_headers = [],
          rs_body = ReserveEmailResponse (re_email y) (re_account_id y) \<rparr>
        | Err e \<Rightarrow> EmailReservationsError_into_response (EmailReservationsError_from e)" email]) (simp_all add: reserve_def answer_apsnd fun_eq_iff)
  next
    case False
    with Reserve show thesis
      by (intro plain [of "snd (router env sha256_hex date_naive c (\<lambda>_ _ _ _. undefined) g now v4 endpoint ())"])
        (auto simp: reserve_def fun_eq_iff split: result.splits)
  qed
next
  case (RequestCode path)
  show thesis
  proof (cases "\<exists>address email. path = Ok address \<and> parse_email env address = Ok email")
    case True
    then obtain address email where "path = Ok address" "parse_email env address = Ok email" by blast
    with RequestCode show thesis by (intro request [of "\<lambda>r. case r of Ok y \<Rightarrow> \<lparr> rs_status = 202, rs_headers = [],
          rs_body = RequestCodeResponse ''verification_code_requested'' \<rparr>
        | Err e \<Rightarrow> EmailReservationsError_into_response (EmailReservationsError_from e)" email]) (auto simp: request_code_def answer_apsnd fun_eq_iff split: result.splits)
  next
    case False
    with RequestCode show thesis
      by (intro plain [of "snd (router env sha256_hex date_naive c (\<lambda>_ _ _ _. undefined) g now v4 endpoint ())"])
        (auto simp: request_code_def fun_eq_iff split: result.splits)
  qed
next
  case (Verify path payload)
  show thesis
  proof (cases "\<exists>address request account_id email. path = Ok address \<and> payload = Ok request \<and>
      parse_account_id env (vq_account_id request) = Ok account_id \<and> parse_email env address = Ok email")
    case True
    then obtain address request account_id email where "path = Ok address" "payload = Ok request"
      "parse_account_id env (vq_account_id request) = Ok account_id" "parse_email env address = Ok email" by blast
    with Verify show thesis by (intro confirm [of "\<lambda>r. case r of Ok y \<Rightarrow> \<lparr> rs_status = 200, rs_headers = [(''cache-control'', ''no-store'')],
          rs_body = VerifyEmailResponse (ve_email y) (ve_account_id y) (ve_account_creation_token y) \<rparr>
        | Err e \<Rightarrow> EmailReservationsError_into_response (EmailReservationsError_from e)" email account_id "vq_code request"]) (simp_all add: verify_def answer_apsnd fun_eq_iff)
  next
    case False
    with Verify show thesis
      by (intro plain [of "snd (router env sha256_hex date_naive c (\<lambda>_ _ _ _. undefined) g now v4 endpoint ())"])
        (auto simp: verify_def fun_eq_iff split: result.splits)
  qed
next
  case RegistrationStatus
  then show thesis by (intro plain) (simp_all add: fun_eq_iff)
next
  case (SubmitProfile payload)
  show thesis
  proof (cases "\<exists>request email account_id dob. payload = Ok request \<and> parse_email env (sq_email request) = Ok email \<and>
      parse_account_id env (sq_account_id request) = Ok account_id \<and> he_date_parse env (sq_date_of_birth request) = Some dob")
    case True
    then obtain request email account_id dob where "payload = Ok request" "parse_email env (sq_email request) = Ok email"
      "parse_account_id env (sq_account_id request) = Ok account_id" "he_date_parse env (sq_date_of_birth request) = Some dob" by blast
    with SubmitProfile show thesis
      by (intro submit [of "\<lambda>r. case r of Ok y \<Rightarrow> \<lparr> rs_status = 202, rs_headers = [], rs_body = SubmitProfileResponse (as_account_id y)
          (lit ''/email-reservations/'' @ he_percent_encode env PATH_SEGMENT (as_str (as_email y)) @
            lit ''/registrations/'' @ UserAccountId_to_string (he_uuid_fmt env) (as_account_id y)) \<rparr>
        | Err e \<Rightarrow> UserAccountsError_into_response (UserAccountsError_from e)" "\<lparr> ps_email = email, ps_account_id = account_id,
                  ps_account_creation_token = sq_account_creation_token request, ps_first_name = sq_first_name request,
                  ps_last_name = sq_last_name request, ps_date_of_birth = dob \<rparr>"]) (simp_all add: submit_profile_handler_def answer_apsnd fun_eq_iff)
  next
    case False
    with SubmitProfile show thesis
      by (intro plain [of "snd (router env sha256_hex date_naive c (\<lambda>_ _ _ _. undefined) g now v4 endpoint ())"])
        (auto simp: submit_profile_handler_def fun_eq_iff split: result.splits option.splits)
  qed
qed

lemma router_call: "one_call (\<lambda>ex :: ('w, EmailReservationCommand, 'v, EmailReservationError) executor. router env sha256_hex date_naive c ex g now v4 endpoint)"
proof (cases rule: router_cases [where 'w = "'w" and 'x = "'w", of env sha256_hex date_naive c g now v4 endpoint])
  case (plain response)
  show ?thesis unfolding plain(1) by (rule no_call)
next
  case (reserve f email)
  show ?thesis unfolding reserve(1) by (rule one_call_apsnd [OF reserve_call])
next
  case (request f email)
  show ?thesis unfolding request(1) by (rule one_call_apsnd [OF request_code_call])
next
  case (confirm f email account_id code)
  show ?thesis unfolding confirm(1) by (rule one_call_apsnd [OF confirm_call])
next
  case (submit f submission)
  show ?thesis unfolding submit(1) by (rule one_call_apsnd [OF submit_call])
qed

lemma router_alike:
  fixes ex :: "('w, EmailReservationCommand, 'v, EmailReservationError) executor"
    and exA :: "('x, EmailReservationCommand, 'v, EmailReservationError) executor"
  assumes ex: "\<And>k command tasks. alike R (ex k command tasks s) (exA k command tasks w)" and R: "R s w"
  shows "alike R (router env sha256_hex date_naive c ex g now v4 endpoint s) (router env sha256_hex date_naive c exA g now v4 endpoint w)"
proof (cases rule: router_cases [where 'w = "'w" and 'x = "'x", of env sha256_hex date_naive c g now v4 endpoint])
  case (plain response)
  with R show ?thesis by simp
next
  case (reserve f email)
  show ?thesis unfolding reserve by (intro alike_apsnd reserve_alike ex R)
next
  case (request f email)
  show ?thesis unfolding request by (intro alike_apsnd request_code_alike ex R)
next
  case (confirm f email account_id code)
  show ?thesis unfolding confirm by (intro alike_apsnd confirm_alike ex R)
next
  case (submit f submission)
  show ?thesis unfolding submit by (intro alike_apsnd submit_alike ex R)
qed

text \<open>Every request is a request of the service, or changes nothing.\<close>

lemma router_service_step:
  fixes ex :: "'v stored_email_executor"
  assumes g: "material_ok g" and run: "router env sha256_hex date_naive c ex g now v4 endpoint s = (s', response)"
  shows "s' = s \<or> service_step sha256_hex date_naive uuid_fmt c ex ax s s'"
proof (cases rule: router_cases [where 'w = "'v store" and 'x = "'v store", of env sha256_hex date_naive c g now v4 endpoint])
  case (plain response')
  with run show ?thesis by simp
next
  case (reserve f email)
  with run service_reserves [OF g] show ?thesis by (metis apsnd_conv prod.collapse fst_conv)
next
  case (request f email)
  with run service_requests_code [OF g] show ?thesis by (metis apsnd_conv prod.collapse fst_conv)
next
  case (confirm f email account_id code)
  with run service_confirms show ?thesis by (metis apsnd_conv prod.collapse fst_conv)
next
  case (submit f submission)
  with run service_submits show ?thesis by (metis apsnd_conv prod.collapse fst_conv)
qed

lemma router_stored_step:
  fixes ex :: "'v stored_email_executor"
  assumes ex: "email_executor_serial (cd_is_object c) es ex" and g: "material_ok g"
    and run: "router env sha256_hex date_naive c ex g now v4 endpoint s = (s', response)"
  shows "s' = s \<or> stored_step sha256_hex date_naive uuid_fmt c es us s s'"
proof (cases rule: router_cases [where 'w = "'v store" and 'x = "'v store", of env sha256_hex date_naive c g now v4 endpoint])
  case (plain response')
  with run show ?thesis by simp
next
  case (reserve f email)
  with run stored_reserves [OF ex g] show ?thesis by (metis apsnd_conv prod.collapse fst_conv)
next
  case (request f email)
  with run stored_requests_code [OF ex g] show ?thesis by (metis apsnd_conv prod.collapse fst_conv)
next
  case (confirm f email account_id code)
  with run stored_confirms [OF ex] show ?thesis by (metis apsnd_conv prod.collapse fst_conv)
next
  case (submit f submission)
  with run stored_submits [OF ex] show ?thesis by (metis apsnd_conv prod.collapse fst_conv)
qed

section \<open>Responses and tables\<close>

text \<open>
  What a response says of the moment of its request, from the tables \<open>s0\<close> before it to the tables \<open>s1\<close> after it.
\<close>

definition told ::
  "(rstring \<Rightarrow> rstring) \<Rightarrow> 'v codec \<Rightarrow> 'v email_serde \<Rightarrow> 'v account_serde \<Rightarrow> 'v store \<Rightarrow> 'v store \<Rightarrow> http_response \<Rightarrow> bool" where
  "told sha256_hex c es us s0 s1 response \<longleftrightarrow> rs_status response \<noteq> 500 \<and>
     (rs_status response < 400 \<longrightarrow> (\<exists>e tasks. confirms_event sha256_hex c (rs_body response) e tasks \<and>
        legal_history (mailbox_events es s0 (event_email e) @ [e]) \<and>
        events_of (EmailReservation_stored es) (st_db s1) = (events_of (EmailReservation_stored es) (st_db s0))
          (as_str (event_email e) := mailbox_events es s0 (event_email e) @ [e]) \<and>
        (\<forall>t\<in>set tasks. \<exists>r\<in>set (db_outbox (st_db s1)). row_task r t))) \<and>
     (400 \<le> rs_status response \<and> rs_status response \<noteq> 503 \<longrightarrow>
        events_of (EmailReservation_stored es) (st_db s1) = events_of (EmailReservation_stored es) (st_db s0) \<and>
        account_events us s1 = account_events us s0 \<and> ob_id ` set (db_outbox (st_db s1)) = ob_id ` set (db_outbox (st_db s0)) \<and>
        st_console s1 = st_console s0)"

lemma represented_ids:
  assumes "represents es us s w"
  shows "ob_id ` set (db_outbox (st_db s)) = nt_id ` set (sy_tasks w)"
proof -
  have "nt_id t = ob_id r" if "row_task r t" for r :: "'v OutboxRow" and t using that by (simp add: row_task_def)
  with assms show ?thesis unfolding represents_def rel_set_def by (force simp: image_iff)
qed

lemma honest_told:
  assumes honest: "honest sha256_hex c w w' response" and rep: "represents es us s0 w" "represents es us s1 w'"
  shows "told sha256_hex c es us s0 s1 response"
proof -
  note sel = rep [unfolded represents_def]
  have "\<exists>e tasks. confirms_event sha256_hex c (rs_body response) e tasks \<and> legal_history (mailbox_events es s0 (event_email e) @ [e]) \<and>
      events_of (EmailReservation_stored es) (st_db s1) = (events_of (EmailReservation_stored es) (st_db s0))
        (as_str (event_email e) := mailbox_events es s0 (event_email e) @ [e]) \<and>
      (\<forall>t\<in>set tasks. \<exists>r\<in>set (db_outbox (st_db s1)). row_task r t)" if "rs_status response < 400"
  proof -
    from honest that obtain e tasks where e: "Http_Api.committed w e tasks w'" "confirms_event sha256_hex c (rs_body response) e tasks"
      by (auto simp: honest_def)
    then have w': "w' = commit_mailbox (as_str (event_email e)) tasks [e] w" and "legal_history (sy_mailboxes w (as_str (event_email e)) @ [e])"
      by (simp_all add: Http_Api.committed_def)
    moreover from w' have "\<exists>r\<in>set (db_outbox (st_db s1)). row_task r t" if "t \<in> set tasks" for t
      using sel(2) that unfolding rel_set_def by (simp add: commit_mailbox_def)
    ultimately show ?thesis using e(2) sel by (intro exI [of _ e] exI [of _ tasks]) (simp add: commit_mailbox_def)
  qed
  moreover have "events_of (EmailReservation_stored es) (st_db s1) = events_of (EmailReservation_stored es) (st_db s0) \<and>
      account_events us s1 = account_events us s0 \<and> ob_id ` set (db_outbox (st_db s1)) = ob_id ` set (db_outbox (st_db s0)) \<and>
      st_console s1 = st_console s0" if "400 \<le> rs_status response" "rs_status response \<noteq> 503"
    using honest that sel represented_ids [OF rep(1)] represented_ids [OF rep(2)] by (simp add: honest_def)
  ultimately show ?thesis using honest unfolding told_def honest_def by blast
qed

section \<open>Properties\<close>

text \<open>
  C7. A client can rely on the response, whatever others do during the request. Between the start and the end of the
  request there is a moment at which it took effect. A success response is sent only when the event it
  speaks of was then appended to the stream of its mailbox and the rows of its tasks are in the outbox. A failure other
  than 503 changed no stream, no console and added no row. No request ends in an internal error.
\<close>

theorem responses_tell_what_the_tables_hold:
  assumes laws: "codec_ok c" "serde_laws es" "serde_laws us"
    and ste: "stack (stored_step sha256_hex date_naive uuid_fmt c es us) (cd_is_object c) (EmailReservation_stored es)
      EmailReservation_handle EmailReservation_apply EmailReservation_default reader new_snapshot_store new_framework fw_execute
      backoff sleep config ex"
    and s: "stored_reaches sha256_hex date_naive uuid_fmt c es us empty_store s" and g: "material_ok g"
    and run: "router env sha256_hex date_naive c ex g now v4 endpoint s = (s', response)"
  shows "\<exists>s0. stored_reaches sha256_hex date_naive uuid_fmt c es us s s0 \<and> stored_reaches sha256_hex date_naive uuid_fmt c es us s0 s' \<and>
    told sha256_hex c es us s0 s' response"
proof -
  from email_call_interleaved [OF laws ste s router_call, of env sha256_hex date_naive c g now v4 endpoint] obtain s0 ex' where
    s0: "stored_reaches sha256_hex date_naive uuid_fmt c es us s s0" and ex': "email_executor_serial (cd_is_object c) es ex'"
    and run': "router env sha256_hex date_naive c ex' g now v4 endpoint s0 = (s', response)" using run by auto
  from reached_tracked [OF laws rtranclp_trans [OF s s0]] obtain w where "tracked uuid_fmt c es us s0 w" by blast
  then have ok: "store_ok c es us s0" and rep: "represents es us s0 w" and inv: "sys_inv uuid_fmt c w"
    by (simp_all add: tracked_def tracks_def)
  from email_executor_alike [OF ex' laws(2) ok rep] obtain exA where exA: "email_executor_ok exA"
    "\<And>k command tasks. alike (advanced c es us s0) (ex' k command tasks s0) (exA k command tasks w)" by blast
  obtain w' where w': "router env sha256_hex date_naive c exA g now v4 endpoint w = (w', response)" "represents es us s' w'"
    using router_alike [where R = "advanced c es us s0" and ex = ex' and exA = exA, OF exA(2), of env sha256_hex date_naive c g now v4 endpoint]
      run' rep follows_refl [OF ok] by (cases "router env sha256_hex date_naive c exA g now v4 endpoint w") simp
  have "stored_reaches sha256_hex date_naive uuid_fmt c es us s0 s'"
    using router_stored_step [OF ex' g run'] by blast
  with s0 honest_told [OF router_honest [OF laws(1) exA(1) inv g w'(1)] rep w'(2)] show ?thesis by blast
qed

lemma stored_reserve_response:
  "router demo_http id id stored_codec stored_email_executor demo_generator 20 1 (Reserve (Ok \<lparr> rq_email = lit ''a@b.c'' \<rparr>)) empty_store =
     (stored_reserved, \<lparr> rs_status = 202, rs_headers = [], rs_body = ReserveEmailResponse demo_email (UserAccountId 2) \<rparr>)"
  using demo_parsed stored_reserved_eq(1) by (simp add: reserve_def)

lemma demo_material_ok: "material_ok demo_generator"
  by (simp add: material_ok_def demo_generator_def code_ok_def)

theorem responses_tell_what_the_tables_hold_witness:
  "\<exists>s0 code. demo_stored_reaches empty_store s0 \<and> demo_stored_reaches s0 stored_reserved \<and>
     mailbox_events email_values stored_reserved demo_email =
       mailbox_events email_values s0 demo_email @ [EmailReserved demo_email (UserAccountId 2) code]"
proof -
  from responses_tell_what_the_tables_hold [where uuid_fmt = demo_fmt, OF stored_values_ok demo_stacks(1) rtranclp.rtrancl_refl
      demo_material_ok stored_reserve_response]
  obtain s0 where s0: "demo_stored_reaches empty_store s0" "demo_stored_reaches s0 stored_reserved"
    and told: "told id stored_codec email_values account_values s0 stored_reserved
      \<lparr> rs_status = 202, rs_headers = [], rs_body = ReserveEmailResponse demo_email (UserAccountId 2) \<rparr>" by blast
  from told obtain e tasks where e: "confirms_event id stored_codec (ReserveEmailResponse demo_email (UserAccountId 2)) e tasks"
    "events_of (EmailReservation_stored email_values) (st_db stored_reserved) = (events_of (EmailReservation_stored email_values) (st_db s0))
      (as_str (event_email e) := mailbox_events email_values s0 (event_email e) @ [e])"
    unfolding told_def by (simp del: confirms_event.simps) blast
  from e(1) obtain code where "e = EmailReserved demo_email (UserAccountId 2) code" by auto
  with e(2) s0 show ?thesis by (intro exI [of _ s0] exI [of _ code]) simp
qed

end
