(* ===== verification/Stored_Workers.thy ===== *)
theory Stored_Workers
  imports Stored_Guarantees
begin

text \<open>
  Workers over the tables. \<open>stored_step\<close> has the delivery of a task and its settlement as two steps,
  of which the second is allowed whatever request an answer of the first may lead to. Here a worker
  executes a held task with \<open>execute_and_settle\<close> of \<open>task/executor/default_executor.rs\<close>, its timers,
  its dropped calls and the request it makes of the answer included, over the dispatcher of
  \<open>startup/wiring.rs\<close> and the executors of \<open>postgres/command_factory.rs\<close>.

  The theory shows that every such execution comes to steps of the tables, and what its report says
  of them.
\<close>

section \<open>Answers are not read\<close>

text \<open>
  \<open>st_handled\<close> records what handlers answered; no step of the program reads it. So the steps of
  others are the same with more of it.
\<close>

definition heard :: "('v LeasedTask \<times> (unit, TaskHandlerError) result) set \<Rightarrow> 'v store \<Rightarrow> 'v store" where
  "heard answers s = s\<lparr> st_handled := answers \<union> st_handled s \<rparr>"

lemma heard_sel [simp]:
  "st_db (heard answers s) = st_db s" "st_held (heard answers s) = st_held s" "st_console (heard answers s) = st_console s"
  "st_handled (heard answers s) = answers \<union> st_handled s"
  by (simp_all add: heard_def)

lemma heard_none [simp]: "heard {} s = s"
  by (simp add: heard_def)

lemma heard_updates:
  "heard answers (s\<lparr> st_db := db \<rparr>) = (heard answers s)\<lparr> st_db := db \<rparr>"
  "heard answers (s\<lparr> st_held := held \<rparr>) = (heard answers s)\<lparr> st_held := held \<rparr>"
  "heard answers (s\<lparr> st_console := console \<rparr>) = (heard answers s)\<lparr> st_console := console \<rparr>"
  "heard answers (s\<lparr> st_handled := insert x (st_handled s) \<rparr>) = (heard answers s)\<lparr> st_handled := insert x (st_handled (heard answers s)) \<rparr>"
  by (simp_all add: heard_def)

lemma heard_outbox: "heard answers (set_outbox rows s) = set_outbox rows (heard answers s)"
  by (simp add: set_outbox_def heard_updates)

abbreviation same_heard where
  "same_heard answers s s' \<equiv> s' = heard answers s"

lemma serial_run_heard:
  assumes "serial_run is_object a handle app initial tasks k command s s' r"
  shows "serial_run is_object a handle app initial tasks k command (heard answers s) (heard answers s') r"
  using assms
proof cases
  case (serial_rejected st d)
  then show ?thesis by (auto intro: serial_run.serial_rejected)
next
  case (serial_decided st evs st' su link tx metadata db' written)
  show ?thesis unfolding serial_decided(1) heard_updates
    by (rule serial_run.serial_decided [where s = st and s' = st' and link = link]) (use serial_decided in simp_all)
next
  case (serial_failed e)
  then show ?thesis by (simp add: serial_run.serial_failed)
qed

lemma email_executor_heard:
  assumes "email_executor_serial is_object es ex"
  shows "\<exists>ex'. email_executor_serial is_object es ex' \<and> (\<forall>k command tasks.
    alike (same_heard answers) (ex k command tasks s) (ex' k command tasks (heard answers s)))"
proof -
  let ?ex = "\<lambda>k command tasks w. if w = heard answers s then apfst (heard answers) (ex k command tasks s) else ex k command tasks w"
  have "email_executor_serial is_object es ?ex"
    using assms unfolding email_executor_serial_def by simp (meson serial_run_heard)
  then show ?thesis by (intro exI [of _ ?ex]) (simp add: alike_def)
qed

lemma email_use_case_heard:
  assumes ex: "email_executor_serial is_object es ex" and f: "f ex s = (s', r)"
    and "\<forall>ex'. (\<forall>k command tasks. alike (same_heard answers) (ex k command tasks s) (ex' k command tasks (heard answers s))) \<longrightarrow>
      alike (same_heard answers) (f ex s) (f ex' (heard answers s))"
  shows "\<exists>ex'. email_executor_serial is_object es ex' \<and> f ex' (heard answers s) = (heard answers s', r)"
proof -
  from email_executor_heard [OF ex] obtain ex' where ex': "email_executor_serial is_object es ex'"
    "\<forall>k command tasks. alike (same_heard answers) (ex k command tasks s) (ex' k command tasks (heard answers s))" by blast
  with assms(3) have "alike (same_heard answers) (f ex s) (f ex' (heard answers s))" by blast
  with f ex'(1) show ?thesis by (intro exI [of _ ex']) (simp add: alike_def prod_eq_iff)
qed

lemma account_executor_heard:
  assumes "account_executor_serial is_object us ax"
  shows "\<exists>ax'. account_executor_serial is_object us ax' \<and> (\<forall>k command tasks.
    alike (same_heard answers) (ax k command tasks s) (ax' k command tasks (heard answers s)))"
proof -
  let ?ax = "\<lambda>k command tasks w. if w = heard answers s then apfst (heard answers) (ax k command tasks s) else ax k command tasks w"
  have "account_executor_serial is_object us ?ax"
    using assms unfolding account_executor_serial_def by simp (meson serial_run_heard)
  then show ?thesis by (intro exI [of _ ?ax]) (simp add: alike_def)
qed

lemma dispatch_heard:
  assumes ex: "email_executor_serial is_object es ex" and ax: "account_executor_serial is_object us ax"
    and d: "build_dispatcher c uuid_fmt (store_write written partial) (store_flush flushed) ex ax now v4 = Ok d"
    and run: "TaskDispatcher_dispatch d a s = Return (s', r)"
  obtains ex' ax' d' where "email_executor_serial is_object es ex'" "account_executor_serial is_object us ax'"
    "build_dispatcher c uuid_fmt (store_write written partial) (store_flush flushed) ex' ax' now v4 = Ok d'"
    "TaskDispatcher_dispatch d' a (heard answers s) = Return (heard answers s', r)"
proof -
  from email_executor_heard [OF ex] obtain ex' where ex': "email_executor_serial is_object es ex'"
    "\<And>k command tasks. alike (same_heard answers) (ex k command tasks s) (ex' k command tasks (heard answers s))" by metis
  from account_executor_heard [OF ax] obtain ax' where ax': "account_executor_serial is_object us ax'"
    "\<And>k command tasks. alike (same_heard answers) (ax k command tasks s) (ax' k command tasks (heard answers s))" by metis
  obtain d' where d': "build_dispatcher c uuid_fmt (store_write written partial) (store_flush flushed) ex' ax' now v4 = Ok d'"
    using dispatcher_built by blast
  have con: "alike (same_heard answers) (store_write written partial line s) (store_write written partial line (heard answers s))" for line
    by (simp add: store_write_def heard_updates)
  have flush: "alike (same_heard answers) (store_flush flushed x) (store_flush flushed y)" if "y = heard answers x" for x y
    using that by (simp add: store_flush_def)
  from dispatch_alike [where R = "same_heard answers", OF d d' ex'(2) ax'(2) con flush refl run]
  have "TaskDispatcher_dispatch d' a (heard answers s) = Return (heard answers s', r)" by auto
  with ex'(1) ax'(1) d' that show thesis by blast
qed

lemma stored_step_heard:
  assumes "stored_step sha256_hex date_naive uuid_fmt c es us s s'"
  shows "stored_step sha256_hex date_naive uuid_fmt c es us (heard answers s) (heard answers s')"
  using assms
proof cases
  case (stored_reserves ex generator v4 email reserved)
  let ?f = "\<lambda>ex. reserve_email c (CqrsEmailReservationGateway_execute_with_outbox ex) generator v4 email"
  have "\<exists>ex'. email_executor_serial (cd_is_object c) es ex' \<and> ?f ex' (heard answers s) = (heard answers s', reserved)"
    by (rule email_use_case_heard [where f = ?f, OF stored_reserves(1,3)]) (auto intro!: reserve_alike)
  with stored_step.stored_reserves [OF _ stored_reserves(2)] show ?thesis by blast
next
  case (stored_requests_code ex generator v4 email requested)
  let ?f = "\<lambda>ex. request_new_verification_code c (CqrsEmailReservationGateway_execute_with_outbox ex) generator v4 email"
  have "\<exists>ex'. email_executor_serial (cd_is_object c) es ex' \<and> ?f ex' (heard answers s) = (heard answers s', requested)"
    by (rule email_use_case_heard [where f = ?f, OF stored_requests_code(1,3)]) (auto intro!: request_code_alike)
  with stored_step.stored_requests_code [OF _ stored_requests_code(2)] show ?thesis by blast
next
  case (stored_confirms ex generator email account_id code confirmed)
  let ?f = "\<lambda>ex. confirm_email sha256_hex (CqrsEmailReservationGateway_execute ex) generator email account_id code"
  have "\<exists>ex'. email_executor_serial (cd_is_object c) es ex' \<and> ?f ex' (heard answers s) = (heard answers s', confirmed)"
    by (rule email_use_case_heard [where f = ?f, OF stored_confirms(1,2)]) (auto intro!: confirm_alike)
  with stored_step.stored_confirms show ?thesis by blast
next
  case (stored_submits ex now v4 submission submitted)
  let ?f = "\<lambda>ex. submit_profile sha256_hex date_naive c (CqrsEmailReservationGateway_execute_with_outbox ex) now v4 submission"
  have "\<exists>ex'. email_executor_serial (cd_is_object c) es ex' \<and> ?f ex' (heard answers s) = (heard answers s', submitted)"
    by (rule email_use_case_heard [where f = ?f, OF stored_submits(1,2)]) (auto intro!: submit_alike)
  with stored_step.stored_submits show ?thesis by blast
next
  case (stored_delivers t ex ax written partial flushed now v4 d s1 handled)
  from dispatch_heard [OF stored_delivers(3-6), of answers] obtain ex' ax' d' where
    "email_executor_serial (cd_is_object c) es ex'" "account_executor_serial (cd_is_object c) us ax'"
    "build_dispatcher c uuid_fmt (store_write written partial) (store_flush flushed) ex' ax' now v4 = Ok d'"
    "TaskDispatcher_dispatch d' (lt_attempt t) (heard answers s) = Return (heard answers s1, handled)" by blast
  from stored_step.stored_delivers [OF _ this] stored_delivers(2) show ?thesis unfolding stored_delivers(1) heard_updates by simp
next
  case (stored_abandons t ex ax written partial flushed now v4 d unanswered)
  from dispatch_heard [OF stored_abandons(2-5), of answers] obtain ex' ax' d' where
    "email_executor_serial (cd_is_object c) es ex'" "account_executor_serial (cd_is_object c) us ax'"
    "build_dispatcher c uuid_fmt (store_write written partial) (store_flush flushed) ex' ax' now v4 = Ok d'"
    "TaskDispatcher_dispatch d' (lt_attempt t) (heard answers s) = Return (heard answers s', unanswered)" by blast
  from stored_step.stored_abandons [OF _ this] stored_abandons(1) show ?thesis by simp
next
  case (stored_settles t request tx)
  have "may_settle (heard answers s) t request" using stored_settles(2) by (auto simp: may_settle_def)
  from stored_step.stored_settles [OF this, of sha256_hex date_naive uuid_fmt c es us tx] show ?thesis
    unfolding stored_settles(1) heard_outbox by simp
next
  case (stored_claims tx now fmt owner limit lease_duration rows ts)
  have "claim (cd_is_object c) tx now (db_outbox (st_db (heard answers s))) fmt owner limit lease_duration = (rows, Ok ts)"
    using stored_claims(2) by simp
  from stored_step.stored_claims [OF this] show ?thesis unfolding stored_claims(1) heard_updates heard_outbox by simp
next
  case (stored_queues op)
  from stored_step.stored_queues [OF stored_queues(2), of sha256_hex date_naive uuid_fmt c es us "heard answers s"] show ?thesis
    unfolding stored_queues(1) heard_outbox by simp
qed

lemma stored_reaches_heard:
  assumes "stored_reaches sha256_hex date_naive uuid_fmt c es us s s'"
  shows "stored_reaches sha256_hex date_naive uuid_fmt c es us (heard answers s) (heard answers s')"
  using assms
proof (induction rule: rtranclp_induct)
  case (step s1 s2)
  from step.IH stored_step_heard [OF step(2)] show ?case by (rule rtranclp.rtrancl_into_rtrancl)
qed simp

section \<open>Executions of workers\<close>

text \<open>
  The settlement of \<open>postgres/task_queue/settlement.rs\<close> on the tables. Others act before and after it; a
  dropped call was settled or not.
\<close>

definition settle_store :: "'v codec \<Rightarrow> Tx \<Rightarrow> 'v LeasedTask \<Rightarrow> SettlementRequest \<Rightarrow> 'v store \<Rightarrow> 'v store" where
  "settle_store c tx t request s = set_outbox (fst (settle (cd_is_object c) tx (db_outbox (st_db s)) t request)) s"

definition settlement_laws ::
  "('v store \<Rightarrow> 'v store \<Rightarrow> bool) \<Rightarrow> 'v codec \<Rightarrow> 'v LeasedTask
     \<Rightarrow> (SettlementRequest \<Rightarrow> 'v store \<Rightarrow> ('v store, (SettlementResult, TaskProcessingError) result) call) \<Rightarrow> bool" where
  "settlement_laws others c t settle_call \<longleftrightarrow> (\<forall>request s.
     (\<exists>s0 tx. others\<^sup>*\<^sup>* s s0 \<and> others\<^sup>*\<^sup>* (settle_store c tx t request s0) (ca_world (settle_call request s)) \<and>
        ca_result (settle_call request s) = snd (settle (cd_is_object c) tx (db_outbox (st_db s0)) t request)) \<and>
     (others\<^sup>*\<^sup>* s (ca_dropped (settle_call request s)) \<or>
      (\<exists>s0 tx. others\<^sup>*\<^sup>* s s0 \<and> others\<^sup>*\<^sup>* (settle_store c tx t request s0) (ca_dropped (settle_call request s)))))"

text \<open>A handler that is dropped leaves what others did, and its own work done or not.\<close>

definition dropped_laws ::
  "(rstring \<Rightarrow> rstring) \<Rightarrow> (DateTime \<Rightarrow> NaiveDate) \<Rightarrow> (Uuid \<Rightarrow> rstring) \<Rightarrow> 'v codec \<Rightarrow> 'v email_serde \<Rightarrow> 'v account_serde
     \<Rightarrow> 'v LeasedTask \<Rightarrow> 'v store \<Rightarrow> 'v store \<Rightarrow> bool" where
  "dropped_laws sha256_hex date_naive uuid_fmt c es us t s s' \<longleftrightarrow>
     (\<exists>s0. stored_reaches sha256_hex date_naive uuid_fmt c es us s s0 \<and> (s' = s0 \<or>
        (\<exists>ex ax written partial flushed now v4 d unanswered. email_executor_serial (cd_is_object c) es ex \<and>
          account_executor_serial (cd_is_object c) us ax \<and>
          build_dispatcher c uuid_fmt (store_write written partial) (store_flush flushed) ex ax now v4 = Ok d \<and>
          TaskDispatcher_dispatch d (lt_attempt t) s0 = Return (s', unanswered))))"

text \<open>The answer a worker hears: that of a handler it ran and that was done before its timer.\<close>

definition answered ::
  "'v store exec_env \<Rightarrow> duration \<Rightarrow> ('v, 'v store) TaskDispatcher \<Rightarrow> 'v LeasedTask \<Rightarrow> duration \<Rightarrow> 'v store
     \<Rightarrow> ('v LeasedTask \<times> (unit, TaskHandlerError) result) set" where
  "answered env storage_timeout d t handler_timeout s =
     (case execution_plan (ex_plan_now env) (tl_deadline (lt_lease t)) handler_timeout storage_timeout of
        Ok (Run handler_deadline _) \<Rightarrow>
          if ex_handler_polled env < ex_timer env handler_deadline \<and> ex_handler_finishes env < ex_timer env handler_deadline
          then (case TaskDispatcher_dispatch d (lt_attempt t) s of Return (_, answer) \<Rightarrow> {(t, answer)} | Panic \<Rightarrow> {})
          else {}
      | _ \<Rightarrow> {})"

lemma settle_before_cases:
  assumes "settle_before env S settle_call request sd s = Return (s', r, evs)"
  obtains (unsettled) "s' = s" "is_err r"
  | (finished) "s' = ca_world (settle_call request s)" "r = ca_result (settle_call request s)"
  | (dropped) "s' = ca_dropped (settle_call request s)" "is_err r"
  using assms by (auto simp: settle_before_def select_before_def Let_def split: if_splits)

text \<open>What an execution settles: a redelivery, or the answer it heard.\<close>

lemma execution_cases:
  assumes exec: "execute_and_settle env S settle_call d t H s = Return (s', r, evs)"
  obtains (unsettled) "s' = s" "is_err r" "answered env S d t H s = {}"
  | (redelivery) s1 request sd evs' where "answered env S d t H s = {}" "s1 = s \<or> s1 = ex_handler_dropped env" "redelivers request"
      "settle_before env S settle_call request sd s1 = Return (s', r, evs')"
  | (answer) s1 x delay sd evs' where "answered env S d t H s = {(t, x)}" "TaskDispatcher_dispatch d (lt_attempt t) s = Return (s1, x)"
      "settle_before env S settle_call (settlement_request x delay) sd s1 = Return (s', r, evs')"
proof (cases "execution_plan (ex_plan_now env) (tl_deadline (lt_lease t)) H S")
  case (Ok plan)
  show thesis
  proof (cases plan)
    case (Run hdl sd)
    from exec Ok Run obtain s1 x where d: "TaskDispatcher_dispatch d (lt_attempt t) s = Return (s1, x)"
      by (auto simp: execute_and_settle_def)
    define in_time where "in_time \<longleftrightarrow> ex_handler_polled env < ex_timer env hdl \<and> ex_handler_finishes env < ex_timer env hdl"
    have ans: "answered env S d t H s = (if in_time then {(t, x)} else {})"
      by (simp add: answered_def Ok Run d in_time_def)
    obtain w result invoked where sel: "select_before (ex_timer env) hdl (ex_handler_polled env) (Invoked (ex_handler_polled env))
        \<lparr> ca_finishes = ex_handler_finishes env, ca_world = s1, ca_result = x, ca_dropped = ex_handler_dropped env \<rparr>
        (Err (TaskHandlerError.Retry (lit ''handler timed out'') None)) s = (w, result, invoked)" by (rule prod_cases3)
    from exec obtain delay evs' where st: "settle_before env S settle_call (settlement_request result delay) sd w = Return (s', r, evs')"
      by (auto simp: execute_and_settle_def Ok Run d sel Let_def)
    show thesis
    proof (cases in_time)
      case True
      with sel have "w = s1" "result = x" by (auto simp: select_before_def in_time_def)
      with answer ans True d st show thesis by simp
    next
      case False
      with sel have "w = s \<or> w = ex_handler_dropped env" "redelivers (settlement_request result delay)"
        by (auto simp: select_before_def in_time_def split: if_splits)
      with redelivery ans False st show thesis by simp
    qed
  next
    case (RetryOnly sd)
    with exec Ok obtain delay reason where "settle_before env S settle_call (SettlementRequest.Retry delay reason) sd s = Return (s', r, evs)"
      by (auto simp: execute_and_settle_def)
    with redelivery [of s "SettlementRequest.Retry delay reason"] show thesis by (simp add: answered_def Ok RetryOnly)
  qed (use exec Ok unsettled in \<open>auto simp: execute_and_settle_def answered_def\<close>)
qed (use exec unsettled in \<open>auto simp: execute_and_settle_def answered_def\<close>)

lemma settle_store_step:
  assumes "redelivers request \<or> (\<exists>x delay. (t, x) \<in> answers \<and> request = settlement_request x delay)"
  shows "stored_step sha256_hex date_naive uuid_fmt c es us (heard answers s) (heard answers (settle_store c tx t request s))"
proof -
  from assms have "may_settle (heard answers s) t request" by (auto simp: may_settle_def)
  from stored_settles [OF this, of sha256_hex date_naive uuid_fmt c es us tx] show ?thesis
    by (simp add: settle_store_def heard_outbox)
qed

text \<open>
  A settlement of an execution from \<open>s\<close> to \<open>s'\<close> with the result \<open>res\<close>: it asks for a redelivery or says what the
  handler answered.
\<close>

definition settled_between ::
  "('v store \<Rightarrow> 'v store \<Rightarrow> bool) \<Rightarrow> 'v codec \<Rightarrow> 'v LeasedTask \<Rightarrow> ('v LeasedTask \<times> (unit, TaskHandlerError) result) set
     \<Rightarrow> SettlementResult \<Rightarrow> 'v store \<Rightarrow> 'v store \<Rightarrow> bool" where
  "settled_between step c t answers res s s' \<longleftrightarrow> (\<exists>s0 tx request. step\<^sup>*\<^sup>* s (heard answers s0) \<and>
     step (heard answers s0) (heard answers (settle_store c tx t request s0)) \<and>
     step\<^sup>*\<^sup>* (heard answers (settle_store c tx t request s0)) s' \<and>
     snd (settle (cd_is_object c) tx (db_outbox (st_db s0)) t request) = Ok res \<and>
     (redelivers request \<or> (\<exists>x delay. answers = {(t, x)} \<and> request = settlement_request x delay)))"

lemma settlement_stored:
  assumes laws: "settlement_laws (stored_step sha256_hex date_naive uuid_fmt c es us) c t settle_call"
    and s: "stored_reaches sha256_hex date_naive uuid_fmt c es us s (heard answers s1)"
    and request: "redelivers request \<or> (\<exists>x delay. answers = {(t, x)} \<and> request = settlement_request x delay)"
    and st: "settle_before env S settle_call request sd s1 = Return (s', r, evs)"
  shows "stored_reaches sha256_hex date_naive uuid_fmt c es us s (heard answers s') \<and>
    (\<forall>res. r = Ok res \<longrightarrow> settled_between (stored_step sha256_hex date_naive uuid_fmt c es us) c t answers res s (heard answers s'))"
proof -
  let ?step = "stored_step sha256_hex date_naive uuid_fmt c es us"
  note laws = laws [unfolded settlement_laws_def, rule_format, of s1 request]
  note trans = rtranclp_trans [where r = ?step, OF s stored_reaches_heard]
  have settled: "?step (heard answers s0) (heard answers (settle_store c tx t request s0))" for s0 tx
    using request by (auto intro: settle_store_step)
  have via: "?step\<^sup>*\<^sup>* s (heard answers z)" if "?step\<^sup>*\<^sup>* s1 s0" "?step\<^sup>*\<^sup>* (settle_store c tx t request s0) z" for s0 tx z
    using trans [OF that(1)] converse_rtranclp_into_rtranclp [where r = ?step, OF settled stored_reaches_heard [OF that(2)]]
    by (rule rtranclp_trans)
  from st show ?thesis
  proof (cases rule: settle_before_cases)
    case unsettled
    with s show ?thesis by auto
  next
    case finished
    from laws obtain s0 tx where s0: "?step\<^sup>*\<^sup>* s1 s0" "?step\<^sup>*\<^sup>* (settle_store c tx t request s0) s'"
      "r = snd (settle (cd_is_object c) tx (db_outbox (st_db s0)) t request)" unfolding finished by blast
    with via trans [OF s0(1)] settled stored_reaches_heard [OF s0(2)] request show ?thesis unfolding settled_between_def by metis
  next
    case dropped
    with laws via trans show ?thesis by auto
  qed
qed

lemma execution_stored:
  assumes laws: "codec_ok c" "serde_laws es" "serde_laws us"
    and ste: "stack (stored_step sha256_hex date_naive uuid_fmt c es us) (cd_is_object c) (EmailReservation_stored es)
      EmailReservation_handle EmailReservation_apply EmailReservation_default reader new_snapshot_store new_framework fw_execute
      backoff sleep config ex"
    and sta: "stack (stored_step sha256_hex date_naive uuid_fmt c es us) (cd_is_object c) (UserAccount_stored us)
      UserAccount_handle UserAccount_apply UserAccount_default reader' new_snapshot_store' new_framework' fw_execute'
      backoff' sleep' config' ax"
    and s: "stored_reaches sha256_hex date_naive uuid_fmt c es us empty_store s" and t: "t \<in> set (st_held s)"
    and d: "build_dispatcher c uuid_fmt (store_write written partial) (store_flush flushed) ex ax now v4 = Ok d"
    and settle: "settlement_laws (stored_step sha256_hex date_naive uuid_fmt c es us) c t settle_call"
    and dropped: "dropped_laws sha256_hex date_naive uuid_fmt c es us t s (ex_handler_dropped env)"
    and exec: "execute_and_settle env S settle_call d t H s = Return (s', r, evs)"
  shows "stored_reaches sha256_hex date_naive uuid_fmt c es us s (heard (answered env S d t H s) s') \<and>
    (\<forall>res. r = Ok res \<longrightarrow> settled_between (stored_step sha256_hex date_naive uuid_fmt c es us) c t (answered env S d t H s) res s
      (heard (answered env S d t H s) s'))"
  using exec
proof (cases rule: execution_cases)
  case unsettled
  then show ?thesis by auto
next
  case (redelivery s1 request sd evs')
  have "stored_reaches sha256_hex date_naive uuid_fmt c es us s (ex_handler_dropped env)"
    using dropped stored_reaches_grow [OF laws s] t unfolding dropped_laws_def follows_def
    by (meson stored_abandons rtranclp.rtrancl_into_rtrancl subsetD)
  with redelivery(1,2) have "stored_reaches sha256_hex date_naive uuid_fmt c es us s (heard (answered env S d t H s) s1)" by auto
  from settlement_stored [OF settle this _ redelivery(4)] redelivery(3) show ?thesis by blast
next
  case (answer s1 x delay sd evs')
  from service_step_stored [OF laws ste sta s service_delivers [OF t d answer(2)]]
  have "stored_reaches sha256_hex date_naive uuid_fmt c es us s (heard (answered env S d t H s) s1)" by (simp add: answer(1) heard_def)
  from settlement_stored [OF settle this _ answer(3)] answer(1) show ?thesis by blast
qed

text \<open>
  What the report of a settlement from \<open>s0\<close> to \<open>s1\<close> says, for the answers its worker heard.
\<close>

definition reported ::
  "(Uuid \<Rightarrow> rstring) \<Rightarrow> 'v codec \<Rightarrow> 'v email_serde \<Rightarrow> 'v account_serde \<Rightarrow> 'v LeasedTask
     \<Rightarrow> ('v LeasedTask \<times> (unit, TaskHandlerError) result) set \<Rightarrow> SettlementResult \<Rightarrow> 'v store \<Rightarrow> 'v store \<Rightarrow> bool" where
  "reported uuid_fmt c es us t answers res s0 s1 \<longleftrightarrow>
    (case res of
       SettlementResult.Completed \<Rightarrow> answers = {(t, Ok ())} \<and>
         (\<exists>r\<in>set (db_outbox (st_db s1)). ob_id r = ta_id (lt_attempt t) \<and> ob_status r = ''completed'' \<and>
            took_effect uuid_fmt c es us s1 r)
     | SettlementResult.Failed failure \<Rightarrow> tf_id failure = ta_id (lt_attempt t) \<and>
         (\<exists>r\<in>set (db_outbox (st_db s1)). ob_id r = ta_id (lt_attempt t) \<and> ob_status r = ''failed'' \<and>
            (case tf_cause failure of
               PermanentRejection \<Rightarrow> \<exists>reason. answers = {(t, Err (TaskHandlerError.Permanent reason))} \<and>
                 ob_last_error r = Some (take 2048 reason)
             | AttemptLimitReached \<Rightarrow> \<exists>r\<in>set (db_outbox (st_db s0)). is_owned t r \<and> ob_max_attempts r \<le> ob_attempts r))
     | SettlementResult.RetryScheduled \<Rightarrow> (\<exists>r\<in>set (db_outbox (st_db s1)). ob_id r = ta_id (lt_attempt t) \<and>
         ob_status r = ''pending'' \<and> ob_lock_token r = None)
     | SettlementResult.OwnershipLost \<Rightarrow> st_db s1 = st_db s0)"

lemma settlement_request_iff:
  "SettlementRequest.Completed = settlement_request x delay \<longleftrightarrow> x = Ok ()"
  "SettlementRequest.Failed reason = settlement_request x delay \<longleftrightarrow> x = Err (TaskHandlerError.Permanent reason)"
  by (cases "(x, delay)" rule: settlement_request.cases; auto)+

text \<open>What a settlement that reports a result did to the row of its task.\<close>

lemma settled_row:
  assumes ok: "table_ok is_object rows" and se: "settle is_object tx rows t request = (rows', Ok res)"
  obtains (lost) "res = SettlementResult.OwnershipLost" "rows' = rows" "\<not> (\<exists>r\<in>set rows. is_owned t r \<and> is_live tx r)"
  | (settled) r r' where "r \<in> set rows" "is_owned t r" "is_live tx r" "r' \<in> set rows'" "ob_id r' = ta_id (lt_attempt t)"
      "ob_lock_token r' = None" "res = settled_result request (lt_attempt t) r" "ob_last_error r' =
        map_option (take 2048) (sp_last_error (settlement_parameters request))"
      "ob_status r' = (if sp_status (settlement_parameters request) = ''pending'' \<and> ob_attempts r \<ge> ob_max_attempts r
         then ''failed'' else sp_status (settlement_parameters request))"
  using ok se
proof (cases rule: settle_cases)
  case (settled r r' ms)
  then have x: "row_ok is_object r" "ob_status r = ''processing''" "ob_id r = ta_id (lt_attempt t)"
    using table_okD [OF ok settled(1)] by (auto simp: is_owned_def)
  note row = settle_row_ok [OF x(1,2) settlement_parameters_status settled(4)]
  from row(2) have id: "ob_id r' = ob_id r" by (simp add: same_task_def)
  with settled(1,8) have "r' \<in> set rows'" by (auto simp: replace_row_def)
  moreover from settled(4) have "ob_last_error r' = map_option (take 2048) (sp_last_error (settlement_parameters request))"
    by (auto simp: settle_row_def)
  ultimately show thesis using that(2) [of r r'] settled(1,2,3,9) row x(3) id by auto
qed (use that(1) in auto)

section \<open>A worker, for the witnesses\<close>

definition stored_env :: "stored_value store exec_env" where
  "stored_env = \<lparr> ex_timer = id, ex_rnd = id, ex_jitter = 1, ex_plan_now = 0, ex_handler_polled = 1, ex_handler_finishes = 2,
     ex_handler_dropped = stored_leased, ex_settle_now = 3, ex_settle_polled = 4 \<rparr>"

definition stored_settle_call ::
  "SettlementRequest \<Rightarrow> stored_value store \<Rightarrow> (stored_value store, (SettlementResult, TaskProcessingError) result) call" where
  "stored_settle_call request s = \<lparr> ca_finishes = 5, ca_world = settle_store stored_codec (demo_tx 0) held_send request s,
     ca_result = snd (settle (cd_is_object stored_codec) (demo_tx 0) (db_outbox (st_db s)) held_send request), ca_dropped = s \<rparr>"

lemma stored_settle_call_laws: "settlement_laws others stored_codec held_send stored_settle_call"
  unfolding settlement_laws_def stored_settle_call_def by auto

lemma stored_env_dropped:
  "dropped_laws id id demo_fmt stored_codec email_values account_values held_send stored_leased (ex_handler_dropped stored_env)"
  unfolding dropped_laws_def stored_env_def by auto

lemma demo_executed_stored:
  assumes d: "build_dispatcher stored_codec demo_fmt (store_write True []) (store_flush True) stored_email_executor
    stored_account_executor 0 0 = Ok d"
  shows "execute_and_settle stored_env 6000000000 stored_settle_call d held_send 15000000000 stored_leased =
      Return (stored_settled\<lparr> st_handled := {} \<rparr>, Ok SettlementResult.Completed,
        [Invoked 1, SettleStarted SettlementRequest.Completed 4 6000000003])"
    "heard (answered stored_env 6000000000 d held_send 15000000000 stored_leased) (stored_settled\<lparr> st_handled := {} \<rparr>) = stored_settled"
proof -
  let ?s = "stored_leased\<lparr> st_console := console_line demo_fmt (VerificationCodeDelivery_from demo_send) (lt_attempt held_send) \<rparr>"
  have run: "TaskDispatcher_dispatch d (lt_attempt held_send) stored_leased = Return (?s, Ok ())"
    by (simp add: dispatch_service [OF d] JsonTaskAdapter_invoke_def SendVerificationCodeTaskHandler_handle_def
        ConsoleVerificationCodeSender_send_def store_write_def store_flush_def stored_send_defs stored_codec_def)
  have plan: "execution_plan 0 (tl_deadline (lt_lease held_send)) 15000000000 6000000000 = Ok (Run 15000000000 55000000000)"
    by (simp add: held_send_def execution_plan_def rust_defs LEASE_SAFETY_MARGIN_def)
  have set: "settle (cd_is_object stored_codec) (demo_tx 0) (db_outbox (st_db ?s)) held_send SettlementRequest.Completed =
      ([sent_row], Ok SettlementResult.Completed)"
    by (simp add: settle_def begin_queue_transaction_def milliseconds_def rust_defs settle_statement_def is_owned_def is_live_def
        settle_row_def row_ok_def settlement_result_def tx_commit_def demo_tx_def stored_send_defs stored_codec_def lit_def)
  have "stored_settled\<lparr> st_handled := {} \<rparr> = set_outbox [sent_row] ?s"
    by (simp add: stored_settled_def stored_sent_def set_outbox_def stored_leased_def stored_reserved_eq(2) demo_store_def)
  with set show "execute_and_settle stored_env 6000000000 stored_settle_call d held_send 15000000000 stored_leased =
      Return (stored_settled\<lparr> st_handled := {} \<rparr>, Ok SettlementResult.Completed,
        [Invoked 1, SettleStarted SettlementRequest.Completed 4 6000000003])"
    by (simp add: execute_and_settle_def stored_env_def plan run select_before_def settle_before_def stored_settle_call_def
        settle_store_def instant_add_def instant_checked_add_def rust_defs)
  show "heard (answered stored_env 6000000000 d held_send 15000000000 stored_leased) (stored_settled\<lparr> st_handled := {} \<rparr>) = stored_settled"
    by (simp add: answered_def stored_env_def plan run heard_def stored_settled_def stored_sent_def set_outbox_def)
qed

section \<open>Properties\<close>

text \<open>
  C6. What a worker reports of an execution happened, between its start and its end. Completed: its handler answered so,
  its work took effect and the row of its task was completed. Failed: the row was failed, permanently only when
  the handler said so, with the reason of the handler, or at the limit of its attempts. A scheduled retry: the row was
  pending again, without its lease. Lost ownership: the settlement changed nothing.
\<close>

theorem worker_reports_are_true:
  assumes laws: "codec_ok c" "serde_laws es" "serde_laws us"
    and ste: "stack (stored_step sha256_hex date_naive uuid_fmt c es us) (cd_is_object c) (EmailReservation_stored es)
      EmailReservation_handle EmailReservation_apply EmailReservation_default reader new_snapshot_store new_framework fw_execute
      backoff sleep config ex"
    and sta: "stack (stored_step sha256_hex date_naive uuid_fmt c es us) (cd_is_object c) (UserAccount_stored us)
      UserAccount_handle UserAccount_apply UserAccount_default reader' new_snapshot_store' new_framework' fw_execute'
      backoff' sleep' config' ax"
    and s: "stored_reaches sha256_hex date_naive uuid_fmt c es us empty_store s" and t: "t \<in> set (st_held s)"
    and d: "build_dispatcher c uuid_fmt (store_write written partial) (store_flush flushed) ex ax now v4 = Ok d"
    and settle: "settlement_laws (stored_step sha256_hex date_naive uuid_fmt c es us) c t settle_call"
    and dropped: "dropped_laws sha256_hex date_naive uuid_fmt c es us t s (ex_handler_dropped env)"
    and exec: "execute_and_settle env S settle_call d t H s = Return (s', Ok res, evs)"
  shows "\<exists>s0 s1. stored_reaches sha256_hex date_naive uuid_fmt c es us s s0 \<and>
    stored_step sha256_hex date_naive uuid_fmt c es us s0 s1 \<and>
    stored_reaches sha256_hex date_naive uuid_fmt c es us s1 (heard (answered env S d t H s) s') \<and>
    reported uuid_fmt c es us t (answered env S d t H s) res s0 s1"
proof -
  let ?h = "heard (answered env S d t H s)"
  from execution_stored [OF laws ste sta s t d settle dropped exec] obtain s0 tx request where
    r: "stored_reaches sha256_hex date_naive uuid_fmt c es us s (?h s0)"
      "stored_step sha256_hex date_naive uuid_fmt c es us (?h s0) (?h (settle_store c tx t request s0))"
      "stored_reaches sha256_hex date_naive uuid_fmt c es us (?h (settle_store c tx t request s0)) (?h s')"
    and set: "snd (settle (cd_is_object c) tx (db_outbox (st_db s0)) t request) = Ok res"
    and request: "redelivers request \<or> (\<exists>x delay. answered env S d t H s = {(t, x)} \<and> request = settlement_request x delay)"
    unfolding settled_between_def by blast
  let ?s1 = "?h (settle_store c tx t request s0)"
  from s r(1) have s0: "stored_reaches sha256_hex date_naive uuid_fmt c es us empty_store (?h s0)" by (rule rtranclp_trans)
  note s1 = rtranclp.rtrancl_into_rtrancl [OF s0 r(2)]
  have ok: "table_ok (cd_is_object c) (db_outbox (st_db s0))"
    using reachable_store(1) [OF laws s0] by (simp add: database_ok_def)
  obtain rows' where rows': "settle (cd_is_object c) tx (db_outbox (st_db s0)) t request = (rows', Ok res)" using set by (cases "settle (cd_is_object c) tx (db_outbox (st_db s0)) t request") simp
  then have sel: "db_outbox (st_db ?s1) = rows'" by (simp add: settle_store_def set_outbox_def)
  from ok rows' show ?thesis
  proof (cases rule: settled_row)
    case lost
    have "st_db ?s1 = st_db (?h s0)" using lost(2) rows' by (simp add: settle_store_def set_outbox_def)
    with lost r show ?thesis by (intro exI [of _ "?h s0"] exI [of _ ?s1]) (auto simp: reported_def)
  next
    case (settled x x')
    have effect: "took_effect uuid_fmt c es us ?s1 x'" if "ob_status x' = ''completed''"
      using completed_effect [OF laws s1 _ that] settled(4) sel by simp
    have x': "x' \<in> set (db_outbox (st_db ?s1))" "x \<in> set (db_outbox (st_db (?h s0)))" using settled(1,4) sel by simp_all
    note row = settled(2,5-9)
    show ?thesis
    proof (rule exI [of _ "?h s0"], rule exI [of _ ?s1], rule conjI [OF r(1) conjI [OF r(2) conjI [OF r(3)]]], cases request)
      case Completed
      then have "answered env S d t H s = {(t, Ok ())}" using request by (auto simp: settlement_request_iff)
      with Completed row effect x'(1) show "reported uuid_fmt c es us t (answered env S d t H s) res (?h s0) ?s1" by (auto simp: reported_def settled_result_def Let_def)
    next
      case (Retry delay reason)
      with row x' show "reported uuid_fmt c es us t (answered env S d t H s) res (?h s0) ?s1" by (auto simp: reported_def settled_result_def Let_def)
    next
      case (Failed reason)
      then have "answered env S d t H s = {(t, Err (TaskHandlerError.Permanent reason))}" using request by (auto simp: settlement_request_iff)
      with Failed row x' show "reported uuid_fmt c es us t (answered env S d t H s) res (?h s0) ?s1" by (auto simp: reported_def settled_result_def Let_def)
    qed
  qed
qed

theorem worker_reports_are_true_witness:
  "\<exists>s0 s1 r. demo_stored_reaches stored_leased s0 \<and>
     stored_step id id demo_fmt stored_codec email_values account_values s0 s1 \<and> demo_stored_reaches s1 stored_settled \<and>
     r \<in> set (db_outbox (st_db s1)) \<and> ob_id r = 1 \<and> ob_status r = ''completed'' \<and>
     took_effect demo_fmt stored_codec email_values account_values s1 r"
proof -
  obtain d where d: "build_dispatcher stored_codec demo_fmt (store_write True []) (store_flush True) stored_email_executor
      stored_account_executor 0 0 = Ok d" using dispatcher_built by blast
  have held: "held_send \<in> set (st_held stored_leased)" "ta_id (lt_attempt held_send) = 1" by (simp_all add: stored_leased_def held_send_def)
  have "demo_stored_reaches empty_store stored_leased" by (rule rtranclp.rtrancl_into_rtrancl [OF demo_stored_reached(1) demo_stored_steps(1)])
  from worker_reports_are_true [OF stored_values_ok demo_stacks this held(1) d stored_settle_call_laws stored_env_dropped
      demo_executed_stored(1) [OF d]]
  show ?thesis unfolding demo_executed_stored(2) [OF d] by (auto simp: reported_def held(2))
qed

end
