(* ===== verification/Service_Runs.thy ===== *)
theory Service_Runs
  imports Startup Stored_Http Stored_Workers
begin

text \<open>
  The wired program over its tables: \<open>startup/wiring.rs\<close> gives the router and the dispatchers, over executors of
  \<open>postgres/command_factory.rs\<close>; the runtime claims and recovers tasks and its workers execute them. The theory puts
  the components together and shows that the program as a whole refines the steps on the tables, so that what
  \<open>Stored_Guarantees\<close> shows of the tables holds of every run of the program.
\<close>

section \<open>Steps of the program\<close>

text \<open>
  One request of a client, one execution of a held task, or one operation of the poller and of the operator on the queue.
  The outcome of a write to the console and the drawn material, times and identifiers are those of the step.
\<close>

inductive program_step ::
  "http_env \<Rightarrow> (rstring \<Rightarrow> rstring) \<Rightarrow> (DateTime \<Rightarrow> NaiveDate) \<Rightarrow> 'v codec \<Rightarrow> 'v email_serde \<Rightarrow> 'v account_serde
     \<Rightarrow> (PostgresCommandConfig \<Rightarrow> 'v stored_email_executor) \<Rightarrow> (PostgresCommandConfig \<Rightarrow> 'v stored_account_executor)
     \<Rightarrow> 'v store \<Rightarrow> 'v store \<Rightarrow> bool"
  for http sha256_hex date_naive c es us email_command account_command where
  program_answers: "build http sha256_hex date_naive c (store_write written partial) (store_flush flushed) email_command account_command =
       Return parts \<Longrightarrow> material_ok generator \<Longrightarrow> ap_router parts generator now v4 endpoint s = (s', response) \<Longrightarrow>
     program_step http sha256_hex date_naive c es us email_command account_command s s'"
| program_executes: "build http sha256_hex date_naive c (store_write written partial) (store_flush flushed) email_command account_command =
       Return parts \<Longrightarrow> ap_dispatcher_factory parts now v4 = Ok d \<Longrightarrow> t \<in> set (st_held s) \<Longrightarrow>
     settlement_laws (stored_step sha256_hex date_naive (he_uuid_fmt http) c es us) c t settle_call \<Longrightarrow>
     dropped_laws sha256_hex date_naive (he_uuid_fmt http) c es us t s (ex_handler_dropped env) \<Longrightarrow>
     execute_and_settle env storage_timeout settle_call d t handler_timeout s = Return (s', r, evs) \<Longrightarrow>
     program_step http sha256_hex date_naive c es us email_command account_command s
       (heard (answered env storage_timeout d t handler_timeout s) s')"
| program_claims: "claim (cd_is_object c) tx now (db_outbox (st_db s)) fmt owner limit lease_duration = (rows, Ok ts) \<Longrightarrow>
     program_step http sha256_hex date_naive c es us email_command account_command s ((set_outbox rows s)\<lparr> st_held := st_held s @ ts \<rparr>)"
| program_queues: "maintains op \<Longrightarrow>
     program_step http sha256_hex date_naive c es us email_command account_command s
       (set_outbox (queue_step (cd_is_object c) op (db_outbox (st_db s))) s)"

lemma built_parts:
  assumes "build http sha256_hex date_naive c write_all flush email_command account_command = Return parts"
    and "PostgresCommandConfig_default = Return config"
  shows "ap_router parts = router http sha256_hex date_naive c (email_command config)"
    "ap_dispatcher_factory parts = build_dispatcher c (he_uuid_fmt http) write_all flush (email_command config) (account_command config)"
  using assms(1) unfolding build_def assms(2) by auto

lemma program_step_stored:
  assumes laws: "codec_ok c" "serde_laws es" "serde_laws us" and config: "PostgresCommandConfig_default = Return config"
    and ste: "stack (stored_step sha256_hex date_naive (he_uuid_fmt http) c es us) (cd_is_object c) (EmailReservation_stored es)
      EmailReservation_handle EmailReservation_apply EmailReservation_default reader new_snapshot_store new_framework fw_execute
      backoff sleep config (email_command config)"
    and sta: "stack (stored_step sha256_hex date_naive (he_uuid_fmt http) c es us) (cd_is_object c) (UserAccount_stored us)
      UserAccount_handle UserAccount_apply UserAccount_default reader' new_snapshot_store' new_framework' fw_execute'
      backoff' sleep' config (account_command config)"
    and s: "stored_reaches sha256_hex date_naive (he_uuid_fmt http) c es us empty_store s"
    and step: "program_step http sha256_hex date_naive c es us email_command account_command s s'"
  shows "stored_reaches sha256_hex date_naive (he_uuid_fmt http) c es us s s'"
  using step
proof cases
  case (program_answers written partial flushed parts generator now v4 endpoint response)
  from router_service_step [OF program_answers(2,3) [unfolded built_parts [OF program_answers(1) config]]]
    service_step_stored [OF laws ste sta s]
  show ?thesis by blast
next
  case (program_executes written partial flushed parts now v4 d t settle_call env storage_timeout handler_timeout w r evs)
  from execution_stored [OF laws ste sta s program_executes(4) program_executes(3) [unfolded built_parts [OF program_executes(2) config]]
      program_executes(5-7)]
  show ?thesis unfolding program_executes(1) by blast
next
  case (program_claims tx now fmt owner limit lease_duration rows ts)
  show ?thesis unfolding program_claims(1) by (rule r_into_rtranclp, rule stored_claims [OF program_claims(2)])
next
  case (program_queues op)
  show ?thesis unfolding program_queues(1) by (rule r_into_rtranclp, rule stored_queues [OF program_queues(2)])
qed

section \<open>A run, for the witnesses\<close>

text \<open>A client reserves a mailbox, a worker claims the task of its code and delivers it.\<close>

abbreviation demo_program_step where
  "demo_program_step \<equiv> program_step demo_http id id stored_codec email_values account_values
     (\<lambda>_. stored_email_executor) (\<lambda>_. stored_account_executor)"

lemma demo_program_steps:
  "demo_program_step empty_store stored_reserved" "demo_program_step stored_reserved stored_leased"
  "demo_program_step stored_leased stored_settled"
proof -
  obtain parts where parts: "build demo_http id id stored_codec (store_write True []) (store_flush True) (\<lambda>_. stored_email_executor)
      (\<lambda>_. stored_account_executor) = Return parts" using build_returns by blast
  note built = built_parts [OF parts demo_command_config_default]
  have fmt: "he_uuid_fmt demo_http = demo_fmt" by (simp add: demo_http_def)
  show "demo_program_step empty_store stored_reserved"
    by (rule program_answers [OF parts demo_material_ok, unfolded built, OF stored_reserve_response])
  from program_claims [OF demo_claimed] show "demo_program_step stored_reserved stored_leased"
    by (simp add: stored_leased_def stored_reserved_eq(2) demo_store_def)
  obtain d where d: "build_dispatcher stored_codec demo_fmt (store_write True []) (store_flush True) stored_email_executor
      stored_account_executor 0 0 = Ok d" using dispatcher_built by blast
  have held: "held_send \<in> set (st_held stored_leased)" by (simp add: stored_leased_def)
  have "ap_dispatcher_factory parts 0 0 = Ok d" by (simp add: built fmt d)
  from program_executes [OF parts this held stored_settle_call_laws stored_env_dropped [folded fmt] demo_executed_stored(1) [OF d]]
  show "demo_program_step stored_leased stored_settled" by (simp add: demo_executed_stored(2) [OF d])
qed

section \<open>Properties\<close>

text \<open>
  C3. The program refines the tables. It answers requests, claims tasks, executes them with its timers, drops handlers
  and settlements that are late, and settles what \<open>default_executor.rs\<close> makes of an answer, over the router and the dispatchers that
  \<open>startup/wiring.rs\<close> builds and over the retrying executors of \<open>postgres/command_factory.rs\<close>. Every read, decision and
  write is interleaved with anything others do. It reaches no state that requests, deliveries, settlements and queue
  operations taken one at a time do not reach.
\<close>

theorem program_refines_tables:
  assumes "codec_ok c" "serde_laws es" "serde_laws us" "PostgresCommandConfig_default = Return config"
    and "stack (stored_step sha256_hex date_naive (he_uuid_fmt http) c es us) (cd_is_object c) (EmailReservation_stored es)
      EmailReservation_handle EmailReservation_apply EmailReservation_default reader new_snapshot_store new_framework fw_execute
      backoff sleep config (email_command config)"
    and "stack (stored_step sha256_hex date_naive (he_uuid_fmt http) c es us) (cd_is_object c) (UserAccount_stored us)
      UserAccount_handle UserAccount_apply UserAccount_default reader' new_snapshot_store' new_framework' fw_execute'
      backoff' sleep' config (account_command config)"
    and "(\<lambda>s s'. program_step http sha256_hex date_naive c es us email_command account_command s s' \<or>
      stored_step sha256_hex date_naive (he_uuid_fmt http) c es us s s')\<^sup>*\<^sup>* empty_store s"
  shows "stored_reaches sha256_hex date_naive (he_uuid_fmt http) c es us empty_store s"
  using assms(7)
proof (induction rule: rtranclp_induct)
  case (step s s')
  from step(2) program_step_stored [where email_command = email_command and account_command = account_command, OF assms(1-6) step.IH]
  have "stored_reaches sha256_hex date_naive (he_uuid_fmt http) c es us s s'" by blast
  with step.IH show ?case by (rule rtranclp_trans)
qed simp

theorem program_refines_tables_witness:
  "demo_program_step empty_store stored_reserved \<and> demo_program_step stored_reserved stored_leased \<and>
   demo_program_step stored_leased stored_settled \<and>
   stored_reaches id id (he_uuid_fmt demo_http) stored_codec email_values account_values empty_store stored_settled"
proof -
  have "(\<lambda>s s'. demo_program_step s s' \<or> stored_step id id (he_uuid_fmt demo_http) stored_codec email_values account_values s s')\<^sup>*\<^sup>*
      empty_store stored_settled" (is "?R\<^sup>*\<^sup>* _ _")
  proof (rule converse_rtranclp_into_rtranclp [where r = ?R, OF _ converse_rtranclp_into_rtranclp [where r = ?R, OF _ r_into_rtranclp]])
    show "?R empty_store stored_reserved" "?R stored_reserved stored_leased" "?R stored_leased stored_settled"
      using demo_program_steps by simp_all
  qed
  from program_refines_tables [where email_command = "\<lambda>_. stored_email_executor" and account_command = "\<lambda>_. stored_account_executor"
      and http = demo_http, OF stored_values_ok demo_command_config_default demo_stacks this] demo_program_steps
  show ?thesis by blast
qed

end
