(* ===== verification/Spec2Isabelle.thy ===== *)
theory Spec2Isabelle
  imports Service_Runs
begin

text \<open>
  Verification of the account management service: an event-sourced registration workflow
  (\<open>account-managements-service\<close>) over a runtime of commands, a transactional outbox and task
  workers (\<open>cqrs-runtime\<close>).

  \<^bold>\<open>The program.\<close> A client reserves a mail address, proves that it reads the mailbox, and submits
  a profile. Each request executes one command of the aggregate \<open>EmailReservation\<close>; the accepted
  event and the tasks that follow from it are committed in one statement. Workers lease the tasks
  from the outbox table and deliver them at least once: sending a code, creating the account of an
  accepted profile, recording the creation in the reservation. A supervisor keeps a pool of workers
  fed, and a host ties the pool, the HTTP server and the process signals together.

  \<^bold>\<open>Theories.\<close> Paths are below \<open>account-managements-service/src\<close> for the domain, the application, the
  HTTP interface and the startup, and below \<open>cqrs-runtime/src\<close> for the rest.

  \<^item> \<open>Prelude\<close>: results, panics, strings, integers, durations, instants and floats as Rust has them.
  \<^item> \<open>Domain_Values\<close>, \<open>Aggregates\<close>, \<open>Email_Reservation\<close>, \<open>User_Account\<close> (\<open>domain\<close>): value objects,
    the contract \<open>event_sourced\<close> of an aggregate, and its two interpretations. The streams that
    commands write are exactly the legal histories of an abstract specification; no command
    panics; a profile is accepted once; an account is created once.
  \<^item> \<open>Task_Data\<close>, \<open>Task_Queue\<close>, \<open>Postgres_Queue\<close>, \<open>Queue_Runs\<close>, \<open>Queue_Guarantees\<close> (\<open>task/data\<close>,
    \<open>task/queue\<close>, \<open>postgres/task_queue\<close>, \<open>sql\<close>): the outbox table with its constraints, and claim,
    settlement, recovery, publication and requeue as functions on it. The interface \<open>leased_queue\<close>
    states what the port promises; it is interpreted on the PostgreSQL operations. Over any
    sequence of operations: constraints are kept, no task is lost, a lease is settled at most once
    and only under its token, deliveries are bounded, expired leases come back.
  \<^item> \<open>Event_Repository\<close>, \<open>Command_Execution\<close> (\<open>postgres/event_repository_with_outbox\<close>, \<open>command\<close>,
    \<open>postgres/command_factory.rs\<close>): the write plan, the one modifying statement, and the retry of
    conflicts. A write is atomic and extends the stream it was decided on; the retry is bounded.
  \<^item> \<open>Task_Handling\<close>, \<open>Task_Execution\<close>, \<open>Runtime_Config\<close>, \<open>Polling\<close>, \<open>Supervision\<close> (\<open>task/handling\<close>,
    \<open>task/executor\<close>, \<open>runtime\<close>): routing, one delivery with its races against timers, the limits, the
    poller, and the pool as the step relation \<open>sup_step\<close>. A handler starts only with its whole
    budget left on the lease, also behind a full local queue; queue and worker limits hold in
    every reachable state; after cancellation the pool can always come to its end.
  \<^item> \<open>Application\<close>, \<open>Registration\<close>, \<open>Registration_Guarantees\<close> (\<open>application\<close>, \<open>infrastructure\<close>,
    \<open>startup/wiring.rs\<close>): the use cases and task handlers, and the system of all mailboxes, accounts
    and tasks under requests and deliveries in any order and number (\<open>sys_step\<close>). An account
    exists only for a verified mailbox with the profile it accepted, never twice; an accepted
    registration can always be completed; no published task is rejected; a retried command takes
    effect once.
  \<^item> \<open>Stored_Commands\<close>, \<open>Stored_Registration\<close>, \<open>Stored_Interleaving\<close>, \<open>Stored_Guarantees\<close>: the same service on
    its tables of events, snapshots and outbox rows. \<open>framework_run\<close> is one attempt of the CQRS framework
    over the repository with others acting between its reads and its write, \<open>serial_run\<close> the same
    decision taken at one moment; \<open>snapshot_tolerant\<close> is the contract under which the first comes to
    the second, interpreted on both aggregates. \<open>stored_step\<close> is one request, delivery, settlement or
    queue operation on the tables. They refine \<open>sys_step\<close>: the interleaved service reaches only what
    serial steps reach, and what serial steps reach represents a reachable registration. So the
    guarantees hold of rows: where accounts come from, that snapshots agree with events, that a
    completed row had its effect, and that an accepted registration can be completed from every
    table state.
  \<^item> \<open>Http_Api\<close> (\<open>presentation/http\<close>): handlers and error mappings. A response says what was
    committed, and no request ends in an internal error.
  \<^item> \<open>Stored_Http\<close>, \<open>Stored_Workers\<close>: the routes and the executions of \<open>task/executor/default_executor.rs\<close> over the
    tables, with others acting during them. A response is true of one moment of its request, and the report
    of an execution is true of one moment of it; every timer, dropped handler and dropped settlement
    included, both come to steps of \<open>stored_step\<close>. What handlers answered is recorded in \<open>st_handled\<close>,
    which no step of the program reads.
  \<^item> \<open>Host\<close>, \<open>Startup\<close> (\<open>host\<close>, \<open>diagnostics.rs\<close>, \<open>logging.rs\<close>, \<open>config.rs\<close>, \<open>startup\<close>, \<open>main.rs\<close>): the stop
    of the process, what is printed and logged, the settings, the wiring, and the order of effects from start to
    end. Diagnostics do not depend on secrets.
  \<^item> \<open>Service_Runs\<close>: the router and the dispatchers of the wiring with the queue, as one step relation
    \<open>program_step\<close>. The program refines the steps on the tables, so that every guarantee of
    \<open>Stored_Guarantees\<close> holds of its runs.

  \<^bold>\<open>Correspondence.\<close> Definitions keep the names of the source; a method \<open>T::m\<close> is \<open>T_m\<close> where the bare
  name would clash. Fields of records carry a prefix of two or three letters. Rust enums are
  datatypes, structs are records, \<open>Result\<close> is \<open>result\<close>, and code that may panic returns \<open>run\<close>.
  An async function is the function of what its awaited calls answer: the state is passed
  through, and the instant, the fault or the random value met at an await point is an argument.
  Concurrency of other processes is either an argument (what the table became between two
  statements) or other steps of a step relation.

  \<^bold>\<open>Libraries.\<close> The mail address parser, lower-casing outside ASCII, UUID and date formats, SHA-256,
  serde, axum, the CQRS framework, sqlx and the logger are arguments. What is assumed of them is a
  named predicate with an instance: \<open>address_laws\<close>, \<open>codec_ok\<close>, \<open>rnd_laws\<close>, \<open>executes\<close>, \<open>attempts\<close>,
  \<open>serde_laws\<close>, \<open>reader_laws\<close>, \<open>framework_run\<close>, \<open>stack\<close>. \<open>settlement_laws\<close> and \<open>dropped_laws\<close> say when
  the calls of the runtime meet the tables: a call that is dropped took effect or did not.
  PostgreSQL statements are functions on tables; transactions, locks of other sessions, clocks
  and the loss of a connection before or after the commit are fields of \<open>Tx\<close> and \<open>Link\<close>.

  \<^bold>\<open>Bounds.\<close> \<open>u32\<close> values are words; wider integers are \<open>nat\<close> or \<open>int\<close> with every checked operation at
  its width. Two loops run on a counter that the source has as well: \<open>retry_from\<close> on the remaining
  attempts, of which there is at least one by \<open>policy_ok\<close>, and \<open>claim_loop\<close> on the formats not yet
  asked. \<open>recover_loop\<close> runs over the rows it locked. No other fuel is used. A pool has no bound on its steps; that it
  can end is proved as reachability.

  \<^bold>\<open>Not modelled.\<close> Path matching, extraction and JSON text of axum and serde; the SQL of the reads of
  the event store, which is postgres-es and stated by \<open>reader_laws\<close>; which commands the framework makes
  a snapshot for, so that \<open>framework_run\<close> allows it for each; replay streams for projections, which the
  service does not use; accessors, constructors that only store their arguments and the
  structs of the application services, whose methods are the use cases on their fields; the texts of
  \<open>Display\<close> implementations that reach no log or response; installing the log subscriber; dropping the
  polled future of the host or of the supervisor (the guards that cancel a token on drop are modelled where the future returns); fairness
  of the scheduler, so that liveness claims say what can happen; test fixtures.
\<close>

end
